(* ===== verification/Prelude.thy ===== *)
theory Prelude
  imports
    Main
    "HOL-Library.Word"
    "HOL-Library.Signed_Division"
    "HOL-Library.State_Monad"
    "HOL-Library.Multiset"
begin

text \<open>
  Shared vocabulary of the development: the model's base types (Go strings, 64-bit integers,
  times), Go error values, the effect type, the slice functions of the Go standard library that
  the program calls, and the generic lemmas the component theories rely on.

  \<^item> A Go string is a sequence of bytes; \<^typ>\<open>string\<close> is a list of 8-bit characters.
  \<^item> Go's \<open>int\<close> and \<open>int64\<close> are 64 bits wide on the platforms the operator is built for: they are
    \<^typ>\<open>64 word\<close>, read as a signed number with \<open>sint\<close>.
  \<^item> A \<open>time.Time\<close> is the number of nanoseconds since Go's zero time, a \<open>time.Duration\<close> is a 64-bit
    number of nanoseconds.
  \<^item> An effectful function is a value of \<open>('s, 'a) state\<close>: the world \<open>'s\<close> (the cluster, the clock,
    the metrics registry) is passed through every call in program order.
\<close>

section \<open>Base types\<close>

type_synonym int64 = "64 word"
type_synonym Time = int
type_synonym Duration = int64

definition zero_time :: Time where
  "zero_time = 0"

definition nanoseconds_per_second :: int where
  "nanoseconds_per_second = 1000000000"

text \<open>\<open>time.Time.Add\<close> and \<open>time.Time.After\<close>.\<close>

definition Time_Add :: "Time \<Rightarrow> Duration \<Rightarrow> Time" where
  "Time_Add t d = t + sint d"

definition Time_After :: "Time \<Rightarrow> Time \<Rightarrow> bool" where
  "Time_After t u \<longleftrightarrow> u < t"

text \<open>Go's division of a signed 64-bit integer truncates towards zero.\<close>

definition Duration_div :: "Duration \<Rightarrow> int \<Rightarrow> Duration" where
  "Duration_div d k = word_of_int (sint d sdiv k)"

text \<open>A lookup in a Go \<open>map[string]string\<close> yields the empty string for a missing key.\<close>

definition map_get :: "(string \<rightharpoonup> string) \<Rightarrow> string \<Rightarrow> string" where
  "map_get m k = (case m k of None \<Rightarrow> '''' | Some v \<Rightarrow> v)"

section \<open>Errors\<close>

text \<open>
  The error values the program makes or tests. \<open>'e\<close> is the type of the errors the Kubernetes
  client returns; \<open>Errorf\<close> is an error built by \<open>fmt.Errorf\<close>, kept as its format, its arguments
  and the error wrapped by \<open>%w\<close>.
\<close>

datatype 'e go_error =
    ErrConfigNotFound
  | ErrConfigNotReady
  | ApiError 'e
  | Errorf string "string list" "'e go_error option"

text \<open>\<open>errors.Is\<close>: the error itself or any error it wraps equals the target.\<close>

fun errors_Is :: "'e go_error \<Rightarrow> 'e go_error \<Rightarrow> bool" where
  "errors_Is (Errorf f args (Some err)) target =
     (Errorf f args (Some err) = target \<or> errors_Is err target)"
| "errors_Is err target = (err = target)"

section \<open>Effects\<close>

text \<open>
  The Go idiom \<open>x, err := f(); if err != nil { return err }\<close> on an effectful call, and the error
  component of a call whose value is not used.
\<close>

definition try_bind ::
  "('s, 'e + 'a) state \<Rightarrow> ('a \<Rightarrow> ('s, 'e + 'b) state) \<Rightarrow> ('s, 'e + 'b) state" where
  "try_bind m f =
     do { r \<leftarrow> m;
          case r of Inl e \<Rightarrow> State_Monad.return (Inl e) | Inr a \<Rightarrow> f a }"

definition err_of :: "'e + 'a \<Rightarrow> 'e option" where
  "err_of r = (case r of Inl e \<Rightarrow> Some e | Inr _ \<Rightarrow> None)"

abbreviation result_of :: "('s, 'a) state \<Rightarrow> 's \<Rightarrow> 'a" where
  "result_of m s \<equiv> fst (run_state m s)"

abbreviation state_after :: "('s, 'a) state \<Rightarrow> 's \<Rightarrow> 's" where
  "state_after m s \<equiv> snd (run_state m s)"

section \<open>Slices\<close>

text \<open>\<open>slices.IndexFunc\<close>: the first index whose element satisfies the predicate, or -1.\<close>

fun index_from :: "('a \<Rightarrow> bool) \<Rightarrow> nat \<Rightarrow> 'a list \<Rightarrow> int" where
  "index_from p i [] = -1"
| "index_from p i (x # xs) = (if p x then int i else index_from p (Suc i) xs)"

definition IndexFunc :: "'a list \<Rightarrow> ('a \<Rightarrow> bool) \<Rightarrow> int" where
  "IndexFunc xs p = index_from p 0 xs"

text \<open>\<open>slices.Delete(s, i, j)\<close> removes the elements \<open>s[i:j]\<close>.\<close>

definition slices_Delete :: "'a list \<Rightarrow> nat \<Rightarrow> nat \<Rightarrow> 'a list" where
  "slices_Delete xs i j = take i xs @ drop j xs"

section \<open>Fact collections\<close>

text \<open>
  \<open>run_simps\<close> evaluates effectful code; \<open>world_laws\<close> collects what a well-behaved client guarantees;
  \<open>op_defs\<close> collects the definitions of the small operations that proofs unfold freely.
\<close>

named_theorems run_simps
named_theorems world_laws
named_theorems op_defs

section \<open>Lemmas\<close>

declare run_state_bind [simp del]

text \<open>
  Sequencing in projection form: the value of the first call and the world it leaves are rewritten
  independently, so a law about either applies wherever the call occurs.
\<close>

lemma run_bind [simp, run_simps]:
  "run_state (m \<bind> f) s = run_state (f (result_of m s)) (state_after m s)"
  by (simp add: run_state_bind split_beta)

lemma run_try_bind [simp, run_simps]:
  "run_state (try_bind m f) s =
     (case result_of m s of
        Inl e \<Rightarrow> (Inl e, state_after m s)
      | Inr a \<Rightarrow> run_state (f a) (state_after m s))"
  by (simp add: try_bind_def split: sum.split)

lemma run_if [run_simps]:
  "run_state (if b then m else n) s = (if b then run_state m s else run_state n s)"
  by simp

lemma err_of_simps [simp]:
  "err_of (Inl e) = Some e"
  "err_of (Inr a) = None"
  by (simp_all add: err_of_def)

lemma err_of_None_iff [simp]: "err_of r = None \<longleftrightarrow> (\<exists>a. r = Inr a)"
  by (cases r) simp_all

lemma errors_Is_sentinel [simp]:
  "errors_Is ErrConfigNotFound target \<longleftrightarrow> target = ErrConfigNotFound"
  "errors_Is ErrConfigNotReady target \<longleftrightarrow> target = ErrConfigNotReady"
  "errors_Is (ApiError e) target \<longleftrightarrow> target = ApiError e"
  by auto

lemma Duration_div_pos:
  assumes "0 < sint d"
  shows "sint (Duration_div d 2) = sint d div 2"
proof -
  have "sint d sdiv 2 = sint d div 2"
    using assms by (simp add: signed_divide_int_def)
  moreover have "sint d div 2 < 2 ^ 63" "- (2 ^ 63) \<le> sint d div 2"
    using sint_range_size [of d] assms by (simp_all add: word_size)
  ultimately show ?thesis
    by (simp add: Duration_div_def signed_take_bit_int_eq_self sint_sbintrunc')
qed

subsection \<open>Searching a slice\<close>

lemma index_from_neg: "index_from p i xs < 0 \<longleftrightarrow> (\<forall>x\<in>set xs. \<not> p x)"
  by (induction xs arbitrary: i) auto

lemma index_from_split:
  assumes "0 \<le> index_from p i xs"
  obtains ys x zs where "xs = ys @ x # zs" "\<forall>y\<in>set ys. \<not> p y" "p x"
    "index_from p i xs = int (i + length ys)"
  using assms
proof (induction xs arbitrary: i thesis)
  case Nil
  then show ?case by simp
next
  case (Cons a xs)
  show ?case
  proof (cases "p a")
    case True
    then show ?thesis using Cons.prems(1) [of "[]" a xs] by simp
  next
    case False
    then have "0 \<le> index_from p (Suc i) xs"
      using Cons.prems(2) by simp
    from Cons.IH [OF _ this] obtain ys x zs where "xs = ys @ x # zs"
      "\<forall>y\<in>set ys. \<not> p y" "p x" "index_from p (Suc i) xs = int (Suc i + length ys)"
      by blast
    with False show ?thesis by (intro Cons.prems(1) [of "a # ys" x zs]) simp_all
  qed
qed

lemma IndexFunc_neg [simp]: "IndexFunc xs p < 0 \<longleftrightarrow> (\<forall>x\<in>set xs. \<not> p x)"
  by (simp add: IndexFunc_def index_from_neg)

lemma IndexFunc_split:
  assumes "\<not> IndexFunc xs p < 0"
  obtains ys x zs where "xs = ys @ x # zs" "\<forall>y\<in>set ys. \<not> p y" "p x"
    "nat (IndexFunc xs p) = length ys"
  using assms index_from_split [of p 0 xs]
  by (metis IndexFunc_def add_0 linorder_not_less nat_int)

lemma slices_Delete_split [simp]:
  "slices_Delete (ys @ x # zs) (length ys) (Suc (length ys)) = ys @ zs"
  by (simp add: slices_Delete_def)

end
