(* ===== verification/Api_Types.thy ===== *)
theory Api_Types
  imports Prelude
begin

text \<open>
  The custom resources of \<open>api/v1alpha1\<close>: PipelineConfig, CollectorGroup and
  CollectorGroupBinding, with their specs and statuses, the labels that mark defaults and the
  validation rules of the CRD schema. Every resource has the same outer shape (metadata, spec,
  status), which the polymorphic record \<open>resource\<close> captures; \<open>metav1.TypeMeta\<close> carries no
  information once a resource has a type and is left out.
\<close>

section \<open>Metadata and conditions\<close>

text \<open>The fields of \<open>metav1.ObjectMeta\<close> and \<open>metav1.Condition\<close> that the program reads or writes.\<close>

record ObjectMeta =
  Namespace :: string
  Name :: string
  Labels :: "string \<rightharpoonup> string"
  Finalizers :: "string list"
  DeletionTimestamp :: "Time option"
  Generation :: int64
  ResourceVersion :: string

datatype ConditionStatus = ConditionTrue | ConditionFalse | ConditionUnknown

record Condition =
  cond_Type :: string
  cond_Status :: ConditionStatus
  cond_Reason :: string
  cond_Message :: string
  cond_ObservedGeneration :: int64
  cond_LastTransitionTime :: Time

record ('spec, 'status) resource =
  Meta :: ObjectMeta
  Spec :: 'spec
  Status :: 'status

type_synonym object_key = "string \<times> string"

definition key_of :: "('spec, 'status) resource \<Rightarrow> object_key" where
  "key_of obj = (Namespace (Meta obj), Name (Meta obj))"

text \<open>\<open>metav1.Time.IsZero\<close> on a pointer: nil or the zero time.\<close>

definition IsZero :: "Time option \<Rightarrow> bool" where
  "IsZero t = (case t of None \<Rightarrow> True | Some u \<Rightarrow> u = zero_time)"

section \<open>PipelineConfig\<close>

record PipelineConfigSpec =
  Content :: string
  pc_Description :: "string option"

record PipelineConfigStatus =
  ContentHash :: string
  pc_ActiveBindings :: int64
  pc_ObservedGeneration :: int64
  pc_Conditions :: "Condition list"

type_synonym PipelineConfig = "(PipelineConfigSpec, PipelineConfigStatus) resource"

definition LabelDefaultPipelineConfig :: string where
  "LabelDefaultPipelineConfig = ''fleet.pkarakal.com/default-pipeline-config''"

section \<open>CollectorGroup\<close>

record CollectorGroupSpec =
  cg_Description :: string

record CollectorGroupStatus =
  cg_ActiveBindings :: int64
  cg_ObservedGeneration :: int64

type_synonym CollectorGroup = "(CollectorGroupSpec, CollectorGroupStatus) resource"

section \<open>CollectorGroupBinding\<close>

record CollectorGroupBindingSpec =
  CollectorGroupRef :: string
  TenantRef :: string
  PipelineConfigRef :: string

record RegisteredTenant =
  ID :: string
  CollectorID :: string
  LastSeenAt :: Time

text \<open>The phase is a string type in the source; a status that was never written has the empty phase.\<close>

type_synonym CollectorGroupBindingPhase = string

definition BindingPhasePending :: CollectorGroupBindingPhase where
  "BindingPhasePending = ''Pending''"

definition BindingPhaseActive :: CollectorGroupBindingPhase where
  "BindingPhaseActive = ''Active''"

definition BindingPhaseDegraded :: CollectorGroupBindingPhase where
  "BindingPhaseDegraded = ''Degraded''"

definition ConditionTypeRefsValid :: string where
  "ConditionTypeRefsValid = ''RefsValid''"

record CollectorGroupBindingStatus =
  Phase :: CollectorGroupBindingPhase
  ConfigHash :: string
  LastSyncedAt :: Time
  Conditions :: "Condition list"
  ObservedGeneration :: int64
  BoundPipelineConfigRef :: string
  BoundCollectorGroupRef :: string
  RegisteredTenants :: "RegisteredTenant list"

type_synonym CollectorGroupBinding =
  "(CollectorGroupBindingSpec, CollectorGroupBindingStatus) resource"

section \<open>Schema rules\<close>

text \<open>
  The CEL rule on a binding's spec (exactly one of the two targets is set), and the list rules on
  the statuses: the conditions of a PipelineConfig are a map keyed by type, the registered tenants
  of a binding a map keyed by a non-empty id.
\<close>

definition valid_binding_spec :: "CollectorGroupBindingSpec \<Rightarrow> bool" where
  "valid_binding_spec sp \<longleftrightarrow> (CollectorGroupRef sp \<noteq> '''') \<noteq> (TenantRef sp \<noteq> '''')"

definition valid_pc_status :: "PipelineConfigStatus \<Rightarrow> bool" where
  "valid_pc_status st \<longleftrightarrow> distinct (map cond_Type (pc_Conditions st))"

definition valid_binding_status :: "CollectorGroupBindingStatus \<Rightarrow> bool" where
  "valid_binding_status st \<longleftrightarrow>
     distinct (map ID (RegisteredTenants st)) \<and> (\<forall>t\<in>set (RegisteredTenants st). ID t \<noteq> '''')"

section \<open>Requests and results of a reconciler\<close>

text \<open>\<open>ctrl.Request\<close> and \<open>ctrl.Result\<close>; the empty result asks for no requeue.\<close>

record Request =
  req_Namespace :: string
  req_Name :: string

record Result =
  RequeueAfter :: Duration

definition empty_Result :: Result where
  "empty_Result = \<lparr>RequeueAfter = 0\<rparr>"

section \<open>Lemmas\<close>

lemma key_of_update [simp]:
  "key_of (obj\<lparr>Status := st\<rparr>) = key_of obj"
  "key_of (Status_update f obj) = key_of obj"
  "key_of (obj\<lparr>Spec := sp\<rparr>) = key_of obj"
  "key_of (obj\<lparr>Meta := (Meta obj)\<lparr>Finalizers := fs\<rparr>\<rparr>) = key_of obj"
  "key_of (obj\<lparr>Meta := (Meta obj)\<lparr>ResourceVersion := rv\<rparr>\<rparr>) = key_of obj"
  by (simp_all add: key_of_def)

lemma IsZero_simps [simp]:
  "IsZero None"
  "IsZero (Some t) \<longleftrightarrow> t = zero_time"
  by (simp_all add: IsZero_def)

lemma binding_phases_distinct [simp]:
  "BindingPhasePending \<noteq> BindingPhaseActive" "BindingPhaseActive \<noteq> BindingPhasePending"
  "BindingPhasePending \<noteq> BindingPhaseDegraded" "BindingPhaseDegraded \<noteq> BindingPhasePending"
  "BindingPhaseActive \<noteq> BindingPhaseDegraded" "BindingPhaseDegraded \<noteq> BindingPhaseActive"
  by (simp_all add: BindingPhasePending_def BindingPhaseActive_def BindingPhaseDegraded_def)

end
