(* ===== verification/Binding_Index.thy ===== *)
theory Binding_Index
  imports Api_Types
begin

text \<open>
  The field indexes over CollectorGroupBindings that \<open>SetupWithManager\<close> of the binding controller
  registers on the informer cache, and the registration itself. The resolver and the registry look
  bindings up through them.
\<close>

section \<open>Index keys and extractors\<close>

definition IndexTenantRef :: string where
  "IndexTenantRef = ''.spec.tenantRef''"

definition IndexCollectorGroupRef :: string where
  "IndexCollectorGroupRef = ''.spec.collectorGroupRef''"

definition IndexPipelineConfigRef :: string where
  "IndexPipelineConfigRef = ''.spec.pipelineConfigRef''"

definition index_tenant_ref :: "CollectorGroupBinding \<Rightarrow> string list" where
  "index_tenant_ref b = (if TenantRef (Spec b) = '''' then [] else [TenantRef (Spec b)])"

definition index_collector_group_ref :: "CollectorGroupBinding \<Rightarrow> string list" where
  "index_collector_group_ref b =
     (if CollectorGroupRef (Spec b) = '''' then [] else [CollectorGroupRef (Spec b)])"

definition index_pipeline_config_ref :: "CollectorGroupBinding \<Rightarrow> string list" where
  "index_pipeline_config_ref b = [PipelineConfigRef (Spec b)]"

section \<open>Registration\<close>

text \<open>
  The manager is outside the program: \<open>index_field\<close> stands for \<open>mgr.GetFieldIndexer().IndexField\<close>
  and \<open>complete\<close> for building the controller (the primary resource, the PipelineConfig watch with
  its mapping function, the name). The first failing call ends the setup.
\<close>

definition binding_SetupWithManager ::
  "(string \<Rightarrow> (CollectorGroupBinding \<Rightarrow> string list) \<Rightarrow> ('m, 'e option) state) \<Rightarrow>
   ('m, 'e option) state \<Rightarrow> ('m, 'e option) state" where
  "binding_SetupWithManager index_field complete =
     do { err \<leftarrow> index_field IndexTenantRef index_tenant_ref;
          if err \<noteq> None then State_Monad.return err
          else do { err \<leftarrow> index_field IndexCollectorGroupRef index_collector_group_ref;
            if err \<noteq> None then State_Monad.return err
            else do { err \<leftarrow> index_field IndexPipelineConfigRef index_pipeline_config_ref;
              if err \<noteq> None then State_Monad.return err
              else complete } } }"

text \<open>
  The index table a manager holds after a successful setup, when \<open>IndexField\<close> stores the extractor
  under its key.
\<close>

type_synonym index_table = "string \<rightharpoonup> (CollectorGroupBinding \<Rightarrow> string list)"

definition record_index ::
  "string \<Rightarrow> (CollectorGroupBinding \<Rightarrow> string list) \<Rightarrow> (index_table, 'e option) state" where
  "record_index k f = State (\<lambda>table. (None, table(k \<mapsto> f)))"

definition binding_index :: index_table where
  "binding_index =
     [IndexTenantRef \<mapsto> index_tenant_ref,
      IndexCollectorGroupRef \<mapsto> index_collector_group_ref,
      IndexPipelineConfigRef \<mapsto> index_pipeline_config_ref]"

section \<open>Lemmas\<close>

lemma index_keys_distinct [simp]:
  "IndexTenantRef \<noteq> IndexCollectorGroupRef" "IndexCollectorGroupRef \<noteq> IndexTenantRef"
  "IndexTenantRef \<noteq> IndexPipelineConfigRef" "IndexPipelineConfigRef \<noteq> IndexTenantRef"
  "IndexCollectorGroupRef \<noteq> IndexPipelineConfigRef" "IndexPipelineConfigRef \<noteq> IndexCollectorGroupRef"
  by (simp_all add: IndexTenantRef_def IndexCollectorGroupRef_def IndexPipelineConfigRef_def)

lemma binding_index_lookup [simp]:
  "binding_index IndexTenantRef = Some index_tenant_ref"
  "binding_index IndexCollectorGroupRef = Some index_collector_group_ref"
  "binding_index IndexPipelineConfigRef = Some index_pipeline_config_ref"
  by (simp_all add: binding_index_def)

lemma in_index_tenant_ref [simp]:
  "v \<in> set (index_tenant_ref b) \<longleftrightarrow> TenantRef (Spec b) = v \<and> v \<noteq> ''''"
  by (auto simp: index_tenant_ref_def)

lemma in_index_collector_group_ref [simp]:
  "v \<in> set (index_collector_group_ref b) \<longleftrightarrow> CollectorGroupRef (Spec b) = v \<and> v \<noteq> ''''"
  by (auto simp: index_collector_group_ref_def)

lemma in_index_pipeline_config_ref [simp]:
  "v \<in> set (index_pipeline_config_ref b) \<longleftrightarrow> PipelineConfigRef (Spec b) = v"
  by (auto simp: index_pipeline_config_ref_def)

lemma setup_index_table:
  "run_state (binding_SetupWithManager record_index (State_Monad.return None)) Map.empty =
     (None, binding_index)"
  by (simp add: binding_SetupWithManager_def record_index_def binding_index_def)

end
