(* ===== verification/Kube_World.thy ===== *)
theory Kube_World
  imports Binding_Index
begin

text \<open>
  What the program calls outside its own source, as one record of parameters: the
  controller-runtime client for each resource kind, the clock, the Prometheus collectors, and the
  helpers of \<open>apimachinery\<close> and \<open>controllerutil\<close>. Every operation of the model takes this record.

  The locales state what that code documents and what the program relies on: a reader that
  returns what is stored, a writer that stores what it is given through the status subresource or
  the main resource, and the helper functions. A world that satisfies them is a cluster without
  faults and contention; statements about error paths make no such assumption.
\<close>

section \<open>The client\<close>

datatype selector =
    InNamespace
  | MatchingFields string string
  | MatchingLabels string string

record ('s, 'e, 'o) resource_client =
  client_Get :: "string \<Rightarrow> string \<Rightarrow> ('s, 'e + 'o) state"
  client_List :: "string \<Rightarrow> selector \<Rightarrow> ('s, 'e + 'o list) state"
  client_Update :: "'o \<Rightarrow> ('s, 'e + 'o) state"
  client_StatusUpdate :: "'o \<Rightarrow> ('s, 'e + 'o) state"
  client_StatusPatch :: "'o \<Rightarrow> 'o \<Rightarrow> ('s, 'e + 'o) state"

text \<open>
  A call into the Prometheus library: the metric, its label values and, for an observation or an
  addition, the value (a latency in nanoseconds).
\<close>

datatype metric_call =
    CounterInc string "string list"
  | CounterAdd string "string list" int
  | HistogramObserve string "string list" int

record ('s, 'e) world =
  PipelineConfigs :: "('s, 'e, PipelineConfig) resource_client"
  CollectorGroups :: "('s, 'e, CollectorGroup) resource_client"
  CollectorGroupBindings :: "('s, 'e, CollectorGroupBinding) resource_client"
  Now :: "('s, Time) state"
  Emit :: "metric_call \<Rightarrow> ('s, unit) state"
  IsNotFound :: "'e \<Rightarrow> bool"
  IsConflict :: "'e \<Rightarrow> bool"
  ErrorText :: "'e \<Rightarrow> string"
  SetStatusCondition :: "Condition list \<Rightarrow> Condition \<Rightarrow> ('s, Condition list) state"
  FindStatusCondition :: "Condition list \<Rightarrow> string \<Rightarrow> Condition option"
  ContainsFinalizer :: "string list \<Rightarrow> string \<Rightarrow> bool"
  AddFinalizer :: "string list \<Rightarrow> string \<Rightarrow> string list"
  RemoveFinalizer :: "string list \<Rightarrow> string \<Rightarrow> string list"

section \<open>What a world stores\<close>

text \<open>The observable contents of a world: the stored resources and the metric calls made so far.\<close>

record cluster =
  cl_pcs :: "object_key \<rightharpoonup> PipelineConfig"
  cl_cgs :: "object_key \<rightharpoonup> CollectorGroup"
  cl_cgbs :: "object_key \<rightharpoonup> CollectorGroupBinding"
  cl_metrics :: "metric_call list"

definition selects ::
  "(string \<rightharpoonup> (('a, 'b) resource \<Rightarrow> string list)) \<Rightarrow> selector \<Rightarrow> ('a, 'b) resource \<Rightarrow> bool" where
  "selects index sel obj =
     (case sel of
        InNamespace \<Rightarrow> True
      | MatchingFields k v \<Rightarrow> (case index k of None \<Rightarrow> False | Some f \<Rightarrow> v \<in> set (f obj))
      | MatchingLabels k v \<Rightarrow> Labels (Meta obj) k = Some v)"

definition selectable ::
  "(string \<rightharpoonup> (('a, 'b) resource \<Rightarrow> string list)) \<Rightarrow> selector \<Rightarrow> bool" where
  "selectable index sel = (case sel of MatchingFields k v \<Rightarrow> index k \<noteq> None | _ \<Rightarrow> True)"

definition matching ::
  "(object_key \<rightharpoonup> ('a, 'b) resource) \<Rightarrow> (string \<rightharpoonup> (('a, 'b) resource \<Rightarrow> string list)) \<Rightarrow>
   string \<Rightarrow> selector \<Rightarrow> ('a, 'b) resource set" where
  "matching objs index ns sel = {obj. \<exists>n. objs (ns, n) = Some obj \<and> selects index sel obj}"

text \<open>
  A stored status carries its times at the precision of their wire format: \<open>wire\<close> is what a time
  becomes when it is written and read back.
\<close>

definition encode_condition :: "(Time \<Rightarrow> Time) \<Rightarrow> Condition \<Rightarrow> Condition" where
  "encode_condition wire c = c\<lparr>cond_LastTransitionTime := wire (cond_LastTransitionTime c)\<rparr>"

definition encode_pc_status :: "(Time \<Rightarrow> Time) \<Rightarrow> PipelineConfigStatus \<Rightarrow> PipelineConfigStatus" where
  "encode_pc_status wire st = st\<lparr>pc_Conditions := map (encode_condition wire) (pc_Conditions st)\<rparr>"

definition encode_tenant :: "(Time \<Rightarrow> Time) \<Rightarrow> RegisteredTenant \<Rightarrow> RegisteredTenant" where
  "encode_tenant wire t = t\<lparr>LastSeenAt := wire (LastSeenAt t)\<rparr>"

definition encode_binding_status ::
  "(Time \<Rightarrow> Time) \<Rightarrow> CollectorGroupBindingStatus \<Rightarrow> CollectorGroupBindingStatus" where
  "encode_binding_status wire st =
     st\<lparr>LastSyncedAt := wire (LastSyncedAt st),
        Conditions := map (encode_condition wire) (Conditions st),
        RegisteredTenants := map (encode_tenant wire) (RegisteredTenants st)\<rparr>"

text \<open>
  What the API server keeps of a write: the status subresource takes the status alone and the main
  resource takes everything but the status; both assign a new resource version. The program
  changes nothing but the finalizers through the main resource.
\<close>

definition stored_status ::
  "('b \<Rightarrow> 'b) \<Rightarrow> string \<Rightarrow> ('a, 'b) resource \<Rightarrow> 'b \<Rightarrow> ('a, 'b) resource" where
  "stored_status encode version cur st =
     cur\<lparr>Status := encode st, Meta := (Meta cur)\<lparr>ResourceVersion := version\<rparr>\<rparr>"

definition stored_finalizers ::
  "string \<Rightarrow> ('a, 'b) resource \<Rightarrow> string list \<Rightarrow> ('a, 'b) resource" where
  "stored_finalizers version cur fs =
     cur\<lparr>Meta := (Meta cur)\<lparr>Finalizers := fs, ResourceVersion := version\<rparr>\<rparr>"

text \<open>
  A merge patch (\<open>client.MergeFrom\<close>) carries the fields in which the new status differs from the base
  it was computed from, each as a whole, and leaves every other field of what is stored alone.
\<close>

definition merge_field :: "'a \<Rightarrow> 'a \<Rightarrow> 'a \<Rightarrow> 'a" where
  "merge_field base new cur = (if new = base then cur else new)"

definition merge_binding_status ::
  "CollectorGroupBindingStatus \<Rightarrow> CollectorGroupBindingStatus \<Rightarrow> CollectorGroupBindingStatus \<Rightarrow>
   CollectorGroupBindingStatus" where
  "merge_binding_status base new cur =
     \<lparr>Phase = merge_field (Phase base) (Phase new) (Phase cur),
      ConfigHash = merge_field (ConfigHash base) (ConfigHash new) (ConfigHash cur),
      LastSyncedAt = merge_field (LastSyncedAt base) (LastSyncedAt new) (LastSyncedAt cur),
      Conditions = merge_field (Conditions base) (Conditions new) (Conditions cur),
      ObservedGeneration =
        merge_field (ObservedGeneration base) (ObservedGeneration new) (ObservedGeneration cur),
      BoundPipelineConfigRef =
        merge_field (BoundPipelineConfigRef base) (BoundPipelineConfigRef new) (BoundPipelineConfigRef cur),
      BoundCollectorGroupRef =
        merge_field (BoundCollectorGroupRef base) (BoundCollectorGroupRef new) (BoundCollectorGroupRef cur),
      RegisteredTenants =
        merge_field (RegisteredTenants base) (RegisteredTenants new) (RegisteredTenants cur)\<rparr>"

lemma merge_field_same [simp]: "merge_field b x b = x" "merge_field b b x = x"
  by (simp_all add: merge_field_def)

lemma merge_binding_status_same [simp]: "merge_binding_status b st b = st"
  by (simp add: merge_binding_status_def)

text \<open>Two versions of a resource that differ in nothing but the status and the resource version.\<close>

definition same_object :: "('a, 'b) resource \<Rightarrow> ('a, 'b) resource \<Rightarrow> bool" where
  "same_object a b \<longleftrightarrow>
     Spec a = Spec b \<and> (Meta a)\<lparr>ResourceVersion := []\<rparr> = (Meta b)\<lparr>ResourceVersion := []\<rparr>"

section \<open>Locales: readers and writers of one resource kind\<close>

locale resource_reader =
  fixes R :: "('s, 'e, ('a, 'b) resource) resource_client"
    and abs :: "'s \<Rightarrow> cluster"
    and objs :: "cluster \<Rightarrow> object_key \<rightharpoonup> ('a, 'b) resource"
    and index :: "string \<rightharpoonup> (('a, 'b) resource \<Rightarrow> string list)"
    and not_found :: "'e \<Rightarrow> bool"
  assumes get_found:
      "objs (abs s) (ns, n) = Some obj \<Longrightarrow> result_of (client_Get R ns n) s = Inr obj"
    and get_missing:
      "objs (abs s) (ns, n) = None \<Longrightarrow> \<exists>e. result_of (client_Get R ns n) s = Inl e \<and> not_found e"
    and get_abs: "abs (state_after (client_Get R ns n) s) = abs s"
    and list_found:
      "selectable index sel \<Longrightarrow>
         \<exists>xs. result_of (client_List R ns sel) s = Inr xs \<and> distinct xs \<and>
              set xs = matching (objs (abs s)) index ns sel"
    and list_abs: "abs (state_after (client_List R ns sel) s) = abs s"
    and stored_key: "objs (abs s) k = Some obj \<Longrightarrow> key_of obj = k"

locale resource_store = resource_reader R abs objs index not_found
  for R :: "('s, 'e, ('a, 'b) resource) resource_client"
    and abs :: "'s \<Rightarrow> cluster"
    and objs :: "cluster \<Rightarrow> object_key \<rightharpoonup> ('a, 'b) resource"
    and index :: "string \<rightharpoonup> (('a, 'b) resource \<Rightarrow> string list)"
    and not_found :: "'e \<Rightarrow> bool" +
  fixes put :: "(object_key \<rightharpoonup> ('a, 'b) resource) \<Rightarrow> cluster \<Rightarrow> cluster"
    and encode :: "'b \<Rightarrow> 'b"
    and valid :: "'b \<Rightarrow> bool"
    and version :: "'s \<Rightarrow> string"
  assumes stored_valid: "objs (abs s) k = Some obj \<Longrightarrow> valid (Status obj)"
    and stored_encoded: "objs (abs s) k = Some obj \<Longrightarrow> encode (Status obj) = Status obj"
    and status_update:
      "objs (abs s) (key_of obj) = Some cur \<Longrightarrow>
       ResourceVersion (Meta obj) = ResourceVersion (Meta cur) \<Longrightarrow> valid (Status obj) \<Longrightarrow>
         result_of (client_StatusUpdate R obj) s =
           Inr (stored_status encode (version s) cur (Status obj)) \<and>
         abs (state_after (client_StatusUpdate R obj) s) =
           put ((objs (abs s))(key_of obj \<mapsto> stored_status encode (version s) cur (Status obj))) (abs s)"
    and update_finalizers:
      "objs (abs s) (key_of cur) = Some cur \<Longrightarrow>
       DeletionTimestamp (Meta cur) = None \<or> fs \<noteq> [] \<Longrightarrow>
         result_of (client_Update R (cur\<lparr>Meta := (Meta cur)\<lparr>Finalizers := fs\<rparr>\<rparr>)) s =
           Inr (stored_finalizers (version s) cur fs) \<and>
         abs (state_after (client_Update R (cur\<lparr>Meta := (Meta cur)\<lparr>Finalizers := fs\<rparr>\<rparr>)) s) =
           put ((objs (abs s))(key_of cur \<mapsto> stored_finalizers (version s) cur fs)) (abs s)"
    and update_last_finalizer:
      "objs (abs s) (key_of cur) = Some cur \<Longrightarrow> DeletionTimestamp (Meta cur) \<noteq> None \<Longrightarrow>
         (\<exists>obj. result_of (client_Update R (cur\<lparr>Meta := (Meta cur)\<lparr>Finalizers := []\<rparr>\<rparr>)) s = Inr obj) \<and>
         abs (state_after (client_Update R (cur\<lparr>Meta := (Meta cur)\<lparr>Finalizers := []\<rparr>\<rparr>)) s) =
           put ((objs (abs s))(key_of cur := None)) (abs s)"
    and status_patch:
      "objs (abs s) (key_of base) = Some base \<Longrightarrow> valid st \<Longrightarrow>
         result_of (client_StatusPatch R (base\<lparr>Status := st\<rparr>) base) s =
           Inr (stored_status encode (version s) base st) \<and>
         abs (state_after (client_StatusPatch R (base\<lparr>Status := st\<rparr>) base) s) =
           put ((objs (abs s))(key_of base \<mapsto> stored_status encode (version s) base st)) (abs s)"

section \<open>Locales: helpers and the whole world\<close>

locale kube_lib =
  fixes w :: "('s, 'e) world"
    and abs :: "'s \<Rightarrow> cluster"
  assumes contains_finalizer: "ContainsFinalizer w fs f \<longleftrightarrow> f \<in> set fs"
    and add_finalizer: "set (AddFinalizer w fs f) = insert f (set fs)"
    and remove_finalizer: "set (RemoveFinalizer w fs f) = set fs - {f}"
    and find_condition:
      "FindStatusCondition w cs t = find (\<lambda>c. cond_Type c = t) cs"
    and set_condition_find:
      "\<exists>at. find (\<lambda>c. cond_Type c = cond_Type new) (result_of (SetStatusCondition w cs new) s) =
             Some (new\<lparr>cond_LastTransitionTime := at\<rparr>)"
    and set_condition_distinct:
      "distinct (map cond_Type cs) \<Longrightarrow>
         distinct (map cond_Type (result_of (SetStatusCondition w cs new) s))"
    and set_condition_abs: "abs (state_after (SetStatusCondition w cs new) s) = abs s"
    and now_abs: "abs (state_after (Now w) s) = abs s"
    and emit_abs:
      "abs (state_after (Emit w call) s) = (abs s)\<lparr>cl_metrics := cl_metrics (abs s) @ [call]\<rparr>"

locale kube_reader =
  pc: resource_reader "PipelineConfigs w" abs cl_pcs "Map.empty" "IsNotFound w" +
  cg: resource_reader "CollectorGroups w" abs cl_cgs "Map.empty" "IsNotFound w" +
  cgb: resource_reader "CollectorGroupBindings w" abs cl_cgbs binding_index "IsNotFound w"
  for w :: "('s, 'e) world"
    and abs :: "'s \<Rightarrow> cluster"

locale kube_world = kube_lib w abs + kube_reader w abs +
  pc: resource_store "PipelineConfigs w" abs cl_pcs "Map.empty" "IsNotFound w"
    "\<lambda>m. cl_pcs_update (\<lambda>_. m)" "encode_pc_status wire" valid_pc_status version +
  cg: resource_store "CollectorGroups w" abs cl_cgs "Map.empty" "IsNotFound w"
    "\<lambda>m. cl_cgs_update (\<lambda>_. m)" "\<lambda>st. st" "\<lambda>_. True" version +
  cgb: resource_store "CollectorGroupBindings w" abs cl_cgbs binding_index "IsNotFound w"
    "\<lambda>m. cl_cgbs_update (\<lambda>_. m)" "encode_binding_status wire" valid_binding_status version
  for w :: "('s, 'e) world"
    and abs :: "'s \<Rightarrow> cluster"
    and wire :: "Time \<Rightarrow> Time"
    and version :: "'s \<Rightarrow> string" +
  assumes wire_floor: "wire t \<le> t"
    and wire_precision: "t < wire t + nanoseconds_per_second"

section \<open>Time\<close>

text \<open>A clock that never runs backwards: \<open>clock\<close> is the reading \<open>time.Now\<close> would return.\<close>

definition advances :: "('s \<Rightarrow> Time) \<Rightarrow> ('s, 'a) state \<Rightarrow> bool" where
  "advances clock m \<longleftrightarrow> (\<forall>s. clock s \<le> clock (state_after m s))"

definition client_advances :: "('s \<Rightarrow> Time) \<Rightarrow> ('s, 'e, 'o) resource_client \<Rightarrow> bool" where
  "client_advances clock R \<longleftrightarrow>
     (\<forall>ns n. advances clock (client_Get R ns n)) \<and>
     (\<forall>ns sel. advances clock (client_List R ns sel)) \<and>
     (\<forall>obj. advances clock (client_Update R obj)) \<and>
     (\<forall>obj. advances clock (client_StatusUpdate R obj)) \<and>
     (\<forall>obj base. advances clock (client_StatusPatch R obj base))"

locale kube_clock =
  fixes w :: "('s, 'e) world"
    and clock :: "'s \<Rightarrow> Time"
  assumes now_reads: "result_of (Now w) s = clock s"
    and now_advances: "advances clock (Now w)"
    and emit_advances: "advances clock (Emit w call)"
    and set_condition_advances: "advances clock (SetStatusCondition w cs new)"
    and pc_advances: "client_advances clock (PipelineConfigs w)"
    and cg_advances: "client_advances clock (CollectorGroups w)"
    and cgb_advances: "client_advances clock (CollectorGroupBindings w)"

section \<open>Lemmas\<close>

lemma advancesD: "advances clock m \<Longrightarrow> clock s \<le> clock (state_after m s)"
  by (simp add: advances_def)

lemma advances_return [intro]: "advances clock (State_Monad.return x)"
  by (simp add: advances_def)

lemma advances_bind [intro]:
  "advances clock m \<Longrightarrow> (\<And>x. advances clock (f x)) \<Longrightarrow> advances clock (m \<bind> f)"
  by (auto simp: advances_def intro: order_trans)

lemma advances_if [intro]:
  "advances clock m \<Longrightarrow> advances clock n \<Longrightarrow> advances clock (if b then m else n)"
  by simp

lemma advances_sum [intro]:
  "(\<And>e. advances clock (f e)) \<Longrightarrow> (\<And>a. advances clock (g a)) \<Longrightarrow>
     advances clock (case r of Inl e \<Rightarrow> f e | Inr a \<Rightarrow> g a)"
  by (cases r) simp_all

lemma advances_option [intro]:
  "advances clock m \<Longrightarrow> (\<And>a. advances clock (g a)) \<Longrightarrow>
     advances clock (case r of None \<Rightarrow> m | Some a \<Rightarrow> g a)"
  by (cases r) simp_all

lemma advances_prod [intro]:
  "(\<And>a b. advances clock (g a b)) \<Longrightarrow> advances clock (case p of (a, b) \<Rightarrow> g a b)"
  by (cases p) simp

lemma client_advancesD:
  assumes "client_advances clock R"
  shows "advances clock (client_Get R ns n)" "advances clock (client_List R ns sel)"
    "advances clock (client_Update R obj)" "advances clock (client_StatusUpdate R obj)"
    "advances clock (client_StatusPatch R obj base)"
  using assms by (simp_all add: client_advances_def)

lemmas advances_rules = advances_return advances_bind advances_if advances_sum advances_option
  advances_prod

context kube_clock
begin

lemmas clock_rules = advances_rules now_advances emit_advances set_condition_advances
  client_advancesD [OF pc_advances] client_advancesD [OF cg_advances] client_advancesD [OF cgb_advances]

end

lemma encode_condition_simps [simp]:
  "cond_Type (encode_condition wire c) = cond_Type c"
  "cond_Status (encode_condition wire c) = cond_Status c"
  "cond_Reason (encode_condition wire c) = cond_Reason c"
  "cond_Message (encode_condition wire c) = cond_Message c"
  "cond_ObservedGeneration (encode_condition wire c) = cond_ObservedGeneration c"
  by (simp_all add: encode_condition_def)

lemma encode_pc_status_simps [simp]:
  "ContentHash (encode_pc_status wire st) = ContentHash st"
  "pc_ActiveBindings (encode_pc_status wire st) = pc_ActiveBindings st"
  "pc_ObservedGeneration (encode_pc_status wire st) = pc_ObservedGeneration st"
  "pc_Conditions (encode_pc_status wire st) = map (encode_condition wire) (pc_Conditions st)"
  by (simp_all add: encode_pc_status_def)

lemma encode_tenant_simps [simp]:
  "ID (encode_tenant wire t) = ID t"
  "CollectorID (encode_tenant wire t) = CollectorID t"
  "LastSeenAt (encode_tenant wire t) = wire (LastSeenAt t)"
  by (simp_all add: encode_tenant_def)

lemma encode_binding_status_simps [simp]:
  "Phase (encode_binding_status wire st) = Phase st"
  "ConfigHash (encode_binding_status wire st) = ConfigHash st"
  "LastSyncedAt (encode_binding_status wire st) = wire (LastSyncedAt st)"
  "Conditions (encode_binding_status wire st) = map (encode_condition wire) (Conditions st)"
  "ObservedGeneration (encode_binding_status wire st) = ObservedGeneration st"
  "BoundPipelineConfigRef (encode_binding_status wire st) = BoundPipelineConfigRef st"
  "BoundCollectorGroupRef (encode_binding_status wire st) = BoundCollectorGroupRef st"
  "RegisteredTenants (encode_binding_status wire st) = map (encode_tenant wire) (RegisteredTenants st)"
  by (simp_all add: encode_binding_status_def)

lemma stored_status_simps [simp]:
  "Spec (stored_status enc v cur st) = Spec cur"
  "Status (stored_status enc v cur st) = enc st"
  "Namespace (Meta (stored_status enc v cur st)) = Namespace (Meta cur)"
  "Name (Meta (stored_status enc v cur st)) = Name (Meta cur)"
  "Labels (Meta (stored_status enc v cur st)) = Labels (Meta cur)"
  "Finalizers (Meta (stored_status enc v cur st)) = Finalizers (Meta cur)"
  "DeletionTimestamp (Meta (stored_status enc v cur st)) = DeletionTimestamp (Meta cur)"
  "Generation (Meta (stored_status enc v cur st)) = Generation (Meta cur)"
  "ResourceVersion (Meta (stored_status enc v cur st)) = v"
  "key_of (stored_status enc v cur st) = key_of cur"
  by (simp_all add: stored_status_def key_of_def)

lemma same_object_refl [simp]: "same_object a a"
  by (simp add: same_object_def)

lemma same_object_trans: "same_object a b \<Longrightarrow> same_object b c \<Longrightarrow> same_object a c"
  by (simp add: same_object_def)

lemma same_object_stored_status [simp]: "same_object (stored_status enc v cur st) cur"
  by (simp add: same_object_def stored_status_def)

lemma same_objectD:
  "same_object a b \<Longrightarrow>
     Spec a = Spec b \<and> Finalizers (Meta a) = Finalizers (Meta b) \<and>
     DeletionTimestamp (Meta a) = DeletionTimestamp (Meta b) \<and>
     Generation (Meta a) = Generation (Meta b) \<and> Labels (Meta a) = Labels (Meta b) \<and>
     Namespace (Meta a) = Namespace (Meta b) \<and> Name (Meta a) = Name (Meta b) \<and> key_of a = key_of b"
  by (cases "Meta a"; cases "Meta b"; simp add: same_object_def key_of_def)

lemma stored_finalizers_simps [simp]:
  "Spec (stored_finalizers v cur fs) = Spec cur"
  "Status (stored_finalizers v cur fs) = Status cur"
  "Finalizers (Meta (stored_finalizers v cur fs)) = fs"
  "DeletionTimestamp (Meta (stored_finalizers v cur fs)) = DeletionTimestamp (Meta cur)"
  "Generation (Meta (stored_finalizers v cur fs)) = Generation (Meta cur)"
  "Labels (Meta (stored_finalizers v cur fs)) = Labels (Meta cur)"
  "key_of (stored_finalizers v cur fs) = key_of cur"
  by (simp_all add: stored_finalizers_def key_of_def)

lemma selectable_simps [simp]:
  "selectable index InNamespace"
  "selectable index (MatchingLabels k v)"
  "selectable index (MatchingFields k v) \<longleftrightarrow> index k \<noteq> None"
  by (simp_all add: selectable_def)

lemma selects_simps [simp]:
  "selects index InNamespace obj"
  "selects index (MatchingLabels k v) obj \<longleftrightarrow> Labels (Meta obj) k = Some v"
  "index k = Some f \<Longrightarrow> selects index (MatchingFields k v) obj \<longleftrightarrow> v \<in> set (f obj)"
  by (simp_all add: selects_def)

lemma in_matching [simp]:
  "obj \<in> matching objs index ns sel \<longleftrightarrow> (\<exists>n. objs (ns, n) = Some obj \<and> selects index sel obj)"
  by (simp add: matching_def)

text \<open>
  The program always writes back an object it has read: the laws in that form, as rewrite rules for
  the result of the call and for the contents it leaves.
\<close>

context resource_store
begin

lemma status_writeback:
  assumes "objs (abs s) (key_of cur) = Some cur" "valid st"
  shows "result_of (client_StatusUpdate R (cur\<lparr>Status := st\<rparr>)) s =
           Inr (stored_status encode (version s) cur st)"
    and "abs (state_after (client_StatusUpdate R (cur\<lparr>Status := st\<rparr>)) s) =
           put ((objs (abs s))(key_of cur \<mapsto> stored_status encode (version s) cur st)) (abs s)"
  using assms status_update [of s "cur\<lparr>Status := st\<rparr>" cur] by simp_all

lemma finalizers_writeback:
  assumes "objs (abs s) (key_of cur) = Some cur" "DeletionTimestamp (Meta cur) = None \<or> fs \<noteq> []"
  shows "result_of (client_Update R (cur\<lparr>Meta := (Meta cur)\<lparr>Finalizers := fs\<rparr>\<rparr>)) s =
           Inr (stored_finalizers (version s) cur fs)"
    and "abs (state_after (client_Update R (cur\<lparr>Meta := (Meta cur)\<lparr>Finalizers := fs\<rparr>\<rparr>)) s) =
           put ((objs (abs s))(key_of cur \<mapsto> stored_finalizers (version s) cur fs)) (abs s)"
  using assms update_finalizers by simp_all

lemma status_patchback:
  assumes "objs (abs s) (key_of base) = Some base" "valid st"
  shows "result_of (client_StatusPatch R (base\<lparr>Status := st\<rparr>) base) s =
           Inr (stored_status encode (version s) base st)"
    and "abs (state_after (client_StatusPatch R (base\<lparr>Status := st\<rparr>) base) s) =
           put ((objs (abs s))(key_of base \<mapsto> stored_status encode (version s) base st)) (abs s)"
  using assms status_patch by simp_all

lemma removal:
  assumes "objs (abs s) (key_of cur) = Some cur" "DeletionTimestamp (Meta cur) \<noteq> None"
  shows "err_of (result_of (client_Update R (cur\<lparr>Meta := (Meta cur)\<lparr>Finalizers := []\<rparr>\<rparr>)) s) = None"
    and "abs (state_after (client_Update R (cur\<lparr>Meta := (Meta cur)\<lparr>Finalizers := []\<rparr>\<rparr>)) s) =
           put ((objs (abs s))(key_of cur := None)) (abs s)"
  using assms update_last_finalizer by simp_all

end

text \<open>The laws of a world, grouped by use.\<close>

context kube_world
begin

lemmas abs_laws = pc.get_abs cg.get_abs cgb.get_abs pc.list_abs cg.list_abs cgb.list_abs
  set_condition_abs now_abs emit_abs

lemmas get_laws = pc.get_found cg.get_found cgb.get_found

lemmas write_laws =
  pc.status_writeback cg.status_writeback cgb.status_writeback
  pc.finalizers_writeback cg.finalizers_writeback cgb.finalizers_writeback
  pc.removal cg.removal cgb.removal cgb.status_patchback

lemmas all_laws = abs_laws get_laws write_laws contains_finalizer

end

text \<open>The contents with one resource of a kind replaced.\<close>

abbreviation with_pc :: "object_key \<Rightarrow> PipelineConfig \<Rightarrow> cluster \<Rightarrow> cluster" where
  "with_pc k pc c \<equiv> c\<lparr>cl_pcs := (cl_pcs c)(k \<mapsto> pc)\<rparr>"

abbreviation with_cg :: "object_key \<Rightarrow> CollectorGroup \<Rightarrow> cluster \<Rightarrow> cluster" where
  "with_cg k cg c \<equiv> c\<lparr>cl_cgs := (cl_cgs c)(k \<mapsto> cg)\<rparr>"

abbreviation with_cgb :: "object_key \<Rightarrow> CollectorGroupBinding \<Rightarrow> cluster \<Rightarrow> cluster" where
  "with_cgb k b c \<equiv> c\<lparr>cl_cgbs := (cl_cgbs c)(k \<mapsto> b)\<rparr>"

lemma map_upd_inject: "m(k \<mapsto> x) = m(k \<mapsto> y) \<longleftrightarrow> x = y"
  by (metis fun_upd_same option.inject)

lemma with_inject [simp]:
  "with_pc k pc c = with_pc k pc' c \<longleftrightarrow> pc = pc'"
  "with_cg k cg c = with_cg k cg' c \<longleftrightarrow> cg = cg'"
  "with_cgb k b c = with_cgb k b' c \<longleftrightarrow> b = b'"
  by (cases c, simp add: map_upd_inject)+

end
