(* ===== verification/Mem_World.thy ===== *)
theory Mem_World
  imports Kube_World
begin

text \<open>
  An executable world: an in-memory cluster whose client follows the documented behaviour of the
  API server (resource versions, the status subresource, removal of an object when its last
  finalizer goes) and whose helpers follow the documentation of \<open>apimachinery\<close> and
  \<open>controllerutil\<close>. It satisfies every law of the world locales, which shows that the laws can hold
  together, and it is what concrete runs of the model are evaluated on.
\<close>

section \<open>Tables\<close>

text \<open>A table is a list of resources, newest first. Only admissible resources are visible.\<close>

definition tbl_view ::
  "('b \<Rightarrow> 'b) \<Rightarrow> ('b \<Rightarrow> bool) \<Rightarrow> ('a, 'b) resource list \<Rightarrow> object_key \<rightharpoonup> ('a, 'b) resource" where
  "tbl_view encode valid os =
     map_of (map (\<lambda>obj. (key_of obj, obj))
       (filter (\<lambda>obj. valid (Status obj) \<and> encode (Status obj) = Status obj) os))"

fun tbl_list ::
  "('b \<Rightarrow> 'b) \<Rightarrow> ('b \<Rightarrow> bool) \<Rightarrow> ('a, 'b) resource list \<Rightarrow> ('a, 'b) resource list" where
  "tbl_list encode valid [] = []"
| "tbl_list encode valid (obj # os) =
     (if valid (Status obj) \<and> encode (Status obj) = Status obj
      then obj # filter (\<lambda>x. key_of x \<noteq> key_of obj) (tbl_list encode valid os)
      else tbl_list encode valid os)"

definition tbl_del :: "object_key \<Rightarrow> ('a, 'b) resource list \<Rightarrow> ('a, 'b) resource list" where
  "tbl_del k os = filter (\<lambda>obj. key_of obj \<noteq> k) os"

definition tbl_put :: "('a, 'b) resource \<Rightarrow> ('a, 'b) resource list \<Rightarrow> ('a, 'b) resource list" where
  "tbl_put obj os = obj # tbl_del (key_of obj) os"

section \<open>The world state\<close>

record mem =
  m_pcs :: "PipelineConfig list"
  m_cgs :: "CollectorGroup list"
  m_cgbs :: "CollectorGroupBinding list"
  m_metrics :: "metric_call list"
  m_clock :: Time
  m_writes :: nat

datatype mem_error = NotFoundError | ConflictError | InvalidError

definition mem_wire :: "Time \<Rightarrow> Time" where
  "mem_wire t = t - t mod nanoseconds_per_second"

definition mem_version :: "mem \<Rightarrow> string" where
  "mem_version s = replicate (m_writes s) (CHR ''v'')"

definition mem_abs :: "mem \<Rightarrow> cluster" where
  "mem_abs s =
     \<lparr>cl_pcs = tbl_view (encode_pc_status mem_wire) valid_pc_status (m_pcs s),
      cl_cgs = tbl_view (\<lambda>st. st) (\<lambda>_. True) (m_cgs s),
      cl_cgbs = tbl_view (encode_binding_status mem_wire) valid_binding_status (m_cgbs s),
      cl_metrics = m_metrics s\<rparr>"

section \<open>The client\<close>

definition mem_commit ::
  "(('a, 'b) resource list \<Rightarrow> mem \<Rightarrow> mem) \<Rightarrow> ('a, 'b) resource list \<Rightarrow> mem \<Rightarrow> mem" where
  "mem_commit set_os os s = (set_os os s)\<lparr>m_writes := Suc (m_writes s)\<rparr>"

definition mem_client ::
  "(mem \<Rightarrow> ('a, 'b) resource list) \<Rightarrow> (('a, 'b) resource list \<Rightarrow> mem \<Rightarrow> mem) \<Rightarrow>
   ('b \<Rightarrow> 'b) \<Rightarrow> ('b \<Rightarrow> bool) \<Rightarrow> ('b \<Rightarrow> 'b \<Rightarrow> 'b \<Rightarrow> 'b) \<Rightarrow>
   (string \<rightharpoonup> (('a, 'b) resource \<Rightarrow> string list)) \<Rightarrow> (mem, mem_error, ('a, 'b) resource) resource_client" where
  "mem_client get_os set_os encode valid merge index =
     \<lparr>client_Get = (\<lambda>ns n. State (\<lambda>s.
        (case tbl_view encode valid (get_os s) (ns, n) of
           None \<Rightarrow> Inl NotFoundError | Some obj \<Rightarrow> Inr obj, s))),
      client_List = (\<lambda>ns sel. State (\<lambda>s.
        (if selectable index sel
         then Inr (filter (\<lambda>obj. Namespace (Meta obj) = ns \<and> selects index sel obj)
                     (tbl_list encode valid (get_os s)))
         else Inl InvalidError, s))),
      client_Update = (\<lambda>obj. State (\<lambda>s.
        case tbl_view encode valid (get_os s) (key_of obj) of
          None \<Rightarrow> (Inl NotFoundError, s)
        | Some cur \<Rightarrow>
            if ResourceVersion (Meta obj) \<noteq> ResourceVersion (Meta cur) then (Inl ConflictError, s)
            else if DeletionTimestamp (Meta cur) \<noteq> None \<and> Finalizers (Meta obj) = []
            then (Inr obj, mem_commit set_os (tbl_del (key_of obj) (get_os s)) s)
            else let new = stored_finalizers (mem_version s) cur (Finalizers (Meta obj))
                 in (Inr new, mem_commit set_os (tbl_put new (get_os s)) s))),
      client_StatusUpdate = (\<lambda>obj. State (\<lambda>s.
        case tbl_view encode valid (get_os s) (key_of obj) of
          None \<Rightarrow> (Inl NotFoundError, s)
        | Some cur \<Rightarrow>
            if ResourceVersion (Meta obj) \<noteq> ResourceVersion (Meta cur) then (Inl ConflictError, s)
            else if \<not> valid (Status obj) then (Inl InvalidError, s)
            else let new = stored_status encode (mem_version s) cur (Status obj)
                 in (Inr new, mem_commit set_os (tbl_put new (get_os s)) s))),
      client_StatusPatch = (\<lambda>obj base. State (\<lambda>s.
        case tbl_view encode valid (get_os s) (key_of obj) of
          None \<Rightarrow> (Inl NotFoundError, s)
        | Some cur \<Rightarrow>
            let st = merge (encode (Status base)) (encode (Status obj)) (Status cur)
            in if \<not> valid st then (Inl InvalidError, s)
               else let new = stored_status encode (mem_version s) cur st
                    in (Inr new, mem_commit set_os (tbl_put new (get_os s)) s)))\<rparr>"

section \<open>The helpers\<close>

text \<open>
  A condition is replaced in place, keeping its transition time when the status did not change, or
  appended.
\<close>

fun mem_set_condition :: "Time \<Rightarrow> Condition list \<Rightarrow> Condition \<Rightarrow> Condition list" where
  "mem_set_condition now [] new = [new\<lparr>cond_LastTransitionTime := now\<rparr>]"
| "mem_set_condition now (c # cs) new =
     (if cond_Type c = cond_Type new
      then new\<lparr>cond_LastTransitionTime :=
             (if cond_Status c = cond_Status new then cond_LastTransitionTime c else now)\<rparr> # cs
      else c # mem_set_condition now cs new)"

definition mem_now :: "(mem, Time) state" where
  "mem_now = State (\<lambda>s. (m_clock s, s\<lparr>m_clock := m_clock s + 1\<rparr>))"

definition mem_emit :: "metric_call \<Rightarrow> (mem, unit) state" where
  "mem_emit call = State (\<lambda>s. ((), s\<lparr>m_metrics := m_metrics s @ [call]\<rparr>))"

definition mem_world :: "(mem, mem_error) world" where
  "mem_world =
     \<lparr>PipelineConfigs = mem_client m_pcs (\<lambda>os. m_pcs_update (\<lambda>_. os))
        (encode_pc_status mem_wire) valid_pc_status (\<lambda>_ new _. new) Map.empty,
      CollectorGroups = mem_client m_cgs (\<lambda>os. m_cgs_update (\<lambda>_. os))
        (\<lambda>st. st) (\<lambda>_. True) (\<lambda>_ new _. new) Map.empty,
      CollectorGroupBindings = mem_client m_cgbs (\<lambda>os. m_cgbs_update (\<lambda>_. os))
        (encode_binding_status mem_wire) valid_binding_status merge_binding_status binding_index,
      Now = mem_now,
      Emit = mem_emit,
      IsNotFound = (\<lambda>e. e = NotFoundError),
      IsConflict = (\<lambda>e. e = ConflictError),
      ErrorText = (\<lambda>e. case e of NotFoundError \<Rightarrow> ''not found''
                     | ConflictError \<Rightarrow> ''the object has been modified''
                     | InvalidError \<Rightarrow> ''invalid''),
      SetStatusCondition = (\<lambda>cs new. State (\<lambda>s. (mem_set_condition (m_clock s) cs new, s))),
      FindStatusCondition = (\<lambda>cs t. find (\<lambda>c. cond_Type c = t) cs),
      ContainsFinalizer = (\<lambda>fs f. f \<in> set fs),
      AddFinalizer = (\<lambda>fs f. if f \<in> set fs then fs else fs @ [f]),
      RemoveFinalizer = (\<lambda>fs f. filter (\<lambda>x. x \<noteq> f) fs)\<rparr>"

section \<open>Lemmas: tables\<close>

lemma tbl_view_key: "tbl_view encode valid os k = Some obj \<Longrightarrow> key_of obj = k"
  by (auto simp: tbl_view_def dest!: map_of_SomeD)

lemma tbl_view_valid: "tbl_view encode valid os k = Some obj \<Longrightarrow> valid (Status obj)"
  by (auto simp: tbl_view_def dest!: map_of_SomeD)

lemma tbl_view_encoded:
  "tbl_view encode valid os k = Some obj \<Longrightarrow> encode (Status obj) = Status obj"
  by (auto simp: tbl_view_def dest!: map_of_SomeD)

lemma tbl_view_in: "tbl_view encode valid os k = Some obj \<Longrightarrow> obj \<in> set os"
  by (auto simp: tbl_view_def dest!: map_of_SomeD)

lemma tbl_view_del: "tbl_view encode valid (tbl_del k os) = (tbl_view encode valid os)(k := None)"
  by (induction os) (auto simp: tbl_view_def tbl_del_def fun_eq_iff)

lemma tbl_view_put:
  assumes "valid (Status obj)" and "encode (Status obj) = Status obj"
  shows "tbl_view encode valid (tbl_put obj os) = (tbl_view encode valid os)(key_of obj \<mapsto> obj)"
  using assms tbl_view_del [of encode valid "key_of obj" os]
  by (simp add: tbl_put_def tbl_view_def)

lemma tbl_view_put_status:
  assumes "tbl_view encode valid os k = Some cur"
    and "valid st" "\<And>st. encode (encode st) = encode st" "\<And>st. valid (encode st) = valid st"
  shows "tbl_view encode valid (tbl_put (stored_status encode v cur st) os) =
           (tbl_view encode valid os)(k \<mapsto> stored_status encode v cur st)"
  using assms tbl_view_key [OF assms(1)] by (simp add: tbl_view_put)

lemma tbl_view_put_finalizers:
  assumes "tbl_view encode valid os k = Some cur"
  shows "tbl_view encode valid (tbl_put (stored_finalizers v cur fs) os) =
           (tbl_view encode valid os)(k \<mapsto> stored_finalizers v cur fs)"
  using tbl_view_key [OF assms] tbl_view_valid [OF assms] tbl_view_encoded [OF assms]
  by (simp add: tbl_view_put)

lemma set_tbl_list:
  "obj \<in> set (tbl_list encode valid os) \<longleftrightarrow> tbl_view encode valid os (key_of obj) = Some obj"
  by (induction os) (auto simp: tbl_view_def)

lemma distinct_tbl_list: "distinct (tbl_list encode valid os)"
  by (induction os) auto

lemma set_filter_tbl_list:
  "set (filter (\<lambda>obj. Namespace (Meta obj) = ns \<and> selects index sel obj) (tbl_list encode valid os)) =
     matching (tbl_view encode valid os) index ns sel"
  by (auto simp: set_tbl_list) (auto simp: key_of_def dest: tbl_view_key [unfolded key_of_def])

section \<open>Lemmas: the client meets the laws\<close>

lemma mem_wire_mod: "mem_wire (mem_wire t) = mem_wire t"
  by (simp add: mem_wire_def nanoseconds_per_second_def)

lemma mem_wire_bounds: "mem_wire t \<le> t" "t < mem_wire t + nanoseconds_per_second"
  by (simp_all add: mem_wire_def nanoseconds_per_second_def)

lemma encode_condition_idem: "encode_condition mem_wire (encode_condition mem_wire c) = encode_condition mem_wire c"
  by (simp add: encode_condition_def mem_wire_mod)

lemma encode_pc_status_idem:
  "encode_pc_status mem_wire (encode_pc_status mem_wire st) = encode_pc_status mem_wire st"
  by (simp add: encode_pc_status_def encode_condition_idem)

lemma encode_binding_status_idem:
  "encode_binding_status mem_wire (encode_binding_status mem_wire st) =
     encode_binding_status mem_wire st"
  by (simp add: encode_binding_status_def encode_condition_idem encode_tenant_def mem_wire_mod)

lemma valid_encode_pc [simp]: "valid_pc_status (encode_pc_status wire st) = valid_pc_status st"
  by (simp add: valid_pc_status_def comp_def)

lemma valid_encode_binding [simp]:
  "valid_binding_status (encode_binding_status wire st) = valid_binding_status st"
  by (simp add: valid_binding_status_def comp_def)

lemma mem_resource_reader:
  assumes view: "\<And>s. objs (mem_abs s) = tbl_view encode valid (get_os s)"
  shows "resource_reader (mem_client get_os set_os encode valid merge index) mem_abs objs index
           (\<lambda>e. e = NotFoundError)"
  by unfold_locales
    (auto simp: mem_client_def view set_filter_tbl_list distinct_tbl_list
      simp del: set_filter dest: tbl_view_key)

lemma mem_resource_store:
  assumes view: "\<And>s. objs (mem_abs s) = tbl_view encode valid (get_os s)"
    and get_set: "\<And>os s. mem_abs (set_os os s) = put (tbl_view encode valid os) (mem_abs s)"
    and idem: "\<And>st. encode (encode st) = encode st"
    and valid_encode: "\<And>st. valid (encode st) = valid st"
    and merge_base: "\<And>b st. merge b st b = st"
  shows "resource_store (mem_client get_os set_os encode valid merge index) mem_abs objs index
           (\<lambda>e. e = NotFoundError) put encode valid mem_version"
proof -
  have commit: "mem_abs (mem_commit set_os os s) = put (tbl_view encode valid os) (mem_abs s)" for os s
    using get_set by (simp add: mem_commit_def mem_abs_def)
  have patched: "merge (encode (Status base)) st (Status base) = st"
    if "tbl_view encode valid os k = Some base" for os k base st
    using tbl_view_encoded [OF that] by (simp add: merge_base)
  have encoded: "stored_status encode v cur (encode st) = stored_status encode v cur st" for v cur st
    by (simp add: stored_status_def idem)
  show ?thesis
    by (intro resource_store.intro resource_store_axioms.intro mem_resource_reader view)
      (auto simp: mem_client_def view commit tbl_view_put_status tbl_view_put_finalizers
        tbl_view_del idem valid_encode patched encoded Let_def dest: tbl_view_valid tbl_view_encoded)
qed

lemma find_mem_set_condition:
  "\<exists>at. find (\<lambda>c. cond_Type c = cond_Type new) (mem_set_condition now cs new) =
          Some (new\<lparr>cond_LastTransitionTime := at\<rparr>)"
  by (induction cs) (auto split: if_splits)

lemma types_mem_set_condition:
  "map cond_Type (mem_set_condition now cs new) =
     (if cond_Type new \<in> set (map cond_Type cs) then map cond_Type cs
      else map cond_Type cs @ [cond_Type new])"
  by (induction cs) auto

lemma mem_pc_store:
  "resource_store (PipelineConfigs mem_world) mem_abs cl_pcs Map.empty (IsNotFound mem_world)
     (\<lambda>m. cl_pcs_update (\<lambda>_. m)) (encode_pc_status mem_wire) valid_pc_status mem_version"
  unfolding mem_world_def world.select_convs
  by (rule mem_resource_store) (simp_all add: mem_abs_def encode_pc_status_idem)

lemma mem_cg_store:
  "resource_store (CollectorGroups mem_world) mem_abs cl_cgs Map.empty (IsNotFound mem_world)
     (\<lambda>m. cl_cgs_update (\<lambda>_. m)) (\<lambda>st. st) (\<lambda>_. True) mem_version"
  unfolding mem_world_def world.select_convs
  by (rule mem_resource_store) (simp_all add: mem_abs_def)

lemma mem_cgb_store:
  "resource_store (CollectorGroupBindings mem_world) mem_abs cl_cgbs binding_index
     (IsNotFound mem_world) (\<lambda>m. cl_cgbs_update (\<lambda>_. m)) (encode_binding_status mem_wire)
     valid_binding_status mem_version"
  unfolding mem_world_def world.select_convs
  by (rule mem_resource_store) (simp_all add: mem_abs_def encode_binding_status_idem)

lemmas mem_readers = mem_pc_store [THEN resource_store.axioms(1)]
  mem_cg_store [THEN resource_store.axioms(1)] mem_cgb_store [THEN resource_store.axioms(1)]

lemma mem_lib: "kube_lib mem_world mem_abs"
  by unfold_locales
    (auto simp: mem_world_def mem_abs_def mem_now_def mem_emit_def find_mem_set_condition
      types_mem_set_condition)

interpretation mem: kube_world mem_world mem_abs mem_wire mem_version
  by (intro kube_world.intro kube_reader.intro kube_world_axioms.intro mem_readers mem_lib
    mem_pc_store mem_cg_store mem_cgb_store mem_wire_bounds)

lemma mem_client_advances:
  assumes "\<And>os s. m_clock (set_os os s) = m_clock s"
  shows "client_advances m_clock (mem_client get_os set_os encode valid merge index)"
  using assms
  by (auto simp: client_advances_def advances_def mem_client_def mem_commit_def Let_def split: option.split)

interpretation mem_time: kube_clock mem_world m_clock
  by unfold_locales
    (auto simp: mem_world_def mem_now_def mem_emit_def advances_def intro: mem_client_advances)

lemma kube_clock_mem [simp]: "kube_clock mem_world m_clock"
  by (rule mem_time.kube_clock_axioms)

lemma kube_world_mem [simp]: "kube_world mem_world mem_abs mem_wire mem_version"
  by (rule mem.kube_world_axioms)

lemma kube_reader_mem [simp]: "kube_reader mem_world mem_abs"
  by (rule mem.kube_reader_axioms)

end
