(* ===== verification/Sample_Cluster.thy ===== *)
theory Sample_Cluster
  imports Mem_World
begin

text \<open>
  A small in-memory cluster on which the properties are exercised: a namespace with two
  PipelineConfigs (one labelled as the default), one CollectorGroup and two bindings, one for a
  tenant and one for the group.
\<close>

section \<open>Resources\<close>

definition sample_meta :: "string \<Rightarrow> string list \<Rightarrow> Time option \<Rightarrow> ObjectMeta" where
  "sample_meta n fs del =
     \<lparr>Namespace = ''ns'', Name = n, Labels = Map.empty, Finalizers = fs, DeletionTimestamp = del,
      Generation = 1, ResourceVersion = ''v''\<rparr>"

definition sample_pc ::
  "string \<Rightarrow> string \<Rightarrow> string \<Rightarrow> int64 \<Rightarrow> string list \<Rightarrow> Time option \<Rightarrow> PipelineConfig" where
  "sample_pc n content hash active fs del =
     \<lparr>Meta = sample_meta n fs del, Spec = \<lparr>Content = content, pc_Description = None\<rparr>,
      Status = \<lparr>ContentHash = hash, pc_ActiveBindings = active, pc_ObservedGeneration = 0,
                pc_Conditions = []\<rparr>\<rparr>"

definition sample_default_pc :: PipelineConfig where
  "sample_default_pc =
     (sample_pc ''default'' ''default content'' ''h2'' 0 [] None)
       \<lparr>Meta := (sample_meta ''default'' [] None)
          \<lparr>Labels := [LabelDefaultPipelineConfig \<mapsto> ''true'']\<rparr>\<rparr>"

definition sample_cg :: "string \<Rightarrow> int64 \<Rightarrow> string list \<Rightarrow> Time option \<Rightarrow> CollectorGroup" where
  "sample_cg n active fs del =
     \<lparr>Meta = sample_meta n fs del, Spec = \<lparr>cg_Description = ''''\<rparr>,
      Status = \<lparr>cg_ActiveBindings = active, cg_ObservedGeneration = 0\<rparr>\<rparr>"

definition seconds :: "int \<Rightarrow> Time" where
  "seconds n = n * nanoseconds_per_second"

definition sample_tenant :: "string \<Rightarrow> string \<Rightarrow> int \<Rightarrow> RegisteredTenant" where
  "sample_tenant t c at = \<lparr>ID = t, CollectorID = c, LastSeenAt = seconds at\<rparr>"

definition sample_binding ::
  "string \<Rightarrow> string \<Rightarrow> string \<Rightarrow> string \<Rightarrow> string \<Rightarrow> string \<Rightarrow> RegisteredTenant list \<Rightarrow>
   string list \<Rightarrow> Time option \<Rightarrow> CollectorGroupBinding" where
  "sample_binding n grp tenant config bound_pc bound_cg tenants fs del =
     \<lparr>Meta = sample_meta n fs del,
      Spec = \<lparr>CollectorGroupRef = grp, TenantRef = tenant, PipelineConfigRef = config\<rparr>,
      Status = \<lparr>Phase = '''', ConfigHash = '''', LastSyncedAt = zero_time, Conditions = [],
                ObservedGeneration = 0, BoundPipelineConfigRef = bound_pc,
                BoundCollectorGroupRef = bound_cg, RegisteredTenants = tenants\<rparr>\<rparr>"

definition sample ::
  "PipelineConfig list \<Rightarrow> CollectorGroup list \<Rightarrow> CollectorGroupBinding list \<Rightarrow> mem" where
  "sample pcs cgs bs =
     \<lparr>m_pcs = pcs, m_cgs = cgs, m_cgbs = bs, m_metrics = [], m_clock = seconds 2000, m_writes = 7\<rparr>"

definition sample_req :: "string \<Rightarrow> Request" where
  "sample_req n = \<lparr>req_Namespace = ''ns'', req_Name = n\<rparr>"

section \<open>Lookups\<close>

lemma sample_meta_simps [simp]:
  "Namespace (sample_meta n fs del) = ''ns''"
  "Name (sample_meta n fs del) = n"
  "Labels (sample_meta n fs del) = Map.empty"
  "Finalizers (sample_meta n fs del) = fs"
  "DeletionTimestamp (sample_meta n fs del) = del"
  "Generation (sample_meta n fs del) = 1"
  by (simp_all add: sample_meta_def)

lemma sample_pc_simps [simp]:
  "Meta (sample_pc n content hash active fs del) = sample_meta n fs del"
  "Content (Spec (sample_pc n content hash active fs del)) = content"
  "ContentHash (Status (sample_pc n content hash active fs del)) = hash"
  "pc_ActiveBindings (Status (sample_pc n content hash active fs del)) = active"
  "pc_Conditions (Status (sample_pc n content hash active fs del)) = []"
  "key_of (sample_pc n content hash active fs del) = (''ns'', n)"
  "encode_pc_status wire (Status (sample_pc n content hash active fs del)) =
     Status (sample_pc n content hash active fs del)"
  "valid_pc_status (Status (sample_pc n content hash active fs del))"
  by (simp_all add: sample_pc_def key_of_def encode_pc_status_def valid_pc_status_def)

lemma sample_default_pc_simps [simp]:
  "Content (Spec sample_default_pc) = ''default content''"
  "ContentHash (Status sample_default_pc) = ''h2''"
  "pc_ActiveBindings (Status sample_default_pc) = 0"
  "Labels (Meta sample_default_pc) = [LabelDefaultPipelineConfig \<mapsto> ''true'']"
  "Namespace (Meta sample_default_pc) = ''ns''"
  "key_of sample_default_pc = (''ns'', ''default'')"
  "encode_pc_status wire (Status sample_default_pc) = Status sample_default_pc"
  "valid_pc_status (Status sample_default_pc)"
  by (simp_all add: sample_default_pc_def key_of_def)

lemma sample_cg_simps [simp]:
  "Meta (sample_cg n active fs del) = sample_meta n fs del"
  "cg_ActiveBindings (Status (sample_cg n active fs del)) = active"
  "key_of (sample_cg n active fs del) = (''ns'', n)"
  by (simp_all add: sample_cg_def key_of_def)

lemma sample_tenant_simps [simp]:
  "ID (sample_tenant t c at) = t"
  "CollectorID (sample_tenant t c at) = c"
  "LastSeenAt (sample_tenant t c at) = seconds at"
  "encode_tenant mem_wire (sample_tenant t c at) = sample_tenant t c at"
  by (simp_all add: sample_tenant_def encode_tenant_def mem_wire_def seconds_def)

lemma sample_binding_simps [simp]:
  "Meta (sample_binding n grp tenant config bound_pc bound_cg tenants fs del) = sample_meta n fs del"
  "CollectorGroupRef (Spec (sample_binding n grp tenant config bound_pc bound_cg tenants fs del)) = grp"
  "TenantRef (Spec (sample_binding n grp tenant config bound_pc bound_cg tenants fs del)) = tenant"
  "PipelineConfigRef (Spec (sample_binding n grp tenant config bound_pc bound_cg tenants fs del)) = config"
  "BoundPipelineConfigRef (Status (sample_binding n grp tenant config bound_pc bound_cg tenants fs del)) = bound_pc"
  "BoundCollectorGroupRef (Status (sample_binding n grp tenant config bound_pc bound_cg tenants fs del)) = bound_cg"
  "RegisteredTenants (Status (sample_binding n grp tenant config bound_pc bound_cg tenants fs del)) = tenants"
  "key_of (sample_binding n grp tenant config bound_pc bound_cg tenants fs del) = (''ns'', n)"
  by (simp_all add: sample_binding_def key_of_def)

lemma sample_binding_encoded [simp]:
  "encode_binding_status mem_wire
     (Status (sample_binding n grp tenant config bound_pc bound_cg tenants fs del)) =
     Status (sample_binding n grp tenant config bound_pc bound_cg tenants fs del) \<longleftrightarrow>
   map (encode_tenant mem_wire) tenants = tenants"
  by (simp add: sample_binding_def encode_binding_status_def mem_wire_def zero_time_def)

lemma sample_binding_valid [simp]:
  "valid_binding_status (Status (sample_binding n grp tenant config bound_pc bound_cg tenants fs del)) \<longleftrightarrow>
   distinct (map ID tenants) \<and> (\<forall>t\<in>set tenants. ID t \<noteq> '''')"
  by (simp add: valid_binding_status_def)

lemma sample_abs [simp]:
  "cl_pcs (mem_abs (sample pcs cgs bs)) = tbl_view (encode_pc_status mem_wire) valid_pc_status pcs"
  "cl_cgs (mem_abs (sample pcs cgs bs)) = tbl_view (\<lambda>st. st) (\<lambda>_. True) cgs"
  "cl_cgbs (mem_abs (sample pcs cgs bs)) = tbl_view (encode_binding_status mem_wire) valid_binding_status bs"
  by (simp_all add: mem_abs_def sample_def)

lemma sample_req_simps [simp]:
  "req_Namespace (sample_req n) = ''ns''"
  "req_Name (sample_req n) = n"
  by (simp_all add: sample_req_def)

lemma tbl_view_simps [simp]:
  "tbl_view encode valid [] = Map.empty"
  "tbl_view encode valid (obj # os) =
     (if valid (Status obj) \<and> encode (Status obj) = Status obj
      then (tbl_view encode valid os)(key_of obj \<mapsto> obj) else tbl_view encode valid os)"
  by (simp_all add: tbl_view_def)

end
