(* ===== verification/Sha256.thy ===== *)
theory Sha256
  imports Prelude
begin

text \<open>
  The part of the Go standard library the PipelineConfig controller uses to identify a content:
  \<open>sha256.Sum256\<close> (FIPS 180-4 on 32-bit words) and \<open>fmt.Sprintf("%x", sum)\<close>, lower-case
  hexadecimal. The digest always has 32 bytes and its text 64 characters, so a reconciled
  configuration never carries the empty hash that marks an unreconciled one.
\<close>

unbundle bit_operations_syntax

type_synonym u32 = "32 word"
type_synonym byte = "8 word"

section \<open>Compression\<close>

definition rotr :: "nat \<Rightarrow> u32 \<Rightarrow> u32" where
  "rotr n x = drop_bit n x OR push_bit (32 - n) x"

definition Ch :: "u32 \<Rightarrow> u32 \<Rightarrow> u32 \<Rightarrow> u32" where
  "Ch x y z = (x AND y) XOR (NOT x AND z)"

definition Maj :: "u32 \<Rightarrow> u32 \<Rightarrow> u32 \<Rightarrow> u32" where
  "Maj x y z = (x AND y) XOR (x AND z) XOR (y AND z)"

definition big_sigma0 :: "u32 \<Rightarrow> u32" where
  "big_sigma0 x = rotr 2 x XOR rotr 13 x XOR rotr 22 x"

definition big_sigma1 :: "u32 \<Rightarrow> u32" where
  "big_sigma1 x = rotr 6 x XOR rotr 11 x XOR rotr 25 x"

definition small_sigma0 :: "u32 \<Rightarrow> u32" where
  "small_sigma0 x = rotr 7 x XOR rotr 18 x XOR drop_bit 3 x"

definition small_sigma1 :: "u32 \<Rightarrow> u32" where
  "small_sigma1 x = rotr 17 x XOR rotr 19 x XOR drop_bit 10 x"

text \<open>The constants of the rounds, eight rounds to a row.\<close>

definition round_constants :: "u32 list" where
  "round_constants = concat [
      [0x428a2f98, 0x71374491, 0xb5c0fbcf, 0xe9b5dba5,
       0x3956c25b, 0x59f111f1, 0x923f82a4, 0xab1c5ed5],
      [0xd807aa98, 0x12835b01, 0x243185be, 0x550c7dc3,
       0x72be5d74, 0x80deb1fe, 0x9bdc06a7, 0xc19bf174],
      [0xe49b69c1, 0xefbe4786, 0x0fc19dc6, 0x240ca1cc,
       0x2de92c6f, 0x4a7484aa, 0x5cb0a9dc, 0x76f988da],
      [0x983e5152, 0xa831c66d, 0xb00327c8, 0xbf597fc7,
       0xc6e00bf3, 0xd5a79147, 0x06ca6351, 0x14292967],
      [0x27b70a85, 0x2e1b2138, 0x4d2c6dfc, 0x53380d13,
       0x650a7354, 0x766a0abb, 0x81c2c92e, 0x92722c85],
      [0xa2bfe8a1, 0xa81a664b, 0xc24b8b70, 0xc76c51a3,
       0xd192e819, 0xd6990624, 0xf40e3585, 0x106aa070],
      [0x19a4c116, 0x1e376c08, 0x2748774c, 0x34b0bcb5,
       0x391c0cb3, 0x4ed8aa4a, 0x5b9cca4f, 0x682e6ff3],
      [0x748f82ee, 0x78a5636f, 0x84c87814, 0x8cc70208,
       0x90befffa, 0xa4506ceb, 0xbef9a3f7, 0xc67178f2]]"

definition initial_hash :: "u32 list" where
  "initial_hash =
     [0x6a09e667, 0xbb67ae85, 0x3c6ef372, 0xa54ff53a,
      0x510e527f, 0x9b05688c, 0x1f83d9ab, 0x5be0cd19]"

text \<open>
  The message schedule, newest word first: each step appends
  \<open>s1(w[t-2]) + w[t-7] + s0(w[t-15]) + w[t-16]\<close>.
\<close>

fun extend_schedule :: "nat \<Rightarrow> u32 list \<Rightarrow> u32 list" where
  "extend_schedule 0 ws = ws"
| "extend_schedule (Suc n) ws =
     extend_schedule n
       ((small_sigma1 (ws ! 1) + ws ! 6 + small_sigma0 (ws ! 14) + ws ! 15) # ws)"

definition schedule :: "u32 list \<Rightarrow> u32 list" where
  "schedule block = rev (extend_schedule 48 (rev block))"

fun round_step :: "u32 list \<Rightarrow> u32 \<times> u32 \<Rightarrow> u32 list" where
  "round_step [a, b, c, d, e, f, g, h] (k, w) =
     (let t1 = h + big_sigma1 e + Ch e f g + k + w;
          t2 = big_sigma0 a + Maj a b c
      in [t1 + t2, a, b, c, d + t1, e, f, g])"
| "round_step hs _ = hs"

definition compress :: "u32 list \<Rightarrow> u32 list \<Rightarrow> u32 list" where
  "compress hs block =
     map2 (+) hs (fold (\<lambda>kw st. round_step st kw) (zip round_constants (schedule block)) hs)"

section \<open>Padding and digest\<close>

fun be_bytes :: "nat \<Rightarrow> int \<Rightarrow> byte list" where
  "be_bytes 0 n = []"
| "be_bytes (Suc k) n = word_of_int (n div 256 ^ k) # be_bytes k n"

definition pad :: "byte list \<Rightarrow> byte list" where
  "pad m = m @ [0x80] @ replicate ((119 - length m mod 64) mod 64) 0 @ be_bytes 8 (8 * int (length m))"

fun be_words :: "byte list \<Rightarrow> u32 list" where
  "be_words (a # b # c # d # bs) =
     word_of_int (((uint a * 256 + uint b) * 256 + uint c) * 256 + uint d) # be_words bs"
| "be_words _ = []"

function digest_blocks :: "u32 list \<Rightarrow> u32 list \<Rightarrow> u32 list" where
  "digest_blocks hs ws =
     (if ws = [] then hs else digest_blocks (compress hs (take 16 ws)) (drop 16 ws))"
  by pat_completeness auto
termination
  by (relation "measure (\<lambda>(_, ws). length ws)") auto

declare digest_blocks.simps [simp del]

definition Sum256 :: "byte list \<Rightarrow> byte list" where
  "Sum256 m =
     concat (map (\<lambda>w. be_bytes 4 (uint w)) (digest_blocks initial_hash (be_words (pad m))))"

text \<open>\<open>[]byte(s)\<close> and \<open>%x\<close>.\<close>

definition bytes_of_string :: "string \<Rightarrow> byte list" where
  "bytes_of_string s = map of_char s"

definition hex_digit :: "nat \<Rightarrow> char" where
  "hex_digit n = ''0123456789abcdef'' ! (n mod 16)"

definition hex_string :: "byte list \<Rightarrow> string" where
  "hex_string bs = concat (map (\<lambda>b. [hex_digit (unat b div 16), hex_digit (unat b)]) bs)"

definition content_digest :: "string \<Rightarrow> string" where
  "content_digest s = hex_string (Sum256 (bytes_of_string s))"

section \<open>Shape of a digest\<close>

lemma length_be_bytes [simp]: "length (be_bytes k n) = k"
  by (induction k) simp_all

lemma length_round_step [simp]: "length (round_step hs kw) = length hs"
  by (induction hs kw rule: round_step.induct) (simp_all add: Let_def)

lemma length_fold_round_step [simp]:
  "length (fold (\<lambda>kw st. round_step st kw) kws hs) = length hs"
  by (induction kws arbitrary: hs) simp_all

lemma length_compress [simp]: "length (compress hs block) = length hs"
  by (simp add: compress_def)

lemma length_digest_blocks [simp]: "length (digest_blocks hs ws) = length hs"
  by (induction hs ws rule: digest_blocks.induct) (subst digest_blocks.simps, simp)

lemma length_initial_hash [simp]: "length initial_hash = 8"
  by (simp add: initial_hash_def)

lemma length_concat_const:
  "(\<And>x. length (f x) = k) \<Longrightarrow> length (concat (map f xs)) = k * length xs"
  by (induction xs) (simp_all add: algebra_simps)

lemma length_Sum256 [simp]: "length (Sum256 m) = 32"
  by (simp add: Sum256_def length_concat_const [where k = 4])

lemma length_hex_string [simp]: "length (hex_string bs) = 2 * length bs"
  by (simp add: hex_string_def length_concat_const [where k = 2])

lemma length_content_digest [simp]: "length (content_digest s) = 64"
  by (simp add: content_digest_def)

lemma content_digest_nonempty [simp]: "content_digest s \<noteq> []" "[] \<noteq> content_digest s"
  using length_content_digest [of s] by (metis list.size(3) zero_neq_numeral)+

lemma hex_digit_in_alphabet: "hex_digit n \<in> set ''0123456789abcdef''"
  unfolding hex_digit_def by (rule nth_mem) simp

lemma set_hex_string: "set (hex_string bs) \<subseteq> set ''0123456789abcdef''"
proof
  fix c
  assume "c \<in> set (hex_string bs)"
  then obtain n where "c = hex_digit n"
    by (auto simp: hex_string_def)
  then show "c \<in> set ''0123456789abcdef''"
    by (simp only: hex_digit_in_alphabet)
qed

text \<open>
  The padded message is a whole number of 64-byte blocks, for every length: no byte of the content
  is lost in the split into blocks.
\<close>

lemma pad_block_aligned: "length (pad m) mod 64 = 0"
proof -
  define r where "r = length m mod 64"
  have "r < 64" by (simp add: r_def)
  then have fill: "r + (119 - r) mod 64 + 9 = (if r < 56 then 64 else 128)"
    by (cases "r < 56") (auto simp: le_mod_geq)
  have "(length m + ((119 - r) mod 64 + 9)) mod 64 = (r + ((119 - r) mod 64 + 9)) mod 64"
    by (simp only: r_def mod_add_left_eq)
  also have "\<dots> = 0"
    using fill by (simp add: add.assoc [symmetric] split: if_splits)
  finally show ?thesis
    by (simp add: pad_def r_def add.commute add.left_commute)
qed

end
