(* ===== verification/Resource_Controllers.thy ===== *)
theory Resource_Controllers
  imports Sample_Cluster Sha256
begin

text \<open>
  The controllers of the two referenced resources: \<open>PipelineConfigReconciler\<close> (finalizer, content
  hash, ContentValid condition, deletion guard) and \<open>CollectorGroupReconciler\<close> (finalizer, observed
  generation, deletion guard).
\<close>

section \<open>CollectorGroup\<close>

definition CollectorGroupFinalizer :: string where
  "CollectorGroupFinalizer = ''fleet.pkarakal.com/collectorgroup-protection''"

definition thirty_seconds :: Duration where
  "thirty_seconds = 30000000000"

definition CollectorGroup_Reconcile ::
  "('s, 'e) world \<Rightarrow> Request \<Rightarrow> ('s, Result \<times> 'e option) state" where
  "CollectorGroup_Reconcile w req =
     do { r \<leftarrow> client_Get (CollectorGroups w) (req_Namespace req) (req_Name req);
          case r of
            Inl err \<Rightarrow>
              State_Monad.return (empty_Result, if IsNotFound w err then None else Some err)
          | Inr cg \<Rightarrow>
              if \<not> IsZero (DeletionTimestamp (Meta cg)) then
                (if 0 < sint (cg_ActiveBindings (Status cg))
                 then State_Monad.return (\<lparr>RequeueAfter = thirty_seconds\<rparr>, None)
                 else do { r \<leftarrow> client_Update (CollectorGroups w)
                             (cg\<lparr>Meta := (Meta cg)\<lparr>Finalizers :=
                                RemoveFinalizer w (Finalizers (Meta cg)) CollectorGroupFinalizer\<rparr>\<rparr>);
                           State_Monad.return (empty_Result, err_of r) })
              else if \<not> ContainsFinalizer w (Finalizers (Meta cg)) CollectorGroupFinalizer then
                do { r \<leftarrow> client_Update (CollectorGroups w)
                       (cg\<lparr>Meta := (Meta cg)\<lparr>Finalizers :=
                          AddFinalizer w (Finalizers (Meta cg)) CollectorGroupFinalizer\<rparr>\<rparr>);
                     State_Monad.return (empty_Result, err_of r) }
              else
                do { r \<leftarrow> client_StatusUpdate (CollectorGroups w)
                       (cg\<lparr>Status := (Status cg)\<lparr>cg_ObservedGeneration := Generation (Meta cg)\<rparr>\<rparr>);
                     State_Monad.return (empty_Result, err_of r) } }"

section \<open>PipelineConfig\<close>

definition PipelineConfigFinalizer :: string where
  "PipelineConfigFinalizer = ''fleet.pkarakal.com/pipelineconfig-protection''"

definition typeContentValidPipelineConfig :: string where
  "typeContentValidPipelineConfig = ''ContentValid''"

definition empty_content_condition :: "PipelineConfig \<Rightarrow> Condition" where
  "empty_content_condition pc =
     \<lparr>cond_Type = typeContentValidPipelineConfig, cond_Status = ConditionFalse,
      cond_Reason = ''EmptyContent'', cond_Message = ''spec.content must not be empty'',
      cond_ObservedGeneration = Generation (Meta pc), cond_LastTransitionTime = zero_time\<rparr>"

definition content_valid_condition :: "PipelineConfig \<Rightarrow> Condition" where
  "content_valid_condition pc =
     \<lparr>cond_Type = typeContentValidPipelineConfig, cond_Status = ConditionTrue,
      cond_Reason = ''ContentValid'', cond_Message = ''PipelineConfig content is valid and indexed'',
      cond_ObservedGeneration = Generation (Meta pc), cond_LastTransitionTime = zero_time\<rparr>"

definition PipelineConfig_Reconcile ::
  "('s, 'e) world \<Rightarrow> Request \<Rightarrow> ('s, Result \<times> 'e option) state" where
  "PipelineConfig_Reconcile w req =
     do { r \<leftarrow> client_Get (PipelineConfigs w) (req_Namespace req) (req_Name req);
          case r of
            Inl err \<Rightarrow>
              State_Monad.return (empty_Result, if IsNotFound w err then None else Some err)
          | Inr pc \<Rightarrow>
              if \<not> IsZero (DeletionTimestamp (Meta pc)) then
                (if 0 < sint (pc_ActiveBindings (Status pc))
                 then State_Monad.return (\<lparr>RequeueAfter = thirty_seconds\<rparr>, None)
                 else do { r \<leftarrow> client_Update (PipelineConfigs w)
                             (pc\<lparr>Meta := (Meta pc)\<lparr>Finalizers :=
                                RemoveFinalizer w (Finalizers (Meta pc)) PipelineConfigFinalizer\<rparr>\<rparr>);
                           State_Monad.return (empty_Result, err_of r) })
              else if \<not> ContainsFinalizer w (Finalizers (Meta pc)) PipelineConfigFinalizer then
                do { r \<leftarrow> client_Update (PipelineConfigs w)
                       (pc\<lparr>Meta := (Meta pc)\<lparr>Finalizers :=
                          AddFinalizer w (Finalizers (Meta pc)) PipelineConfigFinalizer\<rparr>\<rparr>);
                     State_Monad.return (empty_Result, err_of r) }
              else if Content (Spec pc) = '''' then
                do { cs \<leftarrow> SetStatusCondition w (pc_Conditions (Status pc)) (empty_content_condition pc);
                     r \<leftarrow> client_StatusUpdate (PipelineConfigs w)
                       (pc\<lparr>Status := (Status pc)\<lparr>pc_Conditions := cs,
                                                pc_ObservedGeneration := Generation (Meta pc)\<rparr>\<rparr>);
                     State_Monad.return (empty_Result, err_of r) }
              else
                do { let contentDigest = content_digest (Content (Spec pc));
                     let pc = (if ContentHash (Status pc) \<noteq> contentDigest
                               then pc\<lparr>Status := (Status pc)\<lparr>ContentHash := contentDigest\<rparr>\<rparr> else pc);
                     cs \<leftarrow> SetStatusCondition w (pc_Conditions (Status pc)) (content_valid_condition pc);
                     r \<leftarrow> client_StatusUpdate (PipelineConfigs w)
                       (pc\<lparr>Status := (Status pc)\<lparr>pc_Conditions := cs,
                                                pc_ObservedGeneration := Generation (Meta pc)\<rparr>\<rparr>);
                     State_Monad.return (empty_Result, err_of r) } }"

section \<open>Lemmas\<close>

text \<open>A resource is ready to be served when its hash is the digest of its content.\<close>

definition pc_ready :: "PipelineConfig \<Rightarrow> bool" where
  "pc_ready pc \<longleftrightarrow> ContentHash (Status pc) = content_digest (Content (Spec pc))"

lemma find_map_encode:
  "find (\<lambda>c. cond_Type c = t) (map (encode_condition wire) cs) =
     map_option (encode_condition wire) (find (\<lambda>c. cond_Type c = t) cs)"
  by (induction cs) auto

lemma find_condition_True:
  "find (\<lambda>c. cond_Type c = t) cs = Some c \<Longrightarrow> c \<in> set cs \<and> cond_Type c = t"
  by (auto simp: find_Some_iff)

definition has_condition :: "Condition list \<Rightarrow> string \<Rightarrow> ConditionStatus \<Rightarrow> string \<Rightarrow> bool" where
  "has_condition cs t st reason =
     (case find (\<lambda>c. cond_Type c = t) cs of
        None \<Rightarrow> False | Some c \<Rightarrow> cond_Status c = st \<and> cond_Reason c = reason)"

lemma has_condition_encode [simp]:
  "has_condition (map (encode_condition wire) cs) t st reason = has_condition cs t st reason"
  by (simp add: has_condition_def find_map_encode split: option.split)

context kube_world
begin

lemma set_condition_has:
  "has_condition (result_of (SetStatusCondition w cs new) s) (cond_Type new) (cond_Status new)
     (cond_Reason new)"
  using set_condition_find [of new cs s] by (auto simp: has_condition_def)

lemma PipelineConfig_hashed:
  assumes stored: "cl_pcs (abs s) (req_Namespace req, req_Name req) = Some pc"
    and live: "IsZero (DeletionTimestamp (Meta pc))"
    and finalizer: "PipelineConfigFinalizer \<in> set (Finalizers (Meta pc))"
    and content: "Content (Spec pc) \<noteq> ''''"
  shows "\<exists>pc'. result_of (PipelineConfig_Reconcile w req) s = (empty_Result, None) \<and>
    abs (state_after (PipelineConfig_Reconcile w req) s) =
      with_pc (req_Namespace req, req_Name req) pc' (abs s) \<and>
    same_object pc' pc \<and> ContentHash (Status pc') = content_digest (Content (Spec pc)) \<and>
    pc_ActiveBindings (Status pc') = pc_ActiveBindings (Status pc) \<and>
    pc_ObservedGeneration (Status pc') = Generation (Meta pc) \<and>
    has_condition (pc_Conditions (Status pc')) typeContentValidPipelineConfig ConditionTrue
      ''ContentValid''"
proof -
  note key = pc.stored_key [OF stored]
  let ?new = "content_valid_condition pc"
  have cond: "content_valid_condition (pc\<lparr>Status := st\<rparr>) = ?new" for st
    by (simp add: content_valid_condition_def)
  have hash: "(if ContentHash (Status pc) \<noteq> h then pc\<lparr>Status := (Status pc)\<lparr>ContentHash := h\<rparr>\<rparr> else pc)
      = pc\<lparr>Status := (Status pc)\<lparr>ContentHash := h\<rparr>\<rparr>" for h
    by simp
  have valid: "distinct (map cond_Type (result_of (SetStatusCondition w (pc_Conditions (Status pc)) ?new) t))"
    for t
    using pc.stored_valid [OF stored] set_condition_distinct by (simp add: valid_pc_status_def)
  have has: "has_condition (result_of (SetStatusCondition w cs ?new) t)
      typeContentValidPipelineConfig ConditionTrue ''ContentValid''" for cs t
    using set_condition_has [of cs ?new t] by (simp add: content_valid_condition_def)
  show ?thesis
    using assms key
    by (simp add: PipelineConfig_Reconcile_def all_laws hash cond valid has valid_pc_status_def
      Let_def)
qed

lemma PipelineConfig_empty_content:
  assumes stored: "cl_pcs (abs s) (req_Namespace req, req_Name req) = Some pc"
    and live: "IsZero (DeletionTimestamp (Meta pc))"
    and finalizer: "PipelineConfigFinalizer \<in> set (Finalizers (Meta pc))"
    and content: "Content (Spec pc) = ''''"
  shows "\<exists>pc'. result_of (PipelineConfig_Reconcile w req) s = (empty_Result, None) \<and>
    abs (state_after (PipelineConfig_Reconcile w req) s) =
      with_pc (req_Namespace req, req_Name req) pc' (abs s) \<and>
    same_object pc' pc \<and> ContentHash (Status pc') = ContentHash (Status pc) \<and>
    pc_ActiveBindings (Status pc') = pc_ActiveBindings (Status pc) \<and>
    pc_ObservedGeneration (Status pc') = Generation (Meta pc) \<and>
    has_condition (pc_Conditions (Status pc')) typeContentValidPipelineConfig ConditionFalse
      ''EmptyContent''"
proof -
  let ?new = "empty_content_condition pc"
  have valid: "distinct (map cond_Type (result_of (SetStatusCondition w (pc_Conditions (Status pc)) ?new) t))"
    for t
    using pc.stored_valid [OF stored] set_condition_distinct by (simp add: valid_pc_status_def)
  have has: "has_condition (result_of (SetStatusCondition w cs ?new) t)
      typeContentValidPipelineConfig ConditionFalse ''EmptyContent''" for cs t
    using set_condition_has [of cs ?new t] by (simp add: empty_content_condition_def)
  show ?thesis
    using assms pc.stored_key [OF stored]
    by (simp add: PipelineConfig_Reconcile_def all_laws valid has valid_pc_status_def)
qed

lemma PipelineConfig_first_reconcile:
  assumes stored: "cl_pcs (abs s) (req_Namespace req, req_Name req) = Some pc"
    and live: "DeletionTimestamp (Meta pc) = None"
    and no_finalizer: "PipelineConfigFinalizer \<notin> set (Finalizers (Meta pc))"
  shows "\<exists>pc'. result_of (PipelineConfig_Reconcile w req) s = (empty_Result, None) \<and>
    abs (state_after (PipelineConfig_Reconcile w req) s) =
      with_pc (req_Namespace req, req_Name req) pc' (abs s) \<and>
    Spec pc' = Spec pc \<and> Status pc' = Status pc \<and>
    DeletionTimestamp (Meta pc') = None \<and> Generation (Meta pc') = Generation (Meta pc) \<and>
    set (Finalizers (Meta pc')) = insert PipelineConfigFinalizer (set (Finalizers (Meta pc)))"
  using assms pc.stored_key [OF stored]
  by (simp add: PipelineConfig_Reconcile_def all_laws add_finalizer)

lemma PipelineConfig_deletion:
  assumes stored: "cl_pcs (abs s) (req_Namespace req, req_Name req) = Some pc"
    and deleted: "\<not> IsZero (DeletionTimestamp (Meta pc))"
    and finalizer: "set (Finalizers (Meta pc)) \<subseteq> {PipelineConfigFinalizer}"
  shows "if 0 < sint (pc_ActiveBindings (Status pc))
    then result_of (PipelineConfig_Reconcile w req) s = (\<lparr>RequeueAfter = thirty_seconds\<rparr>, None) \<and>
         abs (state_after (PipelineConfig_Reconcile w req) s) = abs s
    else result_of (PipelineConfig_Reconcile w req) s = (empty_Result, None) \<and>
         abs (state_after (PipelineConfig_Reconcile w req) s) =
           (abs s)\<lparr>cl_pcs := (cl_pcs (abs s))((req_Namespace req, req_Name req) := None)\<rparr>"
proof -
  have "set (RemoveFinalizer w (Finalizers (Meta pc)) PipelineConfigFinalizer) = {}"
    using finalizer by (auto simp: remove_finalizer)
  moreover have "DeletionTimestamp (Meta pc) \<noteq> None"
    using deleted by (auto simp: IsZero_def split: option.splits)
  ultimately show ?thesis
    using stored deleted pc.stored_key [OF stored] pc.removal [of s pc]
    by (simp add: PipelineConfig_Reconcile_def all_laws pc.removal del: err_of_None_iff)
qed

lemma CollectorGroup_deletion:
  assumes stored: "cl_cgs (abs s) (req_Namespace req, req_Name req) = Some cg"
    and deleted: "\<not> IsZero (DeletionTimestamp (Meta cg))"
    and finalizer: "set (Finalizers (Meta cg)) \<subseteq> {CollectorGroupFinalizer}"
  shows "if 0 < sint (cg_ActiveBindings (Status cg))
    then result_of (CollectorGroup_Reconcile w req) s = (\<lparr>RequeueAfter = thirty_seconds\<rparr>, None) \<and>
         abs (state_after (CollectorGroup_Reconcile w req) s) = abs s
    else result_of (CollectorGroup_Reconcile w req) s = (empty_Result, None) \<and>
         abs (state_after (CollectorGroup_Reconcile w req) s) =
           (abs s)\<lparr>cl_cgs := (cl_cgs (abs s))((req_Namespace req, req_Name req) := None)\<rparr>"
proof -
  have "set (RemoveFinalizer w (Finalizers (Meta cg)) CollectorGroupFinalizer) = {}"
    using finalizer by (auto simp: remove_finalizer)
  moreover have "DeletionTimestamp (Meta cg) \<noteq> None"
    using deleted by (auto simp: IsZero_def split: option.splits)
  ultimately show ?thesis
    using stored deleted cg.stored_key [OF stored]
    by (simp add: CollectorGroup_Reconcile_def all_laws del: err_of_None_iff)
qed

lemma CollectorGroup_observed:
  assumes stored: "cl_cgs (abs s) (req_Namespace req, req_Name req) = Some cg"
    and live: "IsZero (DeletionTimestamp (Meta cg))"
    and finalizer: "CollectorGroupFinalizer \<in> set (Finalizers (Meta cg))"
  shows "\<exists>cg'. result_of (CollectorGroup_Reconcile w req) s = (empty_Result, None) \<and>
    abs (state_after (CollectorGroup_Reconcile w req) s) =
      with_cg (req_Namespace req, req_Name req) cg' (abs s) \<and>
    same_object cg' cg \<and>
    Status cg' = (Status cg)\<lparr>cg_ObservedGeneration := Generation (Meta cg)\<rparr>"
  using assms cg.stored_key [OF stored]
  by (simp add: CollectorGroup_Reconcile_def all_laws)

text \<open>
  From any stored state a live configuration with content is served-ready after two reconciles: the
  first may only add the finalizer.
\<close>

lemma PipelineConfig_two_reconciles:
  assumes stored: "cl_pcs (abs s) (req_Namespace req, req_Name req) = Some pc"
    and live: "DeletionTimestamp (Meta pc) = None"
    and content: "Content (Spec pc) \<noteq> ''''"
  shows "\<exists>pc'. result_of (PipelineConfig_Reconcile w req \<bind> (\<lambda>_. PipelineConfig_Reconcile w req)) s
      = (empty_Result, None) \<and>
    abs (state_after (PipelineConfig_Reconcile w req \<bind> (\<lambda>_. PipelineConfig_Reconcile w req)) s) =
      with_pc (req_Namespace req, req_Name req) pc' (abs s) \<and>
    Spec pc' = Spec pc \<and> pc_ready pc' \<and>
    pc_ActiveBindings (Status pc') = pc_ActiveBindings (Status pc)"
proof -
  let ?k = "(req_Namespace req, req_Name req)"
  have "\<exists>pc1. abs (state_after (PipelineConfig_Reconcile w req) s) = with_pc ?k pc1 (abs s) \<and>
    Spec pc1 = Spec pc \<and> DeletionTimestamp (Meta pc1) = None \<and>
    PipelineConfigFinalizer \<in> set (Finalizers (Meta pc1)) \<and>
    pc_ActiveBindings (Status pc1) = pc_ActiveBindings (Status pc)"
  proof (cases "PipelineConfigFinalizer \<in> set (Finalizers (Meta pc))")
    case True
    with PipelineConfig_hashed [OF stored _ True content] live show ?thesis
      by (auto dest!: same_objectD)
  next
    case False
    from PipelineConfig_first_reconcile [OF stored live False] show ?thesis by auto
  qed
  then obtain pc1 where first: "abs (state_after (PipelineConfig_Reconcile w req) s) = with_pc ?k pc1 (abs s)"
    "Spec pc1 = Spec pc" "DeletionTimestamp (Meta pc1) = None"
    "PipelineConfigFinalizer \<in> set (Finalizers (Meta pc1))"
    "pc_ActiveBindings (Status pc1) = pc_ActiveBindings (Status pc)"
    by blast
  from PipelineConfig_hashed [of "state_after (PipelineConfig_Reconcile w req) s" req pc1] first content
  show ?thesis by (auto simp: pc_ready_def dest!: same_objectD)
qed

end

section \<open>Properties\<close>

text \<open>
  C13: From any stored state, two reconciles of a live PipelineConfig with content publish the SHA-256
  digest of that content as its hash; they change neither the spec nor the binding counter.
\<close>

theorem pipeline_config_becomes_ready:
  assumes "kube_world w view wire version"
    and "cl_pcs (view s) (req_Namespace req, req_Name req) = Some pc"
    and "DeletionTimestamp (Meta pc) = None"
    and "Content (Spec pc) \<noteq> ''''"
  shows "\<exists>pc'. result_of (PipelineConfig_Reconcile w req \<bind> (\<lambda>_. PipelineConfig_Reconcile w req)) s
      = (empty_Result, None) \<and>
    view (state_after (PipelineConfig_Reconcile w req \<bind> (\<lambda>_. PipelineConfig_Reconcile w req)) s) =
      with_pc (req_Namespace req, req_Name req) pc' (view s) \<and>
    Spec pc' = Spec pc \<and> ContentHash (Status pc') = content_digest (Content (Spec pc)) \<and>
    pc_ActiveBindings (Status pc') = pc_ActiveBindings (Status pc)"
  using kube_world.PipelineConfig_two_reconciles [OF assms] by (auto simp: pc_ready_def)

theorem pipeline_config_becomes_ready_witness:
  "\<exists>pc'. cl_pcs (mem_abs (state_after (PipelineConfig_Reconcile mem_world (sample_req ''base'') \<bind>
      (\<lambda>_. PipelineConfig_Reconcile mem_world (sample_req ''base'')))
      (sample [sample_pc ''base'' ''logging'' '''' 3 [] None] [] []))) (''ns'', ''base'') = Some pc' \<and>
    ContentHash (Status pc') = content_digest ''logging'' \<and> pc_ActiveBindings (Status pc') = 3"
proof -
  from pipeline_config_becomes_ready [of mem_world mem_abs mem_wire mem_version
      "sample [sample_pc ''base'' ''logging'' '''' 3 [] None] [] []" "sample_req ''base''"
      "sample_pc ''base'' ''logging'' '''' 3 [] None"]
  obtain pc' where "mem_abs (state_after (PipelineConfig_Reconcile mem_world (sample_req ''base'') \<bind>
      (\<lambda>_. PipelineConfig_Reconcile mem_world (sample_req ''base'')))
      (sample [sample_pc ''base'' ''logging'' '''' 3 [] None] [] [])) =
        with_pc (''ns'', ''base'') pc' (mem_abs (sample [sample_pc ''base'' ''logging'' '''' 3 [] None] [] []))"
    "ContentHash (Status pc') = content_digest ''logging''" "pc_ActiveBindings (Status pc') = 3"
    by (auto simp del: run_bind)
  then show ?thesis by (simp del: run_bind)
qed

text \<open>
  A reconcile of a PipelineConfig whose content is empty reports it through the ContentValid
  condition but leaves the content hash as it was: a configuration that was emptied after it had
  been hashed keeps the hash of its old content.
\<close>

theorem pipeline_config_empty_keeps_hash:
  assumes "kube_world w view wire version"
    and "cl_pcs (view s) (req_Namespace req, req_Name req) = Some pc"
    and "IsZero (DeletionTimestamp (Meta pc))"
    and "PipelineConfigFinalizer \<in> set (Finalizers (Meta pc))"
    and "Content (Spec pc) = ''''"
  shows "\<exists>pc'. result_of (PipelineConfig_Reconcile w req) s = (empty_Result, None) \<and>
    view (state_after (PipelineConfig_Reconcile w req) s) =
      with_pc (req_Namespace req, req_Name req) pc' (view s) \<and>
    same_object pc' pc \<and> ContentHash (Status pc') = ContentHash (Status pc) \<and>
    pc_ActiveBindings (Status pc') = pc_ActiveBindings (Status pc) \<and>
    has_condition (pc_Conditions (Status pc')) typeContentValidPipelineConfig ConditionFalse
      ''EmptyContent''"
  using kube_world.PipelineConfig_empty_content [OF assms] by blast

theorem pipeline_config_empty_keeps_hash_witness:
  "\<exists>pc'. mem_abs (state_after (PipelineConfig_Reconcile mem_world (sample_req ''base''))
      (sample [sample_pc ''base'' '''' ''h1'' 3 [PipelineConfigFinalizer] None] [] [])) =
      with_pc (''ns'', ''base'') pc'
        (mem_abs (sample [sample_pc ''base'' '''' ''h1'' 3 [PipelineConfigFinalizer] None] [] [])) \<and>
    ContentHash (Status pc') = ''h1'' \<and>
    has_condition (pc_Conditions (Status pc')) typeContentValidPipelineConfig ConditionFalse
      ''EmptyContent''"
  using pipeline_config_empty_keeps_hash [of mem_world mem_abs mem_wire mem_version
      "sample [sample_pc ''base'' '''' ''h1'' 3 [PipelineConfigFinalizer] None] [] []" "sample_req ''base''"
      "sample_pc ''base'' '''' ''h1'' 3 [PipelineConfigFinalizer] None"]
  by auto

text \<open>
  C20: A PipelineConfig under deletion that carries no finalizer but the controller's own is held, with a requeue after thirty seconds and no write, as
  long as its counter is positive, and is removed from the cluster by the reconcile that finds the
  counter at or below zero.
\<close>

theorem pipeline_config_deletion_guard:
  assumes "kube_world w view wire version"
    and "cl_pcs (view s) (req_Namespace req, req_Name req) = Some pc"
    and "\<not> IsZero (DeletionTimestamp (Meta pc))"
    and "set (Finalizers (Meta pc)) \<subseteq> {PipelineConfigFinalizer}"
  shows "if 0 < sint (pc_ActiveBindings (Status pc))
    then result_of (PipelineConfig_Reconcile w req) s = (\<lparr>RequeueAfter = thirty_seconds\<rparr>, None) \<and>
         view (state_after (PipelineConfig_Reconcile w req) s) = view s
    else result_of (PipelineConfig_Reconcile w req) s = (empty_Result, None) \<and>
         view (state_after (PipelineConfig_Reconcile w req) s) =
           (view s)\<lparr>cl_pcs := (cl_pcs (view s))((req_Namespace req, req_Name req) := None)\<rparr>"
  by (rule kube_world.PipelineConfig_deletion [OF assms])

theorem pipeline_config_deletion_guard_witness:
  "result_of (PipelineConfig_Reconcile mem_world (sample_req ''base''))
     (sample [sample_pc ''base'' ''logging'' ''h1'' 1 [PipelineConfigFinalizer] (Some 5)] [] []) =
     (\<lparr>RequeueAfter = thirty_seconds\<rparr>, None) \<and>
   cl_pcs (mem_abs (state_after (PipelineConfig_Reconcile mem_world (sample_req ''base''))
     (sample [sample_pc ''base'' ''logging'' ''h1'' 0 [PipelineConfigFinalizer] (Some 5)] [] []))) (''ns'', ''base'') = None"
  using pipeline_config_deletion_guard [of mem_world mem_abs mem_wire mem_version
      "sample [sample_pc ''base'' ''logging'' ''h1'' 1 [PipelineConfigFinalizer] (Some 5)] [] []"
      "sample_req ''base''" "sample_pc ''base'' ''logging'' ''h1'' 1 [PipelineConfigFinalizer] (Some 5)"]
    pipeline_config_deletion_guard [of mem_world mem_abs mem_wire mem_version
      "sample [sample_pc ''base'' ''logging'' ''h1'' 0 [PipelineConfigFinalizer] (Some 5)] [] []"
      "sample_req ''base''" "sample_pc ''base'' ''logging'' ''h1'' 0 [PipelineConfigFinalizer] (Some 5)"]
  by (simp add: zero_time_def)

text \<open>
  C21: The same guard protects a CollectorGroup, and a live CollectorGroup that carries the finalizer
  gets nothing but its observed generation updated.
\<close>

theorem collector_group_reconcile:
  assumes "kube_world w view wire version"
    and "cl_cgs (view s) (req_Namespace req, req_Name req) = Some cg"
    and "set (Finalizers (Meta cg)) = {CollectorGroupFinalizer}"
  shows "if IsZero (DeletionTimestamp (Meta cg))
    then \<exists>cg'. result_of (CollectorGroup_Reconcile w req) s = (empty_Result, None) \<and>
           view (state_after (CollectorGroup_Reconcile w req) s) =
             with_cg (req_Namespace req, req_Name req) cg' (view s) \<and>
           same_object cg' cg \<and>
           Status cg' = (Status cg)\<lparr>cg_ObservedGeneration := Generation (Meta cg)\<rparr>
    else if 0 < sint (cg_ActiveBindings (Status cg))
    then result_of (CollectorGroup_Reconcile w req) s = (\<lparr>RequeueAfter = thirty_seconds\<rparr>, None) \<and>
         view (state_after (CollectorGroup_Reconcile w req) s) = view s
    else result_of (CollectorGroup_Reconcile w req) s = (empty_Result, None) \<and>
         view (state_after (CollectorGroup_Reconcile w req) s) =
           (view s)\<lparr>cl_cgs := (cl_cgs (view s))((req_Namespace req, req_Name req) := None)\<rparr>"
  using kube_world.CollectorGroup_deletion [OF assms(1,2)] kube_world.CollectorGroup_observed [OF assms(1,2)]
    assms(3) by simp

theorem collector_group_reconcile_witness:
  "cl_cgs (mem_abs (state_after (CollectorGroup_Reconcile mem_world (sample_req ''g1''))
     (sample [] [sample_cg ''g1'' 0 [CollectorGroupFinalizer] (Some 5)] []))) (''ns'', ''g1'') = None \<and>
   result_of (CollectorGroup_Reconcile mem_world (sample_req ''g1''))
     (sample [] [sample_cg ''g1'' 2 [CollectorGroupFinalizer] (Some 5)] []) =
     (\<lparr>RequeueAfter = thirty_seconds\<rparr>, None)"
  using collector_group_reconcile [of mem_world mem_abs mem_wire mem_version
      "sample [] [sample_cg ''g1'' 0 [CollectorGroupFinalizer] (Some 5)] []"
      "sample_req ''g1''" "sample_cg ''g1'' 0 [CollectorGroupFinalizer] (Some 5)"]
    collector_group_reconcile [of mem_world mem_abs mem_wire mem_version
      "sample [] [sample_cg ''g1'' 2 [CollectorGroupFinalizer] (Some 5)] []"
      "sample_req ''g1''" "sample_cg ''g1'' 2 [CollectorGroupFinalizer] (Some 5)"]
  by (simp add: zero_time_def)

end
