(* ===== verification/Binding_Controller.thy ===== *)
theory Binding_Controller
  imports Resource_Controllers
begin

text \<open>
  The \<open>CollectorGroupBindingReconciler\<close>: reference validation, the active-binding counters it keeps
  on the referenced resources, eviction of stale tenants, the status it publishes and the deletion
  path. A function that mutates the binding it is given returns the mutated binding.
\<close>

section \<open>Definitions\<close>

definition CollectorGroupBindingFinalizer :: string where
  "CollectorGroupBindingFinalizer = ''fleet.pkarakal.com/collectorgroupbinding-protection''"

text \<open>The reconciler's configuration; \<open>MetricsEnabled\<close> says that its metrics are not nil.\<close>

record BindingReconciler =
  CollectorTTL :: Duration
  MetricsEnabled :: bool

subsection \<open>Counters on the referenced resources\<close>

definition getPipelineConfig ::
  "('s, 'e) world \<Rightarrow> string \<Rightarrow> string \<Rightarrow> ('s, 'e + PipelineConfig) state" where
  "getPipelineConfig w ns n = client_Get (PipelineConfigs w) ns n"

definition getCollectorGroup ::
  "('s, 'e) world \<Rightarrow> string \<Rightarrow> string \<Rightarrow> ('s, 'e + CollectorGroup) state" where
  "getCollectorGroup w ns n = client_Get (CollectorGroups w) ns n"

definition decrementPipelineConfigActiveBindings ::
  "('s, 'e) world \<Rightarrow> string \<Rightarrow> string \<Rightarrow> ('s, 'e option) state" where
  "decrementPipelineConfigActiveBindings w ns n =
     do { r \<leftarrow> getPipelineConfig w ns n;
          case r of
            Inl err \<Rightarrow> State_Monad.return (Some err)
          | Inr pc \<Rightarrow>
              do { r \<leftarrow> client_StatusUpdate (PipelineConfigs w)
                     (pc\<lparr>Status := (Status pc)\<lparr>pc_ActiveBindings := pc_ActiveBindings (Status pc) - 1\<rparr>\<rparr>);
                   State_Monad.return (err_of r) } }"

definition incrementPipelineConfigActiveBindings ::
  "('s, 'e) world \<Rightarrow> string \<Rightarrow> string \<Rightarrow> ('s, 'e option) state" where
  "incrementPipelineConfigActiveBindings w ns n =
     do { r \<leftarrow> getPipelineConfig w ns n;
          case r of
            Inl err \<Rightarrow> State_Monad.return (Some err)
          | Inr pc \<Rightarrow>
              do { r \<leftarrow> client_StatusUpdate (PipelineConfigs w)
                     (pc\<lparr>Status := (Status pc)\<lparr>pc_ActiveBindings := pc_ActiveBindings (Status pc) + 1\<rparr>\<rparr>);
                   State_Monad.return (err_of r) } }"

definition decrementCollectorGroupActiveBindings ::
  "('s, 'e) world \<Rightarrow> string \<Rightarrow> string \<Rightarrow> ('s, 'e option) state" where
  "decrementCollectorGroupActiveBindings w ns n =
     do { r \<leftarrow> getCollectorGroup w ns n;
          case r of
            Inl err \<Rightarrow> State_Monad.return (Some err)
          | Inr cg \<Rightarrow>
              do { r \<leftarrow> client_StatusUpdate (CollectorGroups w)
                     (cg\<lparr>Status := (Status cg)\<lparr>cg_ActiveBindings := cg_ActiveBindings (Status cg) - 1\<rparr>\<rparr>);
                   State_Monad.return (err_of r) } }"

definition incrementCollectorGroupActiveBindings ::
  "('s, 'e) world \<Rightarrow> string \<Rightarrow> string \<Rightarrow> ('s, 'e option) state" where
  "incrementCollectorGroupActiveBindings w ns n =
     do { r \<leftarrow> getCollectorGroup w ns n;
          case r of
            Inl err \<Rightarrow> State_Monad.return (Some err)
          | Inr cg \<Rightarrow>
              do { r \<leftarrow> client_StatusUpdate (CollectorGroups w)
                     (cg\<lparr>Status := (Status cg)\<lparr>cg_ActiveBindings := cg_ActiveBindings (Status cg) + 1\<rparr>\<rparr>);
                   State_Monad.return (err_of r) } }"

text \<open>
  The counters follow a change of references: old references are released (a failure is only
  logged), new ones taken (a failure ends the reconcile).
\<close>

definition manageCounters ::
  "('s, 'e) world \<Rightarrow> CollectorGroupBinding \<Rightarrow> ('s, 'e option) state" where
  "manageCounters w b =
     do { let ns = Namespace (Meta b);
          let prevPC = BoundPipelineConfigRef (Status b);
          let newPC = PipelineConfigRef (Spec b);
          let prevCG = BoundCollectorGroupRef (Status b);
          let newCG = CollectorGroupRef (Spec b);
          _ \<leftarrow> (if prevPC \<noteq> '''' \<and> prevPC \<noteq> newPC
               then decrementPipelineConfigActiveBindings w ns prevPC
               else State_Monad.return None);
          _ \<leftarrow> (if prevCG \<noteq> '''' \<and> prevCG \<noteq> newCG
               then decrementCollectorGroupActiveBindings w ns prevCG
               else State_Monad.return None);
          err \<leftarrow> (if prevPC \<noteq> newPC
                 then incrementPipelineConfigActiveBindings w ns newPC
                 else State_Monad.return None);
          if err \<noteq> None then State_Monad.return err
          else if prevCG \<noteq> newCG \<and> newCG \<noteq> ''''
          then incrementCollectorGroupActiveBindings w ns newCG
          else State_Monad.return None }"

subsection \<open>Status\<close>

definition derivePhase :: "('s, 'e) world \<Rightarrow> Condition list \<Rightarrow> CollectorGroupBindingPhase" where
  "derivePhase w conditions =
     (case FindStatusCondition w conditions ConditionTypeRefsValid of
        None \<Rightarrow> BindingPhasePending
      | Some refsValid \<Rightarrow>
          if cond_Status refsValid = ConditionTrue then BindingPhaseActive else BindingPhaseDegraded)"

definition refs_condition ::
  "CollectorGroupBinding \<Rightarrow> ConditionStatus \<Rightarrow> string \<Rightarrow> string \<Rightarrow> Condition" where
  "refs_condition b st reason msg =
     \<lparr>cond_Type = ConditionTypeRefsValid, cond_Status = st, cond_Reason = reason,
      cond_Message = msg, cond_ObservedGeneration = Generation (Meta b),
      cond_LastTransitionTime = zero_time\<rparr>"

definition setRefsInvalid ::
  "('s, 'e) world \<Rightarrow> CollectorGroupBinding \<Rightarrow> string \<Rightarrow> string \<Rightarrow> ('s, CollectorGroupBinding) state" where
  "setRefsInvalid w b reason msg =
     do { cs \<leftarrow> SetStatusCondition w (Conditions (Status b)) (refs_condition b ConditionFalse reason msg);
          let b = b\<lparr>Status := (Status b)\<lparr>Conditions := cs, Phase := derivePhase w cs,
                                         ObservedGeneration := Generation (Meta b)\<rparr>\<rparr>;
          r \<leftarrow> client_StatusUpdate (CollectorGroupBindings w) b;
          State_Monad.return (case r of Inl _ \<Rightarrow> b | Inr b' \<Rightarrow> b') }"

definition validateRefs ::
  "('s, 'e) world \<Rightarrow> CollectorGroupBinding \<Rightarrow>
   ('s, CollectorGroupBinding \<times> ('e + PipelineConfig)) state" where
  "validateRefs w b =
     do { let ns = Namespace (Meta b);
          r \<leftarrow> getPipelineConfig w ns (PipelineConfigRef (Spec b));
          case r of
            Inl err \<Rightarrow>
              do { b \<leftarrow> setRefsInvalid w b
                     (if IsNotFound w err then ''PipelineConfigNotFound'' else ''PipelineConfigFetchError'')
                     (ErrorText w err);
                   State_Monad.return (b, Inl err) }
          | Inr pipelineConfig \<Rightarrow>
              do { r \<leftarrow> (if CollectorGroupRef (Spec b) \<noteq> ''''
                        then do { r \<leftarrow> getCollectorGroup w ns (CollectorGroupRef (Spec b));
                                  State_Monad.return (err_of r) }
                        else State_Monad.return None);
                   case r of
                     Some err \<Rightarrow>
                       do { b \<leftarrow> setRefsInvalid w b
                              (if IsNotFound w err then ''CollectorGroupNotFound''
                               else ''CollectorGroupFetchError'')
                              (ErrorText w err);
                            State_Monad.return (b, Inl err) }
                   | None \<Rightarrow>
                       do { cs \<leftarrow> SetStatusCondition w (Conditions (Status b))
                              (refs_condition b ConditionTrue ''RefsResolved''
                                 ''All referenced resources exist'');
                            State_Monad.return
                              (b\<lparr>Status := (Status b)\<lparr>Conditions := cs\<rparr>\<rparr>, Inr pipelineConfig) } } }"

subsection \<open>Eviction\<close>

text \<open>
  The eviction loop filters the slice in place: \<open>kept\<close> shares the backing array, so an element that
  is kept is written to position \<open>k\<close> of the array that is being read at position \<open>i\<close>.
\<close>

function evict_loop :: "('t \<Rightarrow> bool) \<Rightarrow> 't list \<Rightarrow> nat \<Rightarrow> nat \<Rightarrow> 't list \<times> nat" where
  "evict_loop keep arr i k =
     (if i < length arr
      then let t = arr ! i
           in if keep t then evict_loop keep (arr[k := t]) (Suc i) (Suc k)
              else evict_loop keep arr (Suc i) k
      else (arr, k))"
  by pat_completeness auto
termination
  by (relation "measure (\<lambda>(keep, arr, i, k). length arr - i)") auto

declare evict_loop.simps [simp del]

definition evictStaleTenants ::
  "('s, 'e) world \<Rightarrow> BindingReconciler \<Rightarrow> CollectorGroupBinding \<Rightarrow>
   ('s, CollectorGroupBinding \<times> int) state" where
  "evictStaleTenants w r b =
     (if CollectorTTL r = 0 then State_Monad.return (b, 0)
      else do { now \<leftarrow> Now w;
                let cutoff = Time_Add now (- CollectorTTL r);
                let before = length (RegisteredTenants (Status b));
                let (arr, k) = evict_loop (\<lambda>t. Time_After (LastSeenAt t) cutoff)
                                 (RegisteredTenants (Status b)) 0 0;
                let b = b\<lparr>Status := (Status b)\<lparr>RegisteredTenants := take k arr\<rparr>\<rparr>;
                State_Monad.return (b, int before - int (length (RegisteredTenants (Status b)))) })"

subsection \<open>Deletion\<close>

text \<open>The test \<open>err != nil && !apierrors.IsNotFound(err)\<close>.\<close>

definition not_ignorable :: "('s, 'e) world \<Rightarrow> 'e option \<Rightarrow> bool" where
  "not_ignorable w err = (case err of None \<Rightarrow> False | Some e \<Rightarrow> \<not> IsNotFound w e)"

definition handleDeletion ::
  "('s, 'e) world \<Rightarrow> CollectorGroupBinding \<Rightarrow> ('s, 'e option) state" where
  "handleDeletion w b =
     do { let ns = Namespace (Meta b);
          let prevPC = BoundPipelineConfigRef (Status b);
          err \<leftarrow> (if prevPC \<noteq> '''' then decrementPipelineConfigActiveBindings w ns prevPC
                 else State_Monad.return None);
          if not_ignorable w err then State_Monad.return err
          else do { let prevCG = BoundCollectorGroupRef (Status b);
                    err \<leftarrow> (if prevCG \<noteq> '''' then decrementCollectorGroupActiveBindings w ns prevCG
                           else State_Monad.return None);
                    if not_ignorable w err then State_Monad.return err
                    else do { r \<leftarrow> client_Update (CollectorGroupBindings w)
                                (b\<lparr>Meta := (Meta b)\<lparr>Finalizers :=
                                   RemoveFinalizer w (Finalizers (Meta b))
                                     CollectorGroupBindingFinalizer\<rparr>\<rparr>);
                              State_Monad.return (err_of r) } } }"

subsection \<open>Reconcile\<close>

definition countEvicted :: "('s, 'e) world \<Rightarrow> BindingReconciler \<Rightarrow> int \<Rightarrow> ('s, unit) state" where
  "countEvicted w r evicted =
     (if 0 < evicted \<and> MetricsEnabled r
      then Emit w (CounterAdd ''registered_tenants_evicted_total'' [] evicted)
      else State_Monad.return ())"

text \<open>Steps 4.5 and 5 of the reconcile: evict stale tenants, then publish the status.\<close>

definition evictAndPublish ::
  "('s, 'e) world \<Rightarrow> BindingReconciler \<Rightarrow> CollectorGroupBinding \<Rightarrow> PipelineConfig \<Rightarrow>
   ('s, Result \<times> 'e option) state" where
  "evictAndPublish w r b pipelineConfig =
     do { (b, evicted) \<leftarrow> evictStaleTenants w r b;
          _ \<leftarrow> countEvicted w r evicted;
          now \<leftarrow> Now w;
          let b = b\<lparr>Status := (Status b)\<lparr>
              BoundPipelineConfigRef := PipelineConfigRef (Spec b),
              BoundCollectorGroupRef := CollectorGroupRef (Spec b),
              ConfigHash := ContentHash (Status pipelineConfig),
              LastSyncedAt := now,
              Phase := derivePhase w (Conditions (Status b)),
              ObservedGeneration := Generation (Meta b)\<rparr>\<rparr>;
          u \<leftarrow> client_StatusUpdate (CollectorGroupBindings w) b;
          State_Monad.return
            (case u of
               Inl err \<Rightarrow> (empty_Result, Some err)
             | Inr b \<Rightarrow>
                 (if 0 < sint (CollectorTTL r) \<and> RegisteredTenants (Status b) \<noteq> []
                  then \<lparr>RequeueAfter = Duration_div (CollectorTTL r) 2\<rparr>
                  else empty_Result, None)) }"

definition Binding_Reconcile ::
  "('s, 'e) world \<Rightarrow> BindingReconciler \<Rightarrow> Request \<Rightarrow> ('s, Result \<times> 'e option) state" where
  "Binding_Reconcile w r req =
     do { got \<leftarrow> client_Get (CollectorGroupBindings w) (req_Namespace req) (req_Name req);
          case got of
            Inl err \<Rightarrow>
              State_Monad.return (empty_Result, if IsNotFound w err then None else Some err)
          | Inr b \<Rightarrow>
              if \<not> IsZero (DeletionTimestamp (Meta b)) then
                do { err \<leftarrow> handleDeletion w b; State_Monad.return (empty_Result, err) }
              else if \<not> ContainsFinalizer w (Finalizers (Meta b)) CollectorGroupBindingFinalizer then
                do { u \<leftarrow> client_Update (CollectorGroupBindings w)
                       (b\<lparr>Meta := (Meta b)\<lparr>Finalizers :=
                          AddFinalizer w (Finalizers (Meta b)) CollectorGroupBindingFinalizer\<rparr>\<rparr>);
                     State_Monad.return (empty_Result, err_of u) }
              else
                do { (b, v) \<leftarrow> validateRefs w b;
                     case v of
                       Inl err \<Rightarrow> State_Monad.return (empty_Result, Some err)
                     | Inr pipelineConfig \<Rightarrow>
                         do { err \<leftarrow> manageCounters w b;
                              if err \<noteq> None then State_Monad.return (empty_Result, err)
                              else evictAndPublish w r b pipelineConfig } } }"

subsection \<open>Watch mapping\<close>

definition enqueueBindingsForPipelineConfig ::
  "('s, 'e) world \<Rightarrow> PipelineConfig \<Rightarrow> ('s, Request list) state" where
  "enqueueBindingsForPipelineConfig w obj =
     do { r \<leftarrow> client_List (CollectorGroupBindings w) (Namespace (Meta obj))
                 (MatchingFields IndexPipelineConfigRef (Name (Meta obj)));
          State_Monad.return
            (case r of
               Inl _ \<Rightarrow> []
             | Inr items \<Rightarrow>
                 map (\<lambda>b. \<lparr>req_Namespace = Namespace (Meta b), req_Name = Name (Meta b)\<rparr>) items) }"

section \<open>Lemmas: eviction\<close>

text \<open>
  The in-place loop computes the filter: below \<open>k\<close> the array holds what was kept so far, from \<open>i\<close> on it
  is still the original.
\<close>

lemma evict_loop_filter:
  assumes "k \<le> i" "i \<le> length arr"
  shows "take (snd (evict_loop keep arr i k)) (fst (evict_loop keep arr i k)) =
           take k arr @ filter keep (drop i arr)"
  using assms
proof (induction keep arr i k rule: evict_loop.induct)
  case (1 keep arr i k)
  show ?case
  proof (cases "i < length arr")
    case True
    then have drop: "drop i arr = arr ! i # drop (Suc i) arr"
      by (rule Cons_nth_drop_Suc [symmetric])
    show ?thesis
    proof (cases "keep (arr ! i)")
      case keep: True
      have "take (Suc k) (arr[k := arr ! i]) = take k arr @ [arr ! i]"
        using "1.prems" True by (simp add: take_Suc_conv_app_nth)
      with "1.IH"(1) [OF True refl keep] "1.prems" True keep show ?thesis
        by (subst (1 2) evict_loop.simps) (simp add: drop)
    next
      case drop_it: False
      with "1.IH"(2) [OF True refl drop_it] "1.prems" True show ?thesis
        by (subst (1 2) evict_loop.simps) (simp add: drop)
    qed
  next
    case False
    with "1.prems" show ?thesis
      by (subst (1 2) evict_loop.simps) simp
  qed
qed

lemma evict_loop_correct:
  "(case evict_loop keep arr 0 0 of (arr', k) \<Rightarrow> take k arr') = filter keep arr"
  using evict_loop_filter [of 0 0 arr keep] by (simp add: split_beta)

definition fresh :: "Duration \<Rightarrow> Time \<Rightarrow> RegisteredTenant \<Rightarrow> bool" where
  "fresh ttl now t \<longleftrightarrow> Time_After (LastSeenAt t) (Time_Add now (- ttl))"

lemma run_evictStaleTenants:
  "run_state (evictStaleTenants w r b) s =
     (if CollectorTTL r = 0 then ((b, 0), s)
      else let kept = filter (fresh (CollectorTTL r) (result_of (Now w) s)) (RegisteredTenants (Status b))
           in ((b\<lparr>Status := (Status b)\<lparr>RegisteredTenants := kept\<rparr>\<rparr>,
                int (length (RegisteredTenants (Status b))) - int (length kept)),
               state_after (Now w) s))"
proof -
  have keep: "(\<lambda>t. Time_After (LastSeenAt t) (Time_Add now (- CollectorTTL r))) =
      fresh (CollectorTTL r) now" for now
    by (simp add: fresh_def fun_eq_iff)
  have kept: "take (snd (evict_loop p ts 0 0)) (fst (evict_loop p ts 0 0)) = filter p ts"
    for p and ts :: "RegisteredTenant list"
    using evict_loop_correct [of p ts] by (simp add: split_beta)
  show ?thesis
    by (simp add: evictStaleTenants_def keep kept Let_def split_beta del: length_take)
qed

section \<open>Lemmas: counters\<close>

text \<open>
  \<open>shifted upd d m m'\<close>: the resources of \<open>m'\<close> are those of \<open>m\<close> with the counter of each key \<open>k\<close> moved by
  \<open>d k\<close> and nothing else changed but resource versions.
\<close>

definition shifted ::
  "((int64 \<Rightarrow> int64) \<Rightarrow> 'b \<Rightarrow> 'b) \<Rightarrow> (object_key \<Rightarrow> int64) \<Rightarrow>
   (object_key \<rightharpoonup> ('a, 'b) resource) \<Rightarrow> (object_key \<rightharpoonup> ('a, 'b) resource) \<Rightarrow> bool" where
  "shifted upd d m m' \<longleftrightarrow>
     (\<forall>k. rel_option (\<lambda>obj obj'. same_object obj' obj \<and> Status obj' = upd (\<lambda>n. n + d k) (Status obj))
            (m k) (m' k))"

definition delta :: "object_key \<Rightarrow> int64 \<Rightarrow> object_key \<Rightarrow> int64" where
  "delta k n = (\<lambda>k'. if k' = k then n else 0)"

abbreviation shifted_pc where "shifted_pc \<equiv> shifted pc_ActiveBindings_update"
abbreviation shifted_cg where "shifted_cg \<equiv> shifted cg_ActiveBindings_update"

lemma shifted_refl:
  assumes "\<And>st. upd (\<lambda>n. n) st = st"
  shows "shifted upd (\<lambda>_. 0) m m"
  using assms by (auto simp: shifted_def option.rel_refl)

lemma shifted_at:
  "shifted upd d m m' \<Longrightarrow>
     rel_option (\<lambda>obj obj'. same_object obj' obj \<and> Status obj' = upd (\<lambda>n. n + d k) (Status obj))
       (m k) (m' k)"
  by (simp only: shifted_def)

lemma shifted_trans:
  assumes "shifted upd d m m'" "shifted upd d' m' m''"
    and "\<And>f g st. upd f (upd g st) = upd (f \<circ> g) st"
  shows "shifted upd (\<lambda>k. d k + d' k) m m''"
  unfolding shifted_def
proof
  fix k
  from shifted_at [OF assms(1), of k] shifted_at [OF assms(2), of k]
  show "rel_option (\<lambda>obj obj'. same_object obj' obj \<and>
      Status obj' = upd (\<lambda>n. n + (d k + d' k)) (Status obj)) (m k) (m'' k)"
    by (auto simp: option_rel_Some1 option_rel_Some2 assms(3) comp_def add.assoc
        intro: same_object_trans elim!: option.rel_cases)
qed

lemma shifted_upd:
  assumes "m k = Some obj" "same_object obj' obj" "Status obj' = upd (\<lambda>c. c + n) (Status obj)"
    and "\<And>st. upd (\<lambda>n. n) st = st"
  shows "shifted upd (delta k n) m (m(k \<mapsto> obj'))"
  using assms by (auto simp: shifted_def delta_def option.rel_refl)

lemma shiftedD:
  assumes "shifted upd d m m'"
  shows "m' k = None \<longleftrightarrow> m k = None"
    and "m' k = Some obj' \<Longrightarrow>
      \<exists>obj. m k = Some obj \<and> same_object obj' obj \<and> Status obj' = upd (\<lambda>n. n + d k) (Status obj)"
  using shifted_at [OF assms, of k] by (auto elim: option.rel_cases)

lemma shifted_missing:
  assumes "m k = None" and "\<And>st. upd (\<lambda>n. n) st = st"
  shows "shifted upd (delta k n) m m"
  using assms by (auto simp: shifted_def delta_def option.rel_refl)

lemma shifted_pc_trans:
  "shifted_pc d m m' \<Longrightarrow> shifted_pc d' m' m'' \<Longrightarrow> shifted_pc (\<lambda>k. d k + d' k) m m''"
  by (erule shifted_trans) simp_all

lemma shifted_cg_trans:
  "shifted_cg d m m' \<Longrightarrow> shifted_cg d' m' m'' \<Longrightarrow> shifted_cg (\<lambda>k. d k + d' k) m m''"
  by (erule shifted_trans) simp_all

lemma shifted_refl_pc [simp]: "shifted_pc (\<lambda>_. 0) m m"
  by (rule shifted_refl) simp

lemma shifted_refl_cg [simp]: "shifted_cg (\<lambda>_. 0) m m"
  by (rule shifted_refl) simp

lemma encode_pc_counter [simp]:
  "encode_pc_status wire (st\<lparr>pc_ActiveBindings := n\<rparr>) = (encode_pc_status wire st)\<lparr>pc_ActiveBindings := n\<rparr>"
  by (simp add: encode_pc_status_def)

lemma valid_pc_counter [simp]:
  "valid_pc_status (st\<lparr>pc_ActiveBindings := n\<rparr>) = valid_pc_status st"
  by (simp add: valid_pc_status_def)

text \<open>The change a move of one reference from \<open>prev\<close> to \<open>new\<close> owes to the counters.\<close>

definition ref_delta :: "string \<Rightarrow> string \<Rightarrow> string \<Rightarrow> object_key \<Rightarrow> int64" where
  "ref_delta ns prev new k =
     (if prev \<noteq> '''' \<and> prev \<noteq> new then delta (ns, prev) (- 1) k else 0) +
     (if new \<noteq> '''' \<and> prev \<noteq> new then delta (ns, new) 1 k else 0)"

context kube_world
begin

lemma pc_counter_write:
  assumes stored: "cl_pcs (abs s) (ns, n) = Some pc"
    and obj: "obj = pc\<lparr>Status := (Status pc)\<lparr>pc_ActiveBindings := pc_ActiveBindings (Status pc) + d\<rparr>\<rparr>"
  shows "\<exists>pc' pcs'. result_of (client_StatusUpdate (PipelineConfigs w) obj) s = Inr pc' \<and>
    abs (state_after (client_StatusUpdate (PipelineConfigs w) obj) s) = (abs s)\<lparr>cl_pcs := pcs'\<rparr> \<and>
    shifted_pc (delta (ns, n) d) (cl_pcs (abs s)) pcs'"
proof -
  note facts = pc.stored_key [OF stored] pc.stored_valid [OF stored] pc.stored_encoded [OF stored]
  let ?new = "stored_status (encode_pc_status wire) (version s) pc (Status obj)"
  have "shifted_pc (delta (ns, n) d) (cl_pcs (abs s)) ((cl_pcs (abs s))((ns, n) \<mapsto> ?new))"
    by (rule shifted_upd [where obj = pc]) (use stored facts obj in simp_all)
  then show ?thesis
    using stored facts by (auto simp: write_laws obj)
qed

lemma cg_counter_write:
  assumes stored: "cl_cgs (abs s) (ns, n) = Some cg"
    and obj: "obj = cg\<lparr>Status := (Status cg)\<lparr>cg_ActiveBindings := cg_ActiveBindings (Status cg) + d\<rparr>\<rparr>"
  shows "\<exists>cg' cgs'. result_of (client_StatusUpdate (CollectorGroups w) obj) s = Inr cg' \<and>
    abs (state_after (client_StatusUpdate (CollectorGroups w) obj) s) = (abs s)\<lparr>cl_cgs := cgs'\<rparr> \<and>
    shifted_cg (delta (ns, n) d) (cl_cgs (abs s)) cgs'"
proof -
  note key = cg.stored_key [OF stored]
  let ?new = "stored_status (\<lambda>st. st) (version s) cg (Status obj)"
  have "shifted_cg (delta (ns, n) d) (cl_cgs (abs s)) ((cl_cgs (abs s))((ns, n) \<mapsto> ?new))"
    by (rule shifted_upd [where obj = cg]) (use stored key obj in simp_all)
  then show ?thesis
    using stored key by (auto simp: write_laws obj)
qed

text \<open>
  A counter operation on \<open>(ns, n)\<close> moves that counter and nothing else; it fails only when the
  resource does not exist, with an error that \<open>IsNotFound\<close> recognises.
\<close>

definition counter_effect where
  "counter_effect m set_objs objs sh k d s \<longleftrightarrow>
     (\<exists>objs'. abs (state_after m s) = set_objs objs' (abs s) \<and>
        sh (delta k d) (objs (abs s)) objs') \<and>
     (if objs (abs s) k = None then \<exists>e. result_of m s = Some e \<and> IsNotFound w e
      else result_of m s = None)"

lemma pc_counter_effect:
  assumes "m = incrementPipelineConfigActiveBindings w ns n \<and> d = 1 \<or>
           m = decrementPipelineConfigActiveBindings w ns n \<and> d = - 1"
  shows "counter_effect m (\<lambda>o'. cl_pcs_update (\<lambda>_. o')) cl_pcs shifted_pc (ns, n) d s"
proof (cases "cl_pcs (abs s) (ns, n)")
  case None
  with pc.get_missing [OF None] assms show ?thesis
    by (auto simp: counter_effect_def incrementPipelineConfigActiveBindings_def
      decrementPipelineConfigActiveBindings_def getPipelineConfig_def abs_laws
      intro!: exI [of _ "cl_pcs (abs s)"] shifted_missing)
next
  case (Some pc)
  let ?s = "state_after (client_Get (PipelineConfigs w) ns n) s"
  have s: "abs ?s = abs s" by (simp add: abs_laws)
  from pc_counter_write [of ?s ns n pc, unfolded s, OF Some refl, of d] Some assms show ?thesis
    by (auto simp: counter_effect_def incrementPipelineConfigActiveBindings_def
      decrementPipelineConfigActiveBindings_def getPipelineConfig_def get_laws)
qed

lemma cg_counter_effect:
  assumes "m = incrementCollectorGroupActiveBindings w ns n \<and> d = 1 \<or>
           m = decrementCollectorGroupActiveBindings w ns n \<and> d = - 1"
  shows "counter_effect m (\<lambda>o'. cl_cgs_update (\<lambda>_. o')) cl_cgs shifted_cg (ns, n) d s"
proof (cases "cl_cgs (abs s) (ns, n)")
  case None
  with cg.get_missing [OF None] assms show ?thesis
    by (auto simp: counter_effect_def incrementCollectorGroupActiveBindings_def
      decrementCollectorGroupActiveBindings_def getCollectorGroup_def abs_laws
      intro!: exI [of _ "cl_cgs (abs s)"] shifted_missing)
next
  case (Some cg)
  let ?s = "state_after (client_Get (CollectorGroups w) ns n) s"
  have s: "abs ?s = abs s" by (simp add: abs_laws)
  from cg_counter_write [of ?s ns n cg, unfolded s, OF Some refl, of d] Some assms show ?thesis
    by (auto simp: counter_effect_def incrementCollectorGroupActiveBindings_def
      decrementCollectorGroupActiveBindings_def getCollectorGroup_def get_laws)
qed

lemma guarded_pc_effect:
  assumes "m = incrementPipelineConfigActiveBindings w ns n \<and> d = 1 \<or>
           m = decrementPipelineConfigActiveBindings w ns n \<and> d = - 1"
    and "m' = (if g then m else State_Monad.return None)"
  shows "\<exists>pcs'. abs (state_after m' s) = (abs s)\<lparr>cl_pcs := pcs'\<rparr> \<and>
      shifted_pc (\<lambda>k. if g then delta (ns, n) d k else 0) (cl_pcs (abs s)) pcs' \<and>
      \<not> not_ignorable w (result_of m' s) \<and>
      (result_of m' s = None \<longleftrightarrow> g \<longrightarrow> cl_pcs (abs s) (ns, n) \<noteq> None)"
  using pc_counter_effect [OF assms(1), of s] assms(2)
  by (auto simp: counter_effect_def not_ignorable_def split: if_splits
    intro: exI [of _ "cl_pcs (abs s)"])

lemma guarded_cg_effect:
  assumes "m = incrementCollectorGroupActiveBindings w ns n \<and> d = 1 \<or>
           m = decrementCollectorGroupActiveBindings w ns n \<and> d = - 1"
    and "m' = (if g then m else State_Monad.return None)"
  shows "\<exists>cgs'. abs (state_after m' s) = (abs s)\<lparr>cl_cgs := cgs'\<rparr> \<and>
      shifted_cg (\<lambda>k. if g then delta (ns, n) d k else 0) (cl_cgs (abs s)) cgs' \<and>
      \<not> not_ignorable w (result_of m' s) \<and>
      (result_of m' s = None \<longleftrightarrow> g \<longrightarrow> cl_cgs (abs s) (ns, n) \<noteq> None)"
  using cg_counter_effect [OF assms(1), of s] assms(2)
  by (auto simp: counter_effect_def not_ignorable_def split: if_splits
    intro: exI [of _ "cl_cgs (abs s)"])

lemma manageCounters_effect:
  fixes b s
  defines "ns \<equiv> Namespace (Meta b)"
  assumes pc: "cl_pcs (abs s) (ns, PipelineConfigRef (Spec b)) \<noteq> None"
    and pc_name: "PipelineConfigRef (Spec b) \<noteq> ''''"
    and cg: "CollectorGroupRef (Spec b) \<noteq> '''' \<Longrightarrow> cl_cgs (abs s) (ns, CollectorGroupRef (Spec b)) \<noteq> None"
  shows "\<exists>pcs' cgs'. result_of (manageCounters w b) s = None \<and>
    abs (state_after (manageCounters w b) s) = (abs s)\<lparr>cl_pcs := pcs', cl_cgs := cgs'\<rparr> \<and>
    shifted_pc (ref_delta ns (BoundPipelineConfigRef (Status b)) (PipelineConfigRef (Spec b)))
      (cl_pcs (abs s)) pcs' \<and>
    shifted_cg (ref_delta ns (BoundCollectorGroupRef (Status b)) (CollectorGroupRef (Spec b)))
      (cl_cgs (abs s)) cgs'"
proof -
  define prevPC newPC prevCG newCG where refs: "prevPC = BoundPipelineConfigRef (Status b)"
    "newPC = PipelineConfigRef (Spec b)" "prevCG = BoundCollectorGroupRef (Status b)"
    "newCG = CollectorGroupRef (Spec b)"
  define m1 where "m1 = (if prevPC \<noteq> '''' \<and> prevPC \<noteq> newPC
    then decrementPipelineConfigActiveBindings w ns prevPC else State_Monad.return None)"
  define m2 where "m2 = (if prevCG \<noteq> '''' \<and> prevCG \<noteq> newCG
    then decrementCollectorGroupActiveBindings w ns prevCG else State_Monad.return None)"
  define m3 where "m3 = (if prevPC \<noteq> newPC
    then incrementPipelineConfigActiveBindings w ns newPC else State_Monad.return None)"
  define m4 where "m4 = (if prevCG \<noteq> newCG \<and> newCG \<noteq> ''''
    then incrementCollectorGroupActiveBindings w ns newCG else State_Monad.return None)"
  have code: "manageCounters w b =
      do { _ \<leftarrow> m1; _ \<leftarrow> m2; err \<leftarrow> m3; if err \<noteq> None then State_Monad.return err else m4 }"
    unfolding manageCounters_def Let_def m1_def m2_def m3_def m4_def refs ns_def by (rule refl)
  define s1 s2 s3 where s: "s1 = state_after m1 s" "s2 = state_after m2 s1" "s3 = state_after m3 s2"
  obtain pcs1 where e1: "abs s1 = (abs s)\<lparr>cl_pcs := pcs1\<rparr>"
    "shifted_pc (\<lambda>k. if prevPC \<noteq> '''' \<and> prevPC \<noteq> newPC then delta (ns, prevPC) (- 1) k else 0) (cl_pcs (abs s)) pcs1"
    using guarded_pc_effect [OF disjI2 [OF conjI [OF refl refl]] m1_def, of s] s by auto
  obtain cgs2 where e2: "abs s2 = (abs s1)\<lparr>cl_cgs := cgs2\<rparr>"
    "shifted_cg (\<lambda>k. if prevCG \<noteq> '''' \<and> prevCG \<noteq> newCG then delta (ns, prevCG) (- 1) k else 0) (cl_cgs (abs s1)) cgs2"
    using guarded_cg_effect [OF disjI2 [OF conjI [OF refl refl]] m2_def, of s1] s by auto
  have "cl_pcs (abs s2) (ns, newPC) \<noteq> None"
    using e1 e2(1) pc by (simp add: refs shiftedD(1))
  then obtain pcs3 where e3: "abs s3 = (abs s2)\<lparr>cl_pcs := pcs3\<rparr>"
    "shifted_pc (\<lambda>k. if prevPC \<noteq> newPC then delta (ns, newPC) 1 k else 0) (cl_pcs (abs s2)) pcs3"
    "result_of m3 s2 = None"
    using guarded_pc_effect [OF disjI1 [OF conjI [OF refl refl]] m3_def, of s2] s by auto
  have "newCG \<noteq> '''' \<Longrightarrow> cl_cgs (abs s3) (ns, newCG) \<noteq> None"
    using e1 e2 e3(1) cg by (simp add: refs shiftedD(1))
  then obtain cgs4 where e4: "abs (state_after m4 s3) = (abs s3)\<lparr>cl_cgs := cgs4\<rparr>"
    "shifted_cg (\<lambda>k. if prevCG \<noteq> newCG \<and> newCG \<noteq> '''' then delta (ns, newCG) 1 k else 0) (cl_cgs (abs s3)) cgs4"
    "result_of m4 s3 = None"
    using guarded_cg_effect [OF disjI1 [OF conjI [OF refl refl]] m4_def, of s3] s by auto
  have "shifted_pc (ref_delta ns prevPC newPC) (cl_pcs (abs s)) pcs3"
    using shifted_pc_trans [OF e1(2)] e3(2) e1(1) e2(1) pc_name
    by (simp add: ref_delta_def [abs_def] refs cong: if_cong)
  moreover have "shifted_cg (ref_delta ns prevCG newCG) (cl_cgs (abs s)) cgs4"
    using shifted_cg_trans [OF e2(2)] e4(2) e1(1) e2(1) e3(1)
    by (simp add: ref_delta_def [abs_def] conj_commute cong: if_cong)
  ultimately show ?thesis
    using e1(1) e2(1) e3 e4 by (auto simp: code s refs)
qed

end

section \<open>Outcomes of a reconcile\<close>

text \<open>What a failed validation writes: the condition and the phase, and nothing that a counter depends on.\<close>

definition degraded :: "CollectorGroupBinding \<Rightarrow> string \<Rightarrow> CollectorGroupBinding \<Rightarrow> bool" where
  "degraded b reason b' \<longleftrightarrow>
     same_object b' b \<and> Phase (Status b') = BindingPhaseDegraded \<and>
     has_condition (Conditions (Status b')) ConditionTypeRefsValid ConditionFalse reason \<and>
     ObservedGeneration (Status b') = Generation (Meta b) \<and>
     BoundPipelineConfigRef (Status b') = BoundPipelineConfigRef (Status b) \<and>
     BoundCollectorGroupRef (Status b') = BoundCollectorGroupRef (Status b) \<and>
     ConfigHash (Status b') = ConfigHash (Status b) \<and>
     RegisteredTenants (Status b') = RegisteredTenants (Status b)"

text \<open>The clock reading a reconcile evicts by: the one that follows validation and the counters.\<close>

definition eviction_clock :: "('s, 'e) world \<Rightarrow> Request \<Rightarrow> 's \<Rightarrow> Time" where
  "eviction_clock w req s = result_of
     (do { got \<leftarrow> client_Get (CollectorGroupBindings w) (req_Namespace req) (req_Name req);
           case got of
             Inl _ \<Rightarrow> Now w
           | Inr b \<Rightarrow>
               do { (b, _) \<leftarrow> validateRefs w b;
                    _ \<leftarrow> manageCounters w b;
                    Now w } }) s"

text \<open>What a successful reconcile publishes on the binding, given the clock reading of the eviction.\<close>

definition live_tenants :: "BindingReconciler \<Rightarrow> Time \<Rightarrow> CollectorGroupBinding \<Rightarrow> RegisteredTenant list" where
  "live_tenants r now b =
     (if CollectorTTL r = 0 then RegisteredTenants (Status b)
      else filter (fresh (CollectorTTL r) now) (RegisteredTenants (Status b)))"

definition reconciled ::
  "BindingReconciler \<Rightarrow> Time \<Rightarrow> CollectorGroupBinding \<Rightarrow> PipelineConfig \<Rightarrow> CollectorGroupBinding \<Rightarrow> bool" where
  "reconciled r now b pc b' \<longleftrightarrow>
     same_object b' b \<and> Phase (Status b') = BindingPhaseActive \<and>
     has_condition (Conditions (Status b')) ConditionTypeRefsValid ConditionTrue ''RefsResolved'' \<and>
     ObservedGeneration (Status b') = Generation (Meta b) \<and>
     BoundPipelineConfigRef (Status b') = PipelineConfigRef (Spec b) \<and>
     BoundCollectorGroupRef (Status b') = CollectorGroupRef (Spec b) \<and>
     ConfigHash (Status b') = ContentHash (Status pc) \<and>
     RegisteredTenants (Status b') = live_tenants r now b"

definition evicted_log :: "BindingReconciler \<Rightarrow> Time \<Rightarrow> CollectorGroupBinding \<Rightarrow> metric_call list" where
  "evicted_log r now b =
     (let evicted = int (length (RegisteredTenants (Status b))) - int (length (live_tenants r now b))
      in if 0 < evicted \<and> MetricsEnabled r
         then [CounterAdd ''registered_tenants_evicted_total'' [] evicted] else [])"

section \<open>Lemmas: validation\<close>

lemma encoded_tenants:
  "encode_binding_status wire st = st \<Longrightarrow>
     map (encode_tenant wire) (RegisteredTenants st) = RegisteredTenants st"
  by (metis encode_binding_status_simps(8))

lemma map_fixpoint: "map f xs = xs \<Longrightarrow> x \<in> set xs \<Longrightarrow> f x = x"
  by (metis in_set_conv_nth nth_map)

lemma encoded_tenants_filter:
  assumes "encode_binding_status wire st = st"
  shows "map (encode_tenant wire) (filter p (RegisteredTenants st)) = filter p (RegisteredTenants st)"
  using map_fixpoint [OF encoded_tenants [OF assms]] by (intro map_idI) auto

lemma conditions_inject [simp]:
  "b\<lparr>Status := st\<lparr>Conditions := cs\<rparr>\<rparr> = b\<lparr>Status := st\<lparr>Conditions := cs'\<rparr>\<rparr> \<longleftrightarrow> cs = cs'"
  by (cases b; cases st) simp

lemma valid_binding_status_simps [simp]:
  "valid_binding_status (st\<lparr>Conditions := cs\<rparr>) = valid_binding_status st"
  "valid_binding_status (st\<lparr>Phase := p\<rparr>) = valid_binding_status st"
  "valid_binding_status (st\<lparr>ObservedGeneration := g\<rparr>) = valid_binding_status st"
  "valid_binding_status (st\<lparr>ConfigHash := h\<rparr>) = valid_binding_status st"
  "valid_binding_status (st\<lparr>LastSyncedAt := t\<rparr>) = valid_binding_status st"
  "valid_binding_status (st\<lparr>BoundPipelineConfigRef := n\<rparr>) = valid_binding_status st"
  "valid_binding_status (st\<lparr>BoundCollectorGroupRef := n\<rparr>) = valid_binding_status st"
  by (simp_all add: valid_binding_status_def)

lemma valid_binding_status_filter [simp]:
  "valid_binding_status st \<Longrightarrow>
     valid_binding_status (st\<lparr>RegisteredTenants := filter p (RegisteredTenants st)\<rparr>)"
  by (auto simp: valid_binding_status_def distinct_map_filter)

context kube_world
begin

lemma derivePhase_set:
  "derivePhase w (result_of (SetStatusCondition w cs (refs_condition b st reason msg)) s) =
     (if st = ConditionTrue then BindingPhaseActive else BindingPhaseDegraded)"
  using set_condition_find [of "refs_condition b st reason msg" cs s]
  by (auto simp: derivePhase_def find_condition refs_condition_def)

lemma refs_condition_has:
  "has_condition (result_of (SetStatusCondition w cs (refs_condition b st reason msg)) s)
     ConditionTypeRefsValid st reason"
  using set_condition_has [of cs "refs_condition b st reason msg" s]
  by (simp add: refs_condition_def)

lemma setRefsInvalid_effect:
  assumes stored: "cl_cgbs (abs s) k = Some b"
  shows "\<exists>b'. abs (state_after (setRefsInvalid w b reason msg) s) = with_cgb k b' (abs s) \<and>
           degraded b reason b'"
  using stored cgb.stored_key [OF stored] cgb.stored_valid [OF stored]
    encoded_tenants [OF cgb.stored_encoded [OF stored]]
  by (simp add: setRefsInvalid_def Let_def all_laws degraded_def derivePhase_set refs_condition_has)

lemma validateRefs_ok:
  assumes "cl_pcs (abs s) (Namespace (Meta b), PipelineConfigRef (Spec b)) = Some pc"
    and "CollectorGroupRef (Spec b) \<noteq> '''' \<Longrightarrow>
      cl_cgs (abs s) (Namespace (Meta b), CollectorGroupRef (Spec b)) \<noteq> None"
  shows "\<exists>cs. result_of (validateRefs w b) s = (b\<lparr>Status := (Status b)\<lparr>Conditions := cs\<rparr>\<rparr>, Inr pc) \<and>
    abs (state_after (validateRefs w b) s) = abs s \<and> derivePhase w cs = BindingPhaseActive \<and>
    has_condition cs ConditionTypeRefsValid ConditionTrue ''RefsResolved''"
proof (cases "CollectorGroupRef (Spec b) = ''''")
  case True
  with assms(1) show ?thesis
    by (simp add: validateRefs_def getPipelineConfig_def all_laws derivePhase_set refs_condition_has Let_def)
next
  case False
  with assms(2) obtain cg where
    "cl_cgs (abs s) (Namespace (Meta b), CollectorGroupRef (Spec b)) = Some cg" by auto
  with False assms(1) show ?thesis
    by (simp add: validateRefs_def getPipelineConfig_def getCollectorGroup_def all_laws
      derivePhase_set refs_condition_has Let_def)
qed

lemma validateRefs_no_config:
  assumes stored: "cl_cgbs (abs s) k = Some b"
    and missing: "cl_pcs (abs s) (Namespace (Meta b), PipelineConfigRef (Spec b)) = None"
  shows "\<exists>b' e. snd (result_of (validateRefs w b) s) = Inl e \<and> IsNotFound w e \<and>
    abs (state_after (validateRefs w b) s) = with_cgb k b' (abs s) \<and>
    degraded b ''PipelineConfigNotFound'' b'"
proof -
  let ?s = "state_after (client_Get (PipelineConfigs w) (Namespace (Meta b)) (PipelineConfigRef (Spec b))) s"
  have s: "abs ?s = abs s" by (simp add: abs_laws)
  with setRefsInvalid_effect [of ?s k b] pc.get_missing [OF missing] stored show ?thesis
    by (auto simp: validateRefs_def getPipelineConfig_def Let_def)
qed

lemma validateRefs_no_group:
  assumes stored: "cl_cgbs (abs s) k = Some b"
    and pc: "cl_pcs (abs s) (Namespace (Meta b), PipelineConfigRef (Spec b)) = Some pc"
    and ref: "CollectorGroupRef (Spec b) \<noteq> ''''"
    and missing: "cl_cgs (abs s) (Namespace (Meta b), CollectorGroupRef (Spec b)) = None"
  shows "\<exists>b' e. snd (result_of (validateRefs w b) s) = Inl e \<and> IsNotFound w e \<and>
    abs (state_after (validateRefs w b) s) = with_cgb k b' (abs s) \<and>
    degraded b ''CollectorGroupNotFound'' b'"
proof -
  let ?s1 = "state_after (client_Get (PipelineConfigs w) (Namespace (Meta b)) (PipelineConfigRef (Spec b))) s"
  let ?s2 = "state_after (client_Get (CollectorGroups w) (Namespace (Meta b)) (CollectorGroupRef (Spec b))) ?s1"
  have s: "abs ?s1 = abs s" "abs ?s2 = abs s" by (simp_all add: abs_laws)
  obtain e where e: "result_of (client_Get (CollectorGroups w) (Namespace (Meta b)) (CollectorGroupRef (Spec b))) ?s1 = Inl e"
    "IsNotFound w e"
    using cg.get_missing [of ?s1] missing s by auto
  obtain b' where "abs (state_after (setRefsInvalid w b ''CollectorGroupNotFound'' (ErrorText w e)) ?s2) =
      with_cgb k b' (abs s)" "degraded b ''CollectorGroupNotFound'' b'"
    using setRefsInvalid_effect [of ?s2 k b] stored s by force
  then show ?thesis
    using e ref pc.get_found [OF pc]
    by (auto simp: validateRefs_def getPipelineConfig_def getCollectorGroup_def Let_def)
qed

end

section \<open>Lemmas: reconcile\<close>

lemma live_tenants_status [simp]:
  "live_tenants r now (b\<lparr>Status := (Status b)\<lparr>Conditions := cs\<rparr>\<rparr>) = live_tenants r now b"
  by (simp add: live_tenants_def)

lemma run_evict:
  "result_of (evictStaleTenants w r b) s =
      (b\<lparr>Status := (Status b)\<lparr>RegisteredTenants := live_tenants r (result_of (Now w) s) b\<rparr>\<rparr>,
       int (length (RegisteredTenants (Status b))) - int (length (live_tenants r (result_of (Now w) s) b)))"
  "state_after (evictStaleTenants w r b) s = (if CollectorTTL r = 0 then s else state_after (Now w) s)"
  by (cases "CollectorTTL r = 0"; simp add: run_evictStaleTenants live_tenants_def Let_def)+

lemma valid_live_tenants [simp]:
  "valid_binding_status (Status b) \<Longrightarrow>
     valid_binding_status ((Status b)\<lparr>RegisteredTenants := live_tenants r now b\<rparr>)"
  by (simp add: live_tenants_def)

lemma encoded_live_tenants:
  "encode_binding_status wire (Status b) = Status b \<Longrightarrow>
     map (encode_tenant wire) (live_tenants r now b) = live_tenants r now b"
  by (simp add: live_tenants_def encoded_tenants encoded_tenants_filter)

context kube_world
begin

lemma evictAndPublish_effect:
  assumes stored: "cl_cgbs (abs s) k = Some b"
    and b1: "b1 = b\<lparr>Status := (Status b)\<lparr>Conditions := cs\<rparr>\<rparr>"
    and phase: "derivePhase w cs = BindingPhaseActive"
    and cond: "has_condition cs ConditionTypeRefsValid ConditionTrue ''RefsResolved''"
    and now: "now = result_of (Now w) s"
  shows "\<exists>b'. reconciled r now b pc b' \<and>
    result_of (evictAndPublish w r b1 pc) s =
      (if 0 < sint (CollectorTTL r) \<and> live_tenants r now b \<noteq> []
       then \<lparr>RequeueAfter = Duration_div (CollectorTTL r) 2\<rparr> else empty_Result, None) \<and>
    abs (state_after (evictAndPublish w r b1 pc) s) =
      (abs s)\<lparr>cl_cgbs := (cl_cgbs (abs s))(k \<mapsto> b'),
              cl_metrics := cl_metrics (abs s) @ evicted_log r now b\<rparr>"
proof -
  have e: "result_of (evictStaleTenants w r b1) s =
      (b1\<lparr>Status := (Status b1)\<lparr>RegisteredTenants := live_tenants r now b\<rparr>\<rparr>,
       int (length (RegisteredTenants (Status b))) - int (length (live_tenants r now b)))"
    "abs (state_after (evictStaleTenants w r b1) s) = abs s"
    using run_evict [of w r b1 s] by (simp_all add: b1 now now_abs)
  define s2 where "s2 = state_after
    (countEvicted w r (int (length (RegisteredTenants (Status b))) - int (length (live_tenants r now b))))
    (state_after (evictStaleTenants w r b1) s)"
  define s3 where "s3 = state_after (Now w) s2"
  define st where "st = (Status b)\<lparr>Conditions := cs, RegisteredTenants := live_tenants r now b,
    BoundPipelineConfigRef := PipelineConfigRef (Spec b), BoundCollectorGroupRef := CollectorGroupRef (Spec b),
    ConfigHash := ContentHash (Status pc), LastSyncedAt := result_of (Now w) s2,
    Phase := BindingPhaseActive, ObservedGeneration := Generation (Meta b)\<rparr>"
  let ?b' = "stored_status (encode_binding_status wire) (version s3) b st"
  have s3: "abs s3 = (abs s)\<lparr>cl_metrics := cl_metrics (abs s) @ evicted_log r now b\<rparr>"
    using e(2) by (simp add: s3_def s2_def countEvicted_def abs_laws evicted_log_def Let_def)
  have valid: "valid_binding_status st"
    using valid_live_tenants [OF cgb.stored_valid [OF stored]]
    by (simp add: st_def valid_binding_status_def)
  note written = cgb.status_writeback [of s3 b st, unfolded cgb.stored_key [OF stored]]
  have tenants: "RegisteredTenants (Status ?b') = live_tenants r now b"
    using encoded_live_tenants [OF cgb.stored_encoded [OF stored], of r now] by (simp add: st_def)
  have "reconciled r now b pc ?b'"
    using encoded_live_tenants [OF cgb.stored_encoded [OF stored], of r now] cond
    by (simp add: reconciled_def st_def)
  moreover have "run_state (evictAndPublish w r b1 pc) s =
      ((if 0 < sint (CollectorTTL r) \<and> live_tenants r now b \<noteq> []
        then \<lparr>RequeueAfter = Duration_div (CollectorTTL r) 2\<rparr> else empty_Result, None),
       state_after (client_StatusUpdate (CollectorGroupBindings w) (b\<lparr>Status := st\<rparr>)) s3)"
    using e(1) written(1) stored valid phase tenants
    by (simp add: evictAndPublish_def b1 s2_def [symmetric, unfolded b1] s3_def [symmetric]
      st_def [symmetric] s3)
  moreover have "abs (state_after (client_StatusUpdate (CollectorGroupBindings w) (b\<lparr>Status := st\<rparr>)) s3) =
      (abs s)\<lparr>cl_cgbs := (cl_cgbs (abs s))(k \<mapsto> ?b'),
              cl_metrics := cl_metrics (abs s) @ evicted_log r now b\<rparr>"
    using written(2) stored valid by (simp add: s3)
  ultimately show ?thesis by (metis fst_conv snd_conv)
qed

lemma reconcile_bound:
  assumes stored: "cl_cgbs (abs s) (req_Namespace req, req_Name req) = Some b"
    and live: "IsZero (DeletionTimestamp (Meta b))"
    and finalizer: "CollectorGroupBindingFinalizer \<in> set (Finalizers (Meta b))"
    and config: "cl_pcs (abs s) (req_Namespace req, PipelineConfigRef (Spec b)) = Some pc"
    and config_name: "PipelineConfigRef (Spec b) \<noteq> ''''"
    and group: "CollectorGroupRef (Spec b) \<noteq> '''' \<Longrightarrow>
      cl_cgs (abs s) (req_Namespace req, CollectorGroupRef (Spec b)) \<noteq> None"
    and now: "now = eviction_clock w req s"
  shows "\<exists>b' pcs' cgs'. reconciled r now b pc b' \<and>
    result_of (Binding_Reconcile w r req) s =
      (if 0 < sint (CollectorTTL r) \<and> live_tenants r now b \<noteq> []
       then \<lparr>RequeueAfter = Duration_div (CollectorTTL r) 2\<rparr> else empty_Result, None) \<and>
    abs (state_after (Binding_Reconcile w r req) s) =
      (abs s)\<lparr>cl_pcs := pcs', cl_cgs := cgs',
              cl_cgbs := (cl_cgbs (abs s))((req_Namespace req, req_Name req) \<mapsto> b'),
              cl_metrics := cl_metrics (abs s) @ evicted_log r now b\<rparr> \<and>
    shifted_pc (ref_delta (req_Namespace req) (BoundPipelineConfigRef (Status b)) (PipelineConfigRef (Spec b)))
      (cl_pcs (abs s)) pcs' \<and>
    shifted_cg (ref_delta (req_Namespace req) (BoundCollectorGroupRef (Status b)) (CollectorGroupRef (Spec b)))
      (cl_cgs (abs s)) cgs'"
proof -
  let ?get = "client_Get (CollectorGroupBindings w) (req_Namespace req) (req_Name req)"
  note key = cgb.stored_key [OF stored]
  have ns: "Namespace (Meta b) = req_Namespace req" using key by (simp add: key_of_def)
  define s1 where "s1 = state_after ?get s"
  have s1: "abs s1 = abs s" by (simp add: s1_def abs_laws)
  obtain cs where v: "result_of (validateRefs w b) s1 = (b\<lparr>Status := (Status b)\<lparr>Conditions := cs\<rparr>\<rparr>, Inr pc)"
    "abs (state_after (validateRefs w b) s1) = abs s" "derivePhase w cs = BindingPhaseActive"
    "has_condition cs ConditionTypeRefsValid ConditionTrue ''RefsResolved''"
    using validateRefs_ok [of s1 b pc] config group by (auto simp: s1 ns)
  define b1 where "b1 = b\<lparr>Status := (Status b)\<lparr>Conditions := cs\<rparr>\<rparr>"
  define s2 where "s2 = state_after (validateRefs w b) s1"
  obtain pcs' cgs' where c: "result_of (manageCounters w b1) s2 = None"
    "abs (state_after (manageCounters w b1) s2) = (abs s)\<lparr>cl_pcs := pcs', cl_cgs := cgs'\<rparr>"
    "shifted_pc (ref_delta (req_Namespace req) (BoundPipelineConfigRef (Status b)) (PipelineConfigRef (Spec b)))
      (cl_pcs (abs s)) pcs'"
    "shifted_cg (ref_delta (req_Namespace req) (BoundCollectorGroupRef (Status b)) (CollectorGroupRef (Spec b)))
      (cl_cgs (abs s)) cgs'"
    using manageCounters_effect [of s2 b1] config config_name group v(2) ns by (auto simp: b1_def s2_def)
  define s3 where "s3 = state_after (manageCounters w b1) s2"
  have code: "run_state (Binding_Reconcile w r req) s = run_state (evictAndPublish w r b1 pc) s3"
    using live finalizer v(1) c(1) cgb.get_found [OF stored]
    by (simp add: Binding_Reconcile_def contains_finalizer s1_def [symmetric] s2_def [symmetric]
      s3_def [symmetric] b1_def [symmetric])
  have clock: "now = result_of (Now w) s3"
    using now v(1) cgb.get_found [OF stored]
    by (simp add: eviction_clock_def s1_def [symmetric] s2_def [symmetric] s3_def [symmetric] b1_def [symmetric])
  from evictAndPublish_effect [of s3 _ b b1 cs now r pc] c(2) stored v(3,4) clock
  have "\<exists>b'. reconciled r now b pc b' \<and>
    result_of (evictAndPublish w r b1 pc) s3 =
      (if 0 < sint (CollectorTTL r) \<and> live_tenants r now b \<noteq> []
       then \<lparr>RequeueAfter = Duration_div (CollectorTTL r) 2\<rparr> else empty_Result, None) \<and>
    abs (state_after (evictAndPublish w r b1 pc) s3) =
      (abs s)\<lparr>cl_pcs := pcs', cl_cgs := cgs',
              cl_cgbs := (cl_cgbs (abs s))((req_Namespace req, req_Name req) \<mapsto> b'),
              cl_metrics := cl_metrics (abs s) @ evicted_log r now b\<rparr>"
    by (simp add: b1_def s3_def)
  with c(3,4) show ?thesis unfolding code by blast
qed

lemma handleDeletion_effect:
  assumes stored: "cl_cgbs (abs s) k = Some b"
    and deleted: "DeletionTimestamp (Meta b) \<noteq> None"
  shows "\<exists>pcs' cgs' x. result_of (handleDeletion w b) s = None \<and>
    abs (state_after (handleDeletion w b) s) =
      (abs s)\<lparr>cl_pcs := pcs', cl_cgs := cgs', cl_cgbs := (cl_cgbs (abs s))(k := x)\<rparr> \<and>
    shifted_pc (ref_delta (Namespace (Meta b)) (BoundPipelineConfigRef (Status b)) '''')
      (cl_pcs (abs s)) pcs' \<and>
    shifted_cg (ref_delta (Namespace (Meta b)) (BoundCollectorGroupRef (Status b)) '''')
      (cl_cgs (abs s)) cgs' \<and>
    (if set (Finalizers (Meta b)) \<subseteq> {CollectorGroupBindingFinalizer} then x = None
     else \<exists>b'. x = Some b' \<and> Spec b' = Spec b \<and> Status b' = Status b \<and>
            DeletionTimestamp (Meta b') = DeletionTimestamp (Meta b) \<and>
            set (Finalizers (Meta b')) = set (Finalizers (Meta b)) - {CollectorGroupBindingFinalizer})"
proof -
  define ns prevPC prevCG where d: "ns = Namespace (Meta b)"
    "prevPC = BoundPipelineConfigRef (Status b)" "prevCG = BoundCollectorGroupRef (Status b)"
  define m1 where "m1 = (if prevPC \<noteq> '''' then decrementPipelineConfigActiveBindings w ns prevPC
    else State_Monad.return None)"
  define m2 where "m2 = (if prevCG \<noteq> '''' then decrementCollectorGroupActiveBindings w ns prevCG
    else State_Monad.return None)"
  define fs where "fs = RemoveFinalizer w (Finalizers (Meta b)) CollectorGroupBindingFinalizer"
  define m3 where "m3 = client_Update (CollectorGroupBindings w) (b\<lparr>Meta := (Meta b)\<lparr>Finalizers := fs\<rparr>\<rparr>)"
  have code: "handleDeletion w b =
      do { err \<leftarrow> m1; if not_ignorable w err then State_Monad.return err
           else do { err \<leftarrow> m2; if not_ignorable w err then State_Monad.return err
                     else do { r \<leftarrow> m3; State_Monad.return (err_of r) } } }"
    unfolding handleDeletion_def Let_def m1_def m2_def m3_def fs_def d by (rule refl)
  define s1 s2 where s: "s1 = state_after m1 s" "s2 = state_after m2 s1"
  obtain pcs1 where e1: "abs s1 = (abs s)\<lparr>cl_pcs := pcs1\<rparr>" "\<not> not_ignorable w (result_of m1 s)"
    "shifted_pc (\<lambda>k. if prevPC \<noteq> '''' then delta (ns, prevPC) (- 1) k else 0) (cl_pcs (abs s)) pcs1"
    using guarded_pc_effect [OF disjI2 [OF conjI [OF refl refl]] m1_def, of s] s by auto
  obtain cgs2 where e2: "abs s2 = (abs s1)\<lparr>cl_cgs := cgs2\<rparr>" "\<not> not_ignorable w (result_of m2 s1)"
    "shifted_cg (\<lambda>k. if prevCG \<noteq> '''' then delta (ns, prevCG) (- 1) k else 0) (cl_cgs (abs s1)) cgs2"
    using guarded_cg_effect [OF disjI2 [OF conjI [OF refl refl]] m2_def, of s1] s by auto
  have fs: "set fs = set (Finalizers (Meta b)) - {CollectorGroupBindingFinalizer}"
    by (simp add: fs_def remove_finalizer)
  have "\<exists>x. err_of (result_of m3 s2) = None \<and>
      abs (state_after m3 s2) = (abs s2)\<lparr>cl_cgbs := (cl_cgbs (abs s2))(k := x)\<rparr> \<and>
      (if set (Finalizers (Meta b)) \<subseteq> {CollectorGroupBindingFinalizer} then x = None
       else \<exists>b'. x = Some b' \<and> Spec b' = Spec b \<and> Status b' = Status b \<and>
            DeletionTimestamp (Meta b') = DeletionTimestamp (Meta b) \<and> set (Finalizers (Meta b')) = set fs)"
  proof (cases "fs = []")
    case True
    then show ?thesis
      using fs deleted stored e1(1) e2(1) cgb.removal [of s2 b] cgb.stored_key [OF stored]
      by (auto simp: m3_def)
  next
    case False
    then have "\<not> set (Finalizers (Meta b)) \<subseteq> {CollectorGroupBindingFinalizer}" using fs by (metis Diff_eq_empty_iff set_empty)
    with False show ?thesis
      using stored e1(1) e2(1) cgb.finalizers_writeback [of s2 b fs] cgb.stored_key [OF stored]
      by (auto simp: m3_def)
  qed
  then obtain x where x: "err_of (result_of m3 s2) = None"
      "abs (state_after m3 s2) = (abs s2)\<lparr>cl_cgbs := (cl_cgbs (abs s2))(k := x)\<rparr>"
      "if set (Finalizers (Meta b)) \<subseteq> {CollectorGroupBindingFinalizer} then x = None
       else \<exists>b'. x = Some b' \<and> Spec b' = Spec b \<and> Status b' = Status b \<and>
            DeletionTimestamp (Meta b') = DeletionTimestamp (Meta b) \<and> set (Finalizers (Meta b')) = set fs"
    by blast
  have run: "run_state (handleDeletion w b) s = (None, state_after m3 s2)"
    using e1(2) e2(2) x(1) by (simp add: code s)
  have "shifted_pc (ref_delta ns prevPC '''') (cl_pcs (abs s)) pcs1"
    using e1(3) by (simp add: ref_delta_def [abs_def] cong: if_cong)
  moreover have "shifted_cg (ref_delta ns prevCG '''') (cl_cgs (abs s)) cgs2"
    using e2(3) e1(1) by (simp add: ref_delta_def [abs_def] cong: if_cong)
  ultimately show ?thesis
    using x(2,3) e1(1) e2(1) unfolding run fs d
    by (intro exI [of _ pcs1] exI [of _ cgs2] exI [of _ x]) simp
qed

lemma reconcile_deleted:
  assumes stored: "cl_cgbs (abs s) (req_Namespace req, req_Name req) = Some b"
    and deleted: "\<not> IsZero (DeletionTimestamp (Meta b))"
  shows "result_of (Binding_Reconcile w r req) s =
           (empty_Result, result_of (handleDeletion w b)
              (state_after (client_Get (CollectorGroupBindings w) (req_Namespace req) (req_Name req)) s))"
    and "state_after (Binding_Reconcile w r req) s = state_after (handleDeletion w b)
           (state_after (client_Get (CollectorGroupBindings w) (req_Namespace req) (req_Name req)) s)"
  using assms cgb.get_found [OF stored] by (simp_all add: Binding_Reconcile_def)

lemma reconcile_deletion:
  assumes stored: "cl_cgbs (abs s) (req_Namespace req, req_Name req) = Some b"
    and deleted: "\<not> IsZero (DeletionTimestamp (Meta b))"
  shows "\<exists>pcs' cgs' x. result_of (Binding_Reconcile w r req) s = (empty_Result, None) \<and>
    abs (state_after (Binding_Reconcile w r req) s) =
      (abs s)\<lparr>cl_pcs := pcs', cl_cgs := cgs',
              cl_cgbs := (cl_cgbs (abs s))((req_Namespace req, req_Name req) := x)\<rparr> \<and>
    shifted_pc (ref_delta (req_Namespace req) (BoundPipelineConfigRef (Status b)) '''') (cl_pcs (abs s)) pcs' \<and>
    shifted_cg (ref_delta (req_Namespace req) (BoundCollectorGroupRef (Status b)) '''') (cl_cgs (abs s)) cgs' \<and>
    (if set (Finalizers (Meta b)) \<subseteq> {CollectorGroupBindingFinalizer} then x = None
     else \<exists>b'. x = Some b' \<and> Spec b' = Spec b \<and> Status b' = Status b \<and>
            DeletionTimestamp (Meta b') = DeletionTimestamp (Meta b) \<and>
            set (Finalizers (Meta b')) = set (Finalizers (Meta b)) - {CollectorGroupBindingFinalizer})"
proof -
  let ?s1 = "state_after (client_Get (CollectorGroupBindings w) (req_Namespace req) (req_Name req)) s"
  have s1: "abs ?s1 = abs s" by (simp add: abs_laws)
  have ns: "Namespace (Meta b) = req_Namespace req"
    using cgb.stored_key [OF stored] by (simp add: key_of_def)
  have "DeletionTimestamp (Meta b) \<noteq> None"
    using deleted by (auto simp: IsZero_def split: option.splits)
  with handleDeletion_effect [of ?s1 "(req_Namespace req, req_Name req)" b] stored
  show ?thesis
    unfolding reconcile_deleted [OF stored deleted] s1 ns by simp
qed

lemma reconcile_first:
  assumes stored: "cl_cgbs (abs s) (req_Namespace req, req_Name req) = Some b"
    and live: "IsZero (DeletionTimestamp (Meta b))"
    and no_finalizer: "CollectorGroupBindingFinalizer \<notin> set (Finalizers (Meta b))"
  shows "\<exists>b'. result_of (Binding_Reconcile w r req) s = (empty_Result, None) \<and>
    abs (state_after (Binding_Reconcile w r req) s) =
      with_cgb (req_Namespace req, req_Name req) b' (abs s) \<and>
    Spec b' = Spec b \<and> Status b' = Status b \<and> DeletionTimestamp (Meta b') = DeletionTimestamp (Meta b) \<and>
    set (Finalizers (Meta b')) = insert CollectorGroupBindingFinalizer (set (Finalizers (Meta b)))"
proof -
  let ?fs = "AddFinalizer w (Finalizers (Meta b)) CollectorGroupBindingFinalizer"
  have "?fs \<noteq> []"
    using add_finalizer [of "Finalizers (Meta b)" CollectorGroupBindingFinalizer] by force
  then show ?thesis
    using assms cgb.stored_key [OF stored]
    by (simp add: Binding_Reconcile_def all_laws add_finalizer)
qed

lemma reconcile_gone:
  assumes "cl_cgbs (abs s) (req_Namespace req, req_Name req) = None"
  shows "result_of (Binding_Reconcile w r req) s = (empty_Result, None)"
    and "abs (state_after (Binding_Reconcile w r req) s) = abs s"
  using cgb.get_missing [OF assms] by (auto simp: Binding_Reconcile_def abs_laws)

lemma reconcile_unresolved:
  assumes stored: "cl_cgbs (abs s) (req_Namespace req, req_Name req) = Some b"
    and live: "IsZero (DeletionTimestamp (Meta b))"
    and finalizer: "CollectorGroupBindingFinalizer \<in> set (Finalizers (Meta b))"
    and missing: "cl_pcs (abs s) (req_Namespace req, PipelineConfigRef (Spec b)) = None \<or>
      CollectorGroupRef (Spec b) \<noteq> '''' \<and>
      cl_cgs (abs s) (req_Namespace req, CollectorGroupRef (Spec b)) = None"
  shows "\<exists>b' e. result_of (Binding_Reconcile w r req) s = (empty_Result, Some e) \<and> IsNotFound w e \<and>
    abs (state_after (Binding_Reconcile w r req) s) =
      with_cgb (req_Namespace req, req_Name req) b' (abs s) \<and>
    degraded b (if cl_pcs (abs s) (req_Namespace req, PipelineConfigRef (Spec b)) = None
                then ''PipelineConfigNotFound'' else ''CollectorGroupNotFound'') b'"
proof -
  let ?s1 = "state_after (client_Get (CollectorGroupBindings w) (req_Namespace req) (req_Name req)) s"
  have s1: "abs ?s1 = abs s" by (simp add: abs_laws)
  have ns: "Namespace (Meta b) = req_Namespace req"
    using cgb.stored_key [OF stored] by (simp add: key_of_def)
  have "\<exists>b' e. snd (result_of (validateRefs w b) ?s1) = Inl e \<and> IsNotFound w e \<and>
      abs (state_after (validateRefs w b) ?s1) = with_cgb (req_Namespace req, req_Name req) b' (abs s) \<and>
      degraded b (if cl_pcs (abs s) (req_Namespace req, PipelineConfigRef (Spec b)) = None
                then ''PipelineConfigNotFound'' else ''CollectorGroupNotFound'') b'"
  proof (cases "cl_pcs (abs s) (req_Namespace req, PipelineConfigRef (Spec b))")
    case None
    with validateRefs_no_config [of ?s1 "(req_Namespace req, req_Name req)" b] stored show ?thesis
      by (auto simp: s1 ns)
  next
    case (Some pc)
    with validateRefs_no_group [of ?s1 "(req_Namespace req, req_Name req)" b pc] stored missing show ?thesis
      by (auto simp: s1 ns)
  qed
  then show ?thesis
    using live finalizer cgb.get_found [OF stored]
    by (auto simp: Binding_Reconcile_def contains_finalizer split_beta)
qed

text \<open>The paths of a reconcile, by what is stored.\<close>

lemma reconcile_paths:
  obtains (gone) "cl_cgbs (abs s) (req_Namespace req, req_Name req) = None"
    | (deleted) b where "cl_cgbs (abs s) (req_Namespace req, req_Name req) = Some b"
      "\<not> IsZero (DeletionTimestamp (Meta b))"
    | (first) b where "cl_cgbs (abs s) (req_Namespace req, req_Name req) = Some b"
      "IsZero (DeletionTimestamp (Meta b))" "CollectorGroupBindingFinalizer \<notin> set (Finalizers (Meta b))"
    | (missing) b where "cl_cgbs (abs s) (req_Namespace req, req_Name req) = Some b"
      "IsZero (DeletionTimestamp (Meta b))" "CollectorGroupBindingFinalizer \<in> set (Finalizers (Meta b))"
      "cl_pcs (abs s) (req_Namespace req, PipelineConfigRef (Spec b)) = None \<or>
       CollectorGroupRef (Spec b) \<noteq> '''' \<and>
       cl_cgs (abs s) (req_Namespace req, CollectorGroupRef (Spec b)) = None"
    | (bound) b pc where "cl_cgbs (abs s) (req_Namespace req, req_Name req) = Some b"
      "IsZero (DeletionTimestamp (Meta b))" "CollectorGroupBindingFinalizer \<in> set (Finalizers (Meta b))"
      "cl_pcs (abs s) (req_Namespace req, PipelineConfigRef (Spec b)) = Some pc"
      "CollectorGroupRef (Spec b) \<noteq> '''' \<Longrightarrow>
       cl_cgs (abs s) (req_Namespace req, CollectorGroupRef (Spec b)) \<noteq> None"
  by (metis not_Some_eq)

end

section \<open>Lemmas: the eviction instant\<close>

context kube_clock
begin

lemma counters_advance:
  "advances clock (decrementPipelineConfigActiveBindings w ns n)"
  "advances clock (incrementPipelineConfigActiveBindings w ns n)"
  "advances clock (decrementCollectorGroupActiveBindings w ns n)"
  "advances clock (incrementCollectorGroupActiveBindings w ns n)"
  unfolding decrementPipelineConfigActiveBindings_def incrementPipelineConfigActiveBindings_def
    decrementCollectorGroupActiveBindings_def incrementCollectorGroupActiveBindings_def
    getPipelineConfig_def getCollectorGroup_def
  by (intro clock_rules)+

lemma validateRefs_advances: "advances clock (validateRefs w b)"
  unfolding validateRefs_def setRefsInvalid_def getPipelineConfig_def getCollectorGroup_def Let_def
  by (intro clock_rules)

lemma manageCounters_advances: "advances clock (manageCounters w b)"
  unfolding manageCounters_def Let_def by (intro clock_rules counters_advance)

lemma evictAndPublish_advances: "advances clock (evictAndPublish w r b pc)"
  unfolding evictAndPublish_def evictStaleTenants_def countEvicted_def Let_def
  by (intro clock_rules)

text \<open>The eviction instant of a successful reconcile lies between its start and its end.\<close>

lemma eviction_clock_bounds:
  assumes got: "result_of (client_Get (CollectorGroupBindings w) (req_Namespace req) (req_Name req)) s = Inr b"
    and live: "IsZero (DeletionTimestamp (Meta b))"
    and finalizer: "ContainsFinalizer w (Finalizers (Meta b)) CollectorGroupBindingFinalizer"
    and ok: "snd (result_of (Binding_Reconcile w r req) s) = None"
  shows "clock s \<le> eviction_clock w req s"
    and "eviction_clock w req s \<le> clock (state_after (Binding_Reconcile w r req) s)"
proof -
  define s1 where "s1 = state_after (client_Get (CollectorGroupBindings w) (req_Namespace req) (req_Name req)) s"
  obtain b1 v where v: "result_of (validateRefs w b) s1 = (b1, v)" by fastforce
  define s2 where "s2 = state_after (validateRefs w b) s1"
  define s3 where "s3 = state_after (manageCounters w b1) s2"
  have at: "eviction_clock w req s = clock s3"
    using got v by (simp add: eviction_clock_def s1_def [symmetric] s2_def [symmetric] s3_def now_reads)
  have "clock s \<le> clock s1"
    unfolding s1_def by (rule advancesD) (rule client_advancesD [OF cgb_advances])
  also have "\<dots> \<le> clock s2"
    unfolding s2_def by (rule advancesD) (rule validateRefs_advances)
  also have "\<dots> \<le> clock s3"
    unfolding s3_def by (rule advancesD) (rule manageCounters_advances)
  finally show "clock s \<le> eviction_clock w req s" unfolding at .
  from ok obtain pc where "run_state (Binding_Reconcile w r req) s = run_state (evictAndPublish w r b1 pc) s3"
    using got live finalizer v
    by (auto simp: Binding_Reconcile_def s1_def [symmetric] s2_def [symmetric] s3_def [symmetric]
        split: sum.splits if_splits)
  then show "eviction_clock w req s \<le> clock (state_after (Binding_Reconcile w r req) s)"
    unfolding at using advancesD [OF evictAndPublish_advances, of s3 r b1 pc] by simp
qed

end

section \<open>Lemmas: the watch mapping\<close>

context kube_reader
begin

lemma enqueue_requests:
  "set (result_of (enqueueBindingsForPipelineConfig w pc) s) =
     {\<lparr>req_Namespace = Namespace (Meta pc), req_Name = n\<rparr> | n.
        \<exists>b. cl_cgbs (abs s) (Namespace (Meta pc), n) = Some b \<and> PipelineConfigRef (Spec b) = Name (Meta pc)}"
  "abs (state_after (enqueueBindingsForPipelineConfig w pc) s) = abs s"
proof -
  obtain bs where bs: "result_of (client_List (CollectorGroupBindings w) (Namespace (Meta pc))
      (MatchingFields IndexPipelineConfigRef (Name (Meta pc)))) s = Inr bs"
    "set bs = matching (cl_cgbs (abs s)) binding_index (Namespace (Meta pc))
      (MatchingFields IndexPipelineConfigRef (Name (Meta pc)))"
    using cgb.list_found [of "MatchingFields IndexPipelineConfigRef (Name (Meta pc))" "Namespace (Meta pc)" s]
    by auto
  have key: "Namespace (Meta b) = ns \<and> Name (Meta b) = n" if "cl_cgbs (abs s) (ns, n) = Some b" for ns n b
    using cgb.stored_key [OF that] by (simp add: key_of_def)
  let ?ns = "Namespace (Meta pc)" and ?m = "cl_cgbs (abs s)"
  have run: "result_of (enqueueBindingsForPipelineConfig w pc) s =
      map (\<lambda>b. \<lparr>req_Namespace = Namespace (Meta b), req_Name = Name (Meta b)\<rparr>) bs"
    by (simp add: enqueueBindingsForPipelineConfig_def bs(1))
  have mem: "b \<in> set bs \<longleftrightarrow> (\<exists>n. ?m (?ns, n) = Some b \<and> PipelineConfigRef (Spec b) = Name (Meta pc))" for b
    using bs(2) by simp
  show "set (result_of (enqueueBindingsForPipelineConfig w pc) s) =
     {\<lparr>req_Namespace = Namespace (Meta pc), req_Name = n\<rparr> | n.
        \<exists>b. cl_cgbs (abs s) (Namespace (Meta pc), n) = Some b \<and> PipelineConfigRef (Spec b) = Name (Meta pc)}"
    unfolding run set_map
  proof (intro equalityI subsetI)
    fix q assume "q \<in> (\<lambda>b. \<lparr>req_Namespace = Namespace (Meta b), req_Name = Name (Meta b)\<rparr>) ` set bs"
    then obtain b n where "q = \<lparr>req_Namespace = Namespace (Meta b), req_Name = Name (Meta b)\<rparr>"
      "?m (?ns, n) = Some b" "PipelineConfigRef (Spec b) = Name (Meta pc)" using mem by blast
    with key [of ?ns n b] show "q \<in> {\<lparr>req_Namespace = ?ns, req_Name = n\<rparr> | n.
        \<exists>b. ?m (?ns, n) = Some b \<and> PipelineConfigRef (Spec b) = Name (Meta pc)}" by blast
  next
    fix q assume "q \<in> {\<lparr>req_Namespace = ?ns, req_Name = n\<rparr> | n.
        \<exists>b. ?m (?ns, n) = Some b \<and> PipelineConfigRef (Spec b) = Name (Meta pc)}"
    then obtain n b where "q = \<lparr>req_Namespace = ?ns, req_Name = n\<rparr>" "?m (?ns, n) = Some b"
      "PipelineConfigRef (Spec b) = Name (Meta pc)" by blast
    with key [of ?ns n b] mem show "q \<in> (\<lambda>b. \<lparr>req_Namespace = Namespace (Meta b), req_Name = Name (Meta b)\<rparr>) ` set bs"
      by (intro image_eqI [of _ _ b]) auto
  qed
  show "abs (state_after (enqueueBindingsForPipelineConfig w pc) s) = abs s"
    by (simp add: enqueueBindingsForPipelineConfig_def cgb.list_abs)
qed

end

lemma sint_minus_pos:
  fixes d :: int64
  assumes "0 < sint d"
  shows "sint (- d) = - sint d"
proof -
  have "sint d < 2 ^ 63" using sint_range_size [of d] by (simp add: word_size)
  with assms show ?thesis by (simp add: sint_word_minus signed_take_bit_int_eq_self)
qed

end
