(* ===== verification/Counter_Invariant.thy ===== *)
theory Counter_Invariant
  imports Binding_Controller
begin

text \<open>
  What the \<open>activeBindings\<close> counters promise: the counter of a resource is the number of bindings
  whose status says they are bound to it. Every reconcile of every controller keeps this in a
  cluster without faults. The lemmas are stated for the counters of some of the resources, so that
  they also serve when others have been disturbed.
\<close>

section \<open>The invariant\<close>

definition bound_keys ::
  "(CollectorGroupBindingStatus \<Rightarrow> string) \<Rightarrow> (object_key \<rightharpoonup> CollectorGroupBinding) \<Rightarrow>
   string \<Rightarrow> string \<Rightarrow> object_key set" where
  "bound_keys ref m ns n = {k. fst k = ns \<and> (\<exists>b. m k = Some b \<and> ref (Status b) = n)}"

abbreviation bound_count ::
  "(CollectorGroupBindingStatus \<Rightarrow> string) \<Rightarrow> (object_key \<rightharpoonup> CollectorGroupBinding) \<Rightarrow>
   string \<Rightarrow> string \<Rightarrow> int64" where
  "bound_count ref m ns n \<equiv> of_nat (card (bound_keys ref m ns n))"

definition counters_ok :: "cluster \<Rightarrow> bool" where
  "counters_ok c \<longleftrightarrow>
     finite (dom (cl_cgbs c)) \<and>
     (\<forall>ns. cl_pcs c (ns, '''') = None \<and> cl_cgs c (ns, '''') = None) \<and>
     (\<forall>ns n pc. cl_pcs c (ns, n) = Some pc \<longrightarrow>
        pc_ActiveBindings (Status pc) = bound_count BoundPipelineConfigRef (cl_cgbs c) ns n) \<and>
     (\<forall>ns n cg. cl_cgs c (ns, n) = Some cg \<longrightarrow>
        cg_ActiveBindings (Status cg) = bound_count BoundCollectorGroupRef (cl_cgbs c) ns n)"

text \<open>The same for the PipelineConfigs in \<open>A\<close> and the CollectorGroups in \<open>B\<close> alone.\<close>

definition counters_on :: "object_key set \<Rightarrow> object_key set \<Rightarrow> cluster \<Rightarrow> bool" where
  "counters_on A B c \<longleftrightarrow>
     finite (dom (cl_cgbs c)) \<and>
     (\<forall>ns. cl_pcs c (ns, '''') = None \<and> cl_cgs c (ns, '''') = None) \<and>
     (\<forall>ns n pc. (ns, n) \<in> A \<longrightarrow> cl_pcs c (ns, n) = Some pc \<longrightarrow>
        pc_ActiveBindings (Status pc) = bound_count BoundPipelineConfigRef (cl_cgbs c) ns n) \<and>
     (\<forall>ns n cg. (ns, n) \<in> B \<longrightarrow> cl_cgs c (ns, n) = Some cg \<longrightarrow>
        cg_ActiveBindings (Status cg) = bound_count BoundCollectorGroupRef (cl_cgbs c) ns n)"

lemma counters_ok_on: "counters_ok c \<longleftrightarrow> counters_on UNIV UNIV c"
  by (simp add: counters_ok_def counters_on_def)

lemma counters_onD:
  assumes "counters_on A B c"
  shows "finite (dom (cl_cgbs c))" "cl_pcs c (ns, '''') = None" "cl_cgs c (ns, '''') = None"
    "(ns, n) \<in> A \<Longrightarrow> cl_pcs c (ns, n) = Some pc \<Longrightarrow>
       pc_ActiveBindings (Status pc) = bound_count BoundPipelineConfigRef (cl_cgbs c) ns n"
    "(ns, n) \<in> B \<Longrightarrow> cl_cgs c (ns, n) = Some cg \<Longrightarrow>
       cg_ActiveBindings (Status cg) = bound_count BoundCollectorGroupRef (cl_cgbs c) ns n"
  using assms unfolding counters_on_def by blast+

section \<open>Counting\<close>

definition ref_of ::
  "(CollectorGroupBindingStatus \<Rightarrow> string) \<Rightarrow> CollectorGroupBinding option \<Rightarrow> string" where
  "ref_of ref x = (case x of None \<Rightarrow> '''' | Some b \<Rightarrow> ref (Status b))"

lemma ref_of_simps [simp]:
  "ref_of ref None = ''''"
  "ref_of ref (Some b) = ref (Status b)"
  by (simp_all add: ref_of_def)

lemma in_bound_keys:
  "n \<noteq> '''' \<Longrightarrow> k \<in> bound_keys ref m ns n \<longleftrightarrow> fst k = ns \<and> ref_of ref (m k) = n"
  by (auto simp: bound_keys_def ref_of_def split: option.splits)

lemma finite_bound_keys: "finite (dom m) \<Longrightarrow> finite (bound_keys ref m ns n)"
  by (rule finite_subset [of _ "dom m"]) (auto simp: bound_keys_def)

text \<open>Replacing one binding changes a count by what the move of its reference owes.\<close>

lemma bound_count_move:
  assumes fin: "finite (dom m)" and n: "n \<noteq> ''''"
  shows "bound_count ref (m(k := x)) ns n =
           bound_count ref m ns n + ref_delta (fst k) (ref_of ref (m k)) (ref_of ref x) (ns, n)"
proof -
  define rest where "rest = bound_keys ref m ns n - {k}"
  have fin': "finite rest" and notin: "k \<notin> rest"
    using finite_bound_keys [OF fin] by (simp_all add: rest_def)
  have old: "bound_keys ref m ns n = (if fst k = ns \<and> ref_of ref (m k) = n then insert k rest else rest)"
    using in_bound_keys [OF n, of k ref m ns] by (auto simp: rest_def)
  have new: "bound_keys ref (m(k := x)) ns n =
      (if fst k = ns \<and> ref_of ref x = n then insert k rest else rest)"
    using in_bound_keys [OF n] by (auto simp: rest_def split: if_splits)
  show ?thesis
    unfolding old new using fin' notin n by (auto simp: ref_delta_def delta_def)
qed

section \<open>Preservation\<close>

text \<open>
  The one step every reconcile amounts to: one binding is replaced or removed and the counters move
  by what that owes.
\<close>

lemma counters_on_move:
  assumes ok: "counters_on A B c"
    and pcs: "shifted_pc dp (cl_pcs c) pcs'"
      "\<And>k. k \<in> A \<Longrightarrow> dp k = ref_delta ns (ref_of BoundPipelineConfigRef (cl_cgbs c (ns, nm)))
        (ref_of BoundPipelineConfigRef x) k"
    and cgs: "shifted_cg dg (cl_cgs c) cgs'"
      "\<And>k. k \<in> B \<Longrightarrow> dg k = ref_delta ns (ref_of BoundCollectorGroupRef (cl_cgbs c (ns, nm)))
        (ref_of BoundCollectorGroupRef x) k"
  shows "counters_on A B (c\<lparr>cl_pcs := pcs', cl_cgs := cgs', cl_cgbs := (cl_cgbs c)((ns, nm) := x),
           cl_metrics := l\<rparr>)"
proof -
  note ok' = counters_onD [OF ok]
  have names: "pcs' (ns', '''') = None" "cgs' (ns', '''') = None" for ns'
    using ok'(2,3) shiftedD(1) [OF pcs(1)] shiftedD(1) [OF cgs(1)] by simp_all
  have pc: "pc_ActiveBindings (Status pc) =
      bound_count BoundPipelineConfigRef ((cl_cgbs c)((ns, nm) := x)) ns' n"
    if "(ns', n) \<in> A" "pcs' (ns', n) = Some pc" for ns' n pc
  proof -
    from shiftedD(2) [OF pcs(1) that(2)] obtain pc0 where "cl_pcs c (ns', n) = Some pc0"
      "Status pc = pc_ActiveBindings_update (\<lambda>i. i + dp (ns', n)) (Status pc0)"
      by blast
    moreover have "n \<noteq> ''''" using that names by auto
    ultimately show ?thesis
      using ok'(4) that(1) pcs(2) by (simp add: bound_count_move [OF ok'(1)])
  qed
  have cg: "cg_ActiveBindings (Status cg) =
      bound_count BoundCollectorGroupRef ((cl_cgbs c)((ns, nm) := x)) ns' n"
    if "(ns', n) \<in> B" "cgs' (ns', n) = Some cg" for ns' n cg
  proof -
    from shiftedD(2) [OF cgs(1) that(2)] obtain cg0 where "cl_cgs c (ns', n) = Some cg0"
      "Status cg = cg_ActiveBindings_update (\<lambda>i. i + dg (ns', n)) (Status cg0)"
      by blast
    moreover have "n \<noteq> ''''" using that names by auto
    ultimately show ?thesis
      using ok'(5) that(1) cgs(2) by (simp add: bound_count_move [OF ok'(1)])
  qed
  show ?thesis
    unfolding counters_on_def using ok'(1) names pc cg by simp
qed

lemma ref_delta_same [simp]: "ref_delta ns n n = (\<lambda>_. 0)"
  by (simp add: ref_delta_def fun_eq_iff)

lemma ref_delta_elsewhere: "fst k \<noteq> ns \<Longrightarrow> ref_delta ns a b k = 0"
  by (auto simp: ref_delta_def delta_def)

text \<open>A binding is replaced, appears or goes without a change of what it is bound to.\<close>

lemma counters_on_same_refs:
  assumes "counters_on A B c"
    and "ref_of BoundPipelineConfigRef x = ref_of BoundPipelineConfigRef (cl_cgbs c k)"
    and "ref_of BoundCollectorGroupRef x = ref_of BoundCollectorGroupRef (cl_cgbs c k)"
  shows "counters_on A B (c\<lparr>cl_cgbs := (cl_cgbs c)(k := x)\<rparr>)"
proof -
  obtain ns nm where k: "k = (ns, nm)" by (cases k)
  have "counters_on A B (c\<lparr>cl_pcs := cl_pcs c, cl_cgs := cl_cgs c, cl_cgbs := (cl_cgbs c)((ns, nm) := x),
      cl_metrics := cl_metrics c\<rparr>)"
    using assms(2,3) by (intro counters_on_move [OF assms(1) shifted_refl_pc _ shifted_refl_cg]) (simp_all add: k)
  then show ?thesis by (simp add: k)
qed

lemma counters_on_replace:
  assumes "counters_on A B c"
  shows "\<forall>pc'. x = Some pc' \<longrightarrow> (\<exists>pc. cl_pcs c k = Some pc \<and>
           pc_ActiveBindings (Status pc') = pc_ActiveBindings (Status pc)) \<Longrightarrow>
         counters_on A B (c\<lparr>cl_pcs := (cl_pcs c)(k := x)\<rparr>)"
    and "\<forall>cg'. y = Some cg' \<longrightarrow> (\<exists>cg. cl_cgs c k = Some cg \<and>
           cg_ActiveBindings (Status cg') = cg_ActiveBindings (Status cg)) \<Longrightarrow>
         counters_on A B (c\<lparr>cl_cgs := (cl_cgs c)(k := y)\<rparr>)"
  using assms by (fastforce simp: counters_on_def)+

text \<open>
  With fewer bindings than a signed 64-bit counter can count, a counter that is not positive means
  that nothing is bound: the test of the deletion guards is exact.
\<close>

definition few_bindings :: "cluster \<Rightarrow> bool" where
  "few_bindings c \<longleftrightarrow> card (dom (cl_cgbs c)) < 2 ^ 63"

lemma sint_of_nat_small: "n < 2 ^ 63 \<Longrightarrow> sint (of_nat n :: int64) = int n"
  by (simp add: signed_of_nat signed_take_bit_int_eq_self)

lemma bound_count_nonpos:
  assumes "finite (dom m)" "card (dom m) < 2 ^ 63"
  shows "sint (bound_count ref m ns n :: int64) \<le> 0 \<longleftrightarrow> bound_keys ref m ns n = {}"
proof -
  have "card (bound_keys ref m ns n) \<le> card (dom m)"
    using assms(1) by (rule card_mono) (auto simp: bound_keys_def)
  with assms show ?thesis
    using finite_bound_keys [OF assms(1), of ref ns n] by (simp add: sint_of_nat_small)
qed

lemma guard_exact:
  assumes "counters_on A B c" "few_bindings c"
  shows "(ns, n) \<in> A \<Longrightarrow> cl_pcs c (ns, n) = Some pc \<Longrightarrow>
           sint (pc_ActiveBindings (Status pc)) \<le> 0 \<longleftrightarrow> bound_keys BoundPipelineConfigRef (cl_cgbs c) ns n = {}"
    and "(ns, n) \<in> B \<Longrightarrow> cl_cgs c (ns, n) = Some cg \<Longrightarrow>
           sint (cg_ActiveBindings (Status cg)) \<le> 0 \<longleftrightarrow> bound_keys BoundCollectorGroupRef (cl_cgbs c) ns n = {}"
  using assms by (simp_all add: counters_on_def few_bindings_def bound_count_nonpos)

text \<open>
  What one reconcile of a binding does, on any path: the binding is replaced or removed, and the
  counters of what it was bound to and of what it is released to or bound to now move. A binding
  that carries no finalizer but the controller's own ends up bound to exactly what the
  counters say; a live one keeps a finalizer and is bound to what it was bound to or to resources that
  exist.
\<close>

definition keeps_bound :: "cluster \<Rightarrow> string \<Rightarrow> CollectorGroupBinding \<Rightarrow> CollectorGroupBinding \<Rightarrow> bool" where
  "keeps_bound c ns b b' \<longleftrightarrow>
     set (Finalizers (Meta b')) \<subseteq> insert CollectorGroupBindingFinalizer (set (Finalizers (Meta b))) \<and>
     (Finalizers (Meta b') = [] \<longrightarrow> Finalizers (Meta b) = []) \<and>
     (BoundPipelineConfigRef (Status b') = BoundPipelineConfigRef (Status b) \<or>
        Finalizers (Meta b') \<noteq> [] \<and> cl_pcs c (ns, BoundPipelineConfigRef (Status b')) \<noteq> None) \<and>
     (BoundCollectorGroupRef (Status b') = BoundCollectorGroupRef (Status b) \<or> BoundCollectorGroupRef (Status b') = '''' \<or>
        Finalizers (Meta b') \<noteq> [] \<and> cl_cgs c (ns, BoundCollectorGroupRef (Status b')) \<noteq> None)"

context kube_world
begin

lemma Binding_Reconcile_step [consumes 3, case_names gone moved]:
  assumes names: "\<And>ns. cl_pcs (abs s) (ns, '''') = None"
    and k: "k = (req_Namespace req, req_Name req)" and s': "s' = state_after (Binding_Reconcile w r req) s"
  obtains (gone) "abs s' = abs s"
    | (moved) b x rp rg pcs' cgs' l where "cl_cgbs (abs s) k = Some b"
      "abs s' = (abs s)\<lparr>cl_pcs := pcs', cl_cgs := cgs', cl_cgbs := (cl_cgbs (abs s))(k := x), cl_metrics := l\<rparr>"
      "shifted_pc (ref_delta (fst k) (BoundPipelineConfigRef (Status b)) rp) (cl_pcs (abs s)) pcs'"
      "shifted_cg (ref_delta (fst k) (BoundCollectorGroupRef (Status b)) rg) (cl_cgs (abs s)) cgs'"
      "set (Finalizers (Meta b)) \<subseteq> {CollectorGroupBindingFinalizer} \<or> IsZero (DeletionTimestamp (Meta b)) \<Longrightarrow>
         rp = ref_of BoundPipelineConfigRef x \<and> rg = ref_of BoundCollectorGroupRef x"
      "set (Finalizers (Meta b)) \<subseteq> {CollectorGroupBindingFinalizer} \<Longrightarrow>
         \<forall>b'. x = Some b' \<longrightarrow> keeps_bound (abs s) (fst k) b b'"
proof (cases rule: reconcile_paths [of s req])
  case gone
  with that(1) show ?thesis by (simp add: s' reconcile_gone)
next
  case (deleted b)
  from reconcile_deletion [OF this, of r] obtain pcs' cgs' x where
    "abs s' = (abs s)\<lparr>cl_pcs := pcs', cl_cgs := cgs', cl_cgbs := (cl_cgbs (abs s))(k := x)\<rparr>"
    "shifted_pc (ref_delta (fst k) (BoundPipelineConfigRef (Status b)) '''') (cl_pcs (abs s)) pcs'"
    "shifted_cg (ref_delta (fst k) (BoundCollectorGroupRef (Status b)) '''') (cl_cgs (abs s)) cgs'"
    "set (Finalizers (Meta b)) \<subseteq> {CollectorGroupBindingFinalizer} \<Longrightarrow> x = None"
    by (auto simp: s' k split: if_splits)
  with deleted that(2) [of b "cl_metrics (abs s)" x cgs' pcs' "''''" "''''"] show ?thesis by (simp add: k)
next
  case (first b)
  from reconcile_first [OF this] obtain b' where b': "abs s' = with_cgb k b' (abs s)" "Status b' = Status b"
    "set (Finalizers (Meta b')) = insert CollectorGroupBindingFinalizer (set (Finalizers (Meta b)))"
    by (auto simp: s' k)
  then have "Finalizers (Meta b') \<noteq> []" by auto
  with b' first(1) that(2) [of b "cl_metrics (abs s)" "Some b'" "cl_cgs (abs s)" "cl_pcs (abs s)"
      "BoundPipelineConfigRef (Status b)" "BoundCollectorGroupRef (Status b)"]
  show ?thesis by (simp add: k keeps_bound_def)
next
  case (missing b)
  from reconcile_unresolved [OF this, of r] obtain b' reason where b': "abs s' = with_cgb k b' (abs s)"
    "degraded b reason b'" by (auto simp: s' k)
  from b'(2) have "Finalizers (Meta b') = Finalizers (Meta b)" by (simp add: degraded_def same_objectD)
  with b' missing(1) that(2) [of b "cl_metrics (abs s)" "Some b'" "cl_cgs (abs s)" "cl_pcs (abs s)"
      "BoundPipelineConfigRef (Status b)" "BoundCollectorGroupRef (Status b)"]
  show ?thesis by (auto simp: k degraded_def keeps_bound_def)
next
  case (bound b pc)
  from bound(4) names have name: "PipelineConfigRef (Spec b) \<noteq> ''''" by auto
  from reconcile_bound [OF bound(1-4) name bound(5) refl, of r] obtain b' pcs' cgs' now where
    *: "reconciled r now b pc b'"
    "abs s' = (abs s)\<lparr>cl_pcs := pcs', cl_cgs := cgs', cl_cgbs := (cl_cgbs (abs s))(k \<mapsto> b'),
       cl_metrics := cl_metrics (abs s) @ evicted_log r now b\<rparr>"
    "shifted_pc (ref_delta (fst k) (BoundPipelineConfigRef (Status b)) (PipelineConfigRef (Spec b)))
      (cl_pcs (abs s)) pcs'"
    "shifted_cg (ref_delta (fst k) (BoundCollectorGroupRef (Status b)) (CollectorGroupRef (Spec b)))
      (cl_cgs (abs s)) cgs'" by (auto simp: s' k)
  from *(1) have "Finalizers (Meta b') = Finalizers (Meta b)" by (simp add: reconciled_def same_objectD)
  moreover from bound(3) have "Finalizers (Meta b) \<noteq> []" by auto
  ultimately have "keeps_bound (abs s) (fst k) b b'"
    using *(1) bound(4,5) by (auto simp: keeps_bound_def reconciled_def k)
  with * bound(1) that(2) [of b "cl_metrics (abs s) @ evicted_log r now b" "Some b'" cgs' pcs'
      "PipelineConfigRef (Spec b)" "CollectorGroupRef (Spec b)"]
  show ?thesis by (simp add: k reconciled_def)
qed

text \<open>
  A binding that is being deleted and carries no finalizer but the controller's own: the case in
  which the deletion path runs once. The resources of other namespaces are not touched at all.
\<close>

lemma Binding_Reconcile_counters_on:
  assumes ok: "counters_on A B (abs s)"
    and own: "(\<forall>k \<in> A \<union> B. fst k \<noteq> req_Namespace req) \<or>
      (\<forall>b. cl_cgbs (abs s) (req_Namespace req, req_Name req) = Some b \<longrightarrow> \<not> IsZero (DeletionTimestamp (Meta b)) \<longrightarrow>
        set (Finalizers (Meta b)) \<subseteq> {CollectorGroupBindingFinalizer})"
  shows "counters_on A B (abs (state_after (Binding_Reconcile w r req) s))"
  using counters_onD(2) [OF ok] refl refl
proof (cases rule: Binding_Reconcile_step [of s _ req _ r])
  case gone
  with ok show ?thesis by simp
next
  case (moved b x rp rg pcs' cgs' l)
  let ?ns = "req_Namespace req"
  have "rp = ref_of BoundPipelineConfigRef x \<and> rg = ref_of BoundCollectorGroupRef x \<or> (\<forall>k \<in> A \<union> B. fst k \<noteq> ?ns)"
    using own moved(1,5) by blast
  then have "k \<in> A \<Longrightarrow> ref_delta ?ns (BoundPipelineConfigRef (Status b)) rp k =
      ref_delta ?ns (ref_of BoundPipelineConfigRef (cl_cgbs (abs s) (?ns, req_Name req))) (ref_of BoundPipelineConfigRef x) k"
    "k \<in> B \<Longrightarrow> ref_delta ?ns (BoundCollectorGroupRef (Status b)) rg k =
      ref_delta ?ns (ref_of BoundCollectorGroupRef (cl_cgbs (abs s) (?ns, req_Name req))) (ref_of BoundCollectorGroupRef x) k" for k
    using moved(1) by (auto simp: ref_delta_elsewhere)
  with counters_on_move [OF ok moved(3) _ moved(4), of ?ns "req_Name req" x l] show ?thesis
    unfolding moved(2) by simp
qed

lemma Binding_Reconcile_counters:
  assumes "counters_ok (abs s)"
    and "\<And>b. cl_cgbs (abs s) (req_Namespace req, req_Name req) = Some b \<Longrightarrow>
      \<not> IsZero (DeletionTimestamp (Meta b)) \<Longrightarrow> set (Finalizers (Meta b)) \<subseteq> {CollectorGroupBindingFinalizer}"
  shows "counters_ok (abs (state_after (Binding_Reconcile w r req) s))"
  using assms unfolding counters_ok_on by (intro Binding_Reconcile_counters_on) simp_all

text \<open>The controllers of the referenced resources touch one resource and never its counter.\<close>

lemma PipelineConfig_Reconcile_frame:
  "\<exists>x. abs (state_after (PipelineConfig_Reconcile w req) s) =
         (abs s)\<lparr>cl_pcs := (cl_pcs (abs s))((req_Namespace req, req_Name req) := x)\<rparr> \<and>
       (\<forall>pc'. x = Some pc' \<longrightarrow>
          (\<exists>pc. cl_pcs (abs s) (req_Namespace req, req_Name req) = Some pc \<and>
                pc_ActiveBindings (Status pc') = pc_ActiveBindings (Status pc))) \<and>
       (\<forall>pc. cl_pcs (abs s) (req_Namespace req, req_Name req) = Some pc \<longrightarrow> x = None \<longrightarrow>
          DeletionTimestamp (Meta pc) \<noteq> None \<and> sint (pc_ActiveBindings (Status pc)) \<le> 0)"
proof (cases "cl_pcs (abs s) (req_Namespace req, req_Name req)")
  case None
  from pc.get_missing [OF this] None show ?thesis
    by (intro exI [of _ None]) (auto simp: PipelineConfig_Reconcile_def abs_laws fun_upd_idem)
next
  case (Some pc)
  let ?fs = "RemoveFinalizer w (Finalizers (Meta pc)) PipelineConfigFinalizer"
  let ?v = "version (state_after (client_Get (PipelineConfigs w) (req_Namespace req) (req_Name req)) s)"
  have key: "key_of pc = (req_Namespace req, req_Name req)" by (rule pc.stored_key [OF Some])
  have add: "AddFinalizer w fs f \<noteq> []" for fs f
    using add_finalizer [of fs f] by (metis empty_not_insert list.set(1))
  consider (blocked) "\<not> IsZero (DeletionTimestamp (Meta pc))" "0 < sint (pc_ActiveBindings (Status pc))"
    | (removed) "\<not> IsZero (DeletionTimestamp (Meta pc))" "\<not> 0 < sint (pc_ActiveBindings (Status pc))" "?fs = []"
    | (waiting) "\<not> IsZero (DeletionTimestamp (Meta pc))" "\<not> 0 < sint (pc_ActiveBindings (Status pc))" "?fs \<noteq> []"
    | (first) "IsZero (DeletionTimestamp (Meta pc))" "PipelineConfigFinalizer \<notin> set (Finalizers (Meta pc))"
    | (hashed) "IsZero (DeletionTimestamp (Meta pc))" "PipelineConfigFinalizer \<in> set (Finalizers (Meta pc))"
      "Content (Spec pc) \<noteq> ''''"
    | (empty) "IsZero (DeletionTimestamp (Meta pc))" "PipelineConfigFinalizer \<in> set (Finalizers (Meta pc))"
      "Content (Spec pc) = ''''"
    by blast
  then show ?thesis
  proof cases
    case blocked
    then show ?thesis using Some
      by (intro exI [of _ "Some pc"]) (simp add: PipelineConfig_Reconcile_def all_laws fun_upd_idem)
  next
    case removed
    then have "DeletionTimestamp (Meta pc) \<noteq> None" by (auto simp: IsZero_def split: option.splits)
    with removed Some key show ?thesis
      by (intro exI [of _ None]) (simp add: PipelineConfig_Reconcile_def all_laws)
  next
    case waiting
    with Some key show ?thesis
      by (intro exI [of _ "Some (stored_finalizers ?v pc ?fs)"]) (simp add: PipelineConfig_Reconcile_def all_laws)
  next
    case first
    with Some key add show ?thesis
      by (intro exI [of _ "Some (stored_finalizers ?v pc (AddFinalizer w (Finalizers (Meta pc)) PipelineConfigFinalizer))"]) (simp add: PipelineConfig_Reconcile_def all_laws)
  next
    case hashed
    from PipelineConfig_hashed [OF Some this] Some show ?thesis by (metis option.distinct(1) option.inject)
  next
    case empty
    from PipelineConfig_empty_content [OF Some this] Some show ?thesis by (metis option.distinct(1) option.inject)
  qed
qed

lemma CollectorGroup_Reconcile_frame:
  "\<exists>x. abs (state_after (CollectorGroup_Reconcile w req) s) =
         (abs s)\<lparr>cl_cgs := (cl_cgs (abs s))((req_Namespace req, req_Name req) := x)\<rparr> \<and>
       (\<forall>cg'. x = Some cg' \<longrightarrow>
          (\<exists>cg. cl_cgs (abs s) (req_Namespace req, req_Name req) = Some cg \<and>
                cg_ActiveBindings (Status cg') = cg_ActiveBindings (Status cg))) \<and>
       (\<forall>cg. cl_cgs (abs s) (req_Namespace req, req_Name req) = Some cg \<longrightarrow> x = None \<longrightarrow>
          DeletionTimestamp (Meta cg) \<noteq> None \<and> sint (cg_ActiveBindings (Status cg)) \<le> 0)"
proof (cases "cl_cgs (abs s) (req_Namespace req, req_Name req)")
  case None
  from cg.get_missing [OF this] None show ?thesis
    by (intro exI [of _ None]) (auto simp: CollectorGroup_Reconcile_def abs_laws fun_upd_idem)
next
  case (Some cg)
  let ?fs = "RemoveFinalizer w (Finalizers (Meta cg)) CollectorGroupFinalizer"
  let ?v = "version (state_after (client_Get (CollectorGroups w) (req_Namespace req) (req_Name req)) s)"
  have key: "key_of cg = (req_Namespace req, req_Name req)" by (rule cg.stored_key [OF Some])
  have add: "AddFinalizer w fs f \<noteq> []" for fs f
    using add_finalizer [of fs f] by (metis empty_not_insert list.set(1))
  consider (blocked) "\<not> IsZero (DeletionTimestamp (Meta cg))" "0 < sint (cg_ActiveBindings (Status cg))"
    | (removed) "\<not> IsZero (DeletionTimestamp (Meta cg))" "\<not> 0 < sint (cg_ActiveBindings (Status cg))" "?fs = []"
    | (waiting) "\<not> IsZero (DeletionTimestamp (Meta cg))" "\<not> 0 < sint (cg_ActiveBindings (Status cg))" "?fs \<noteq> []"
    | (first) "IsZero (DeletionTimestamp (Meta cg))" "CollectorGroupFinalizer \<notin> set (Finalizers (Meta cg))"
    | (observed) "IsZero (DeletionTimestamp (Meta cg))" "CollectorGroupFinalizer \<in> set (Finalizers (Meta cg))"
    by blast
  then show ?thesis
  proof cases
    case blocked
    then show ?thesis using Some
      by (intro exI [of _ "Some cg"]) (simp add: CollectorGroup_Reconcile_def all_laws fun_upd_idem)
  next
    case removed
    then have "DeletionTimestamp (Meta cg) \<noteq> None" by (auto simp: IsZero_def split: option.splits)
    with removed Some key show ?thesis
      by (intro exI [of _ None]) (simp add: CollectorGroup_Reconcile_def all_laws)
  next
    case waiting
    with Some key show ?thesis
      by (intro exI [of _ "Some (stored_finalizers ?v cg ?fs)"]) (simp add: CollectorGroup_Reconcile_def all_laws)
  next
    case first
    with Some key add show ?thesis
      by (intro exI [of _ "Some (stored_finalizers ?v cg (AddFinalizer w (Finalizers (Meta cg)) CollectorGroupFinalizer))"]) (simp add: CollectorGroup_Reconcile_def all_laws)
  next
    case observed
    from CollectorGroup_observed [OF Some this] obtain cg' where
      "abs (state_after (CollectorGroup_Reconcile w req) s) = with_cg (req_Namespace req, req_Name req) cg' (abs s)"
      "Status cg' = (Status cg)\<lparr>cg_ObservedGeneration := Generation (Meta cg)\<rparr>" by blast
    with Some show ?thesis by (intro exI [of _ "Some cg'"]) simp
  qed
qed

lemma PipelineConfig_Reconcile_counters:
  assumes "counters_ok (abs s)"
  shows "counters_ok (abs (state_after (PipelineConfig_Reconcile w req) s))"
  using PipelineConfig_Reconcile_frame [of req s] counters_on_replace(1) [OF assms [unfolded counters_ok_on]]
  unfolding counters_ok_on by metis

lemma CollectorGroup_Reconcile_counters:
  assumes "counters_ok (abs s)"
  shows "counters_ok (abs (state_after (CollectorGroup_Reconcile w req) s))"
  using CollectorGroup_Reconcile_frame [of req s] counters_on_replace(2) [OF assms [unfolded counters_ok_on]]
  unfolding counters_ok_on by metis

text \<open>The deletion guards: what a reconcile removes is bound by no binding.\<close>

lemma PipelineConfig_Reconcile_safe:
  assumes "counters_on A B (abs s)" "few_bindings (abs s)" and A: "(ns, n) \<in> A"
    and stored: "cl_pcs (abs s) (ns, n) \<noteq> None"
    and removed: "cl_pcs (abs (state_after (PipelineConfig_Reconcile w req) s)) (ns, n) = None"
  shows "bound_keys BoundPipelineConfigRef (cl_cgbs (abs s)) ns n = {}"
proof -
  from stored obtain pc where pc: "cl_pcs (abs s) (ns, n) = Some pc" by blast
  with removed PipelineConfig_Reconcile_frame [of req s]
  have "sint (pc_ActiveBindings (Status pc)) \<le> 0" by (auto split: if_splits)
  with guard_exact(1) [OF assms(1,2) A pc] show ?thesis by simp
qed

lemma CollectorGroup_Reconcile_safe:
  assumes "counters_on A B (abs s)" "few_bindings (abs s)" and B: "(ns, n) \<in> B"
    and stored: "cl_cgs (abs s) (ns, n) \<noteq> None"
    and removed: "cl_cgs (abs (state_after (CollectorGroup_Reconcile w req) s)) (ns, n) = None"
  shows "bound_keys BoundCollectorGroupRef (cl_cgbs (abs s)) ns n = {}"
proof -
  from stored obtain cg where cg: "cl_cgs (abs s) (ns, n) = Some cg" by blast
  with removed CollectorGroup_Reconcile_frame [of req s]
  have "sint (cg_ActiveBindings (Status cg)) \<le> 0" by (auto split: if_splits)
  with guard_exact(2) [OF assms(1,2) B cg] show ?thesis by simp
qed

end

end
