(* ===== verification/Binding_Properties.thy ===== *)
theory Binding_Properties
  imports Counter_Invariant
begin

text \<open>
  The properties of the binding controller: what a reconcile does on each of its paths, how long a
  registered tenant survives, which reconciles a changed PipelineConfig triggers, and that the
  \<open>activeBindings\<close> counters stay exact and the deletion guards that test them are safe.
\<close>

section \<open>Paths of a reconcile\<close>

text \<open>
  C6: A reconcile of a live binding whose references resolve makes it Active, records the references
  it is bound to and the hash of the PipelineConfig, keeps the tenants that are still fresh, moves
  the counters of the old and the new references by exactly what the change of references owes, and
  asks for a requeue after half the TTL when tenants remain.
\<close>

theorem binding_reconcile_binds:
  assumes "kube_world w view wire version"
    and "cl_cgbs (view s) (req_Namespace req, req_Name req) = Some b"
    and "IsZero (DeletionTimestamp (Meta b))"
    and "CollectorGroupBindingFinalizer \<in> set (Finalizers (Meta b))"
    and "cl_pcs (view s) (req_Namespace req, PipelineConfigRef (Spec b)) = Some pc"
    and "PipelineConfigRef (Spec b) \<noteq> ''''"
    and "CollectorGroupRef (Spec b) \<noteq> '''' \<Longrightarrow>
      cl_cgs (view s) (req_Namespace req, CollectorGroupRef (Spec b)) \<noteq> None"
    and "now = eviction_clock w req s"
  shows "\<exists>b' pcs' cgs'. reconciled r now b pc b' \<and>
    result_of (Binding_Reconcile w r req) s =
      (if 0 < sint (CollectorTTL r) \<and> live_tenants r now b \<noteq> []
       then \<lparr>RequeueAfter = Duration_div (CollectorTTL r) 2\<rparr> else empty_Result, None) \<and>
    view (state_after (Binding_Reconcile w r req) s) =
      (view s)\<lparr>cl_pcs := pcs', cl_cgs := cgs',
              cl_cgbs := (cl_cgbs (view s))((req_Namespace req, req_Name req) \<mapsto> b'),
              cl_metrics := cl_metrics (view s) @ evicted_log r now b\<rparr> \<and>
    shifted_pc (ref_delta (req_Namespace req) (BoundPipelineConfigRef (Status b)) (PipelineConfigRef (Spec b)))
      (cl_pcs (view s)) pcs' \<and>
    shifted_cg (ref_delta (req_Namespace req) (BoundCollectorGroupRef (Status b)) (CollectorGroupRef (Spec b)))
      (cl_cgs (view s)) cgs'"
  by (rule kube_world.reconcile_bound [OF assms])

definition sample_five_minutes :: BindingReconciler where
  "sample_five_minutes = \<lparr>CollectorTTL = 300000000000, MetricsEnabled = True\<rparr>"

definition sample_unbound :: CollectorGroupBinding where
  "sample_unbound = sample_binding ''bg'' ''g1'' '''' ''base'' '''' ''''
     [sample_tenant ''t1'' ''c1'' 1900, sample_tenant ''t2'' ''c2'' 100] [CollectorGroupBindingFinalizer] None"

definition sample_cluster :: mem where
  "sample_cluster = sample
     [sample_pc ''base'' ''logging'' ''h1'' 0 [PipelineConfigFinalizer] None]
     [sample_cg ''g1'' 0 [CollectorGroupFinalizer] None] [sample_unbound]"

lemma sample_unbound_simps [simp]:
  "Meta sample_unbound = sample_meta ''bg'' [CollectorGroupBindingFinalizer] None"
  "CollectorGroupRef (Spec sample_unbound) = ''g1''"
  "TenantRef (Spec sample_unbound) = ''''"
  "PipelineConfigRef (Spec sample_unbound) = ''base''"
  "BoundPipelineConfigRef (Status sample_unbound) = ''''"
  "BoundCollectorGroupRef (Status sample_unbound) = ''''"
  "RegisteredTenants (Status sample_unbound) =
     [sample_tenant ''t1'' ''c1'' 1900, sample_tenant ''t2'' ''c2'' 100]"
  by (simp_all add: sample_unbound_def)

lemma sample_cluster_view [simp]:
  "cl_pcs (mem_abs sample_cluster) =
     [(''ns'', ''base'') \<mapsto> sample_pc ''base'' ''logging'' ''h1'' 0 [PipelineConfigFinalizer] None]"
  "cl_cgs (mem_abs sample_cluster) =
     [(''ns'', ''g1'') \<mapsto> sample_cg ''g1'' 0 [CollectorGroupFinalizer] None]"
  "cl_cgbs (mem_abs sample_cluster) = [(''ns'', ''bg'') \<mapsto> sample_unbound]"
  by (simp_all add: sample_cluster_def sample_unbound_def)

theorem binding_reconcile_binds_witness:
  "\<exists>b' pcs' cgs'. reconciled sample_five_minutes (eviction_clock mem_world (sample_req ''bg'') sample_cluster)
      sample_unbound (sample_pc ''base'' ''logging'' ''h1'' 0 [PipelineConfigFinalizer] None) b' \<and>
    cl_cgbs (mem_abs (state_after (Binding_Reconcile mem_world sample_five_minutes (sample_req ''bg''))
      sample_cluster)) (''ns'', ''bg'') = Some b' \<and>
    shifted_pc (ref_delta ''ns'' '''' ''base'') (cl_pcs (mem_abs sample_cluster)) pcs' \<and>
    shifted_cg (ref_delta ''ns'' '''' ''g1'') (cl_cgs (mem_abs sample_cluster)) cgs'"
proof -
  from binding_reconcile_binds [of mem_world mem_abs mem_wire mem_version sample_cluster
      "sample_req ''bg''" sample_unbound "sample_pc ''base'' ''logging'' ''h1'' 0 [PipelineConfigFinalizer] None"
      _ sample_five_minutes]
  obtain b' pcs' cgs' where
    "reconciled sample_five_minutes (eviction_clock mem_world (sample_req ''bg'') sample_cluster)
      sample_unbound (sample_pc ''base'' ''logging'' ''h1'' 0 [PipelineConfigFinalizer] None) b'"
    "cl_cgbs (mem_abs (state_after (Binding_Reconcile mem_world sample_five_minutes (sample_req ''bg''))
      sample_cluster)) (''ns'', ''bg'') = Some b'"
    "shifted_pc (ref_delta ''ns'' '''' ''base'') (cl_pcs (mem_abs sample_cluster)) pcs'"
    "shifted_cg (ref_delta ''ns'' '''' ''g1'') (cl_cgs (mem_abs sample_cluster)) cgs'"
    by auto
  then show ?thesis by blast
qed

text \<open>
  C16: A reconcile of a live binding whose PipelineConfig or CollectorGroup does not exist returns the
  not-found error, marks the binding Degraded with the reason of the first missing reference, and
  changes nothing else: no counter moves and the tenants and bound references stay as they were.
\<close>

theorem binding_reconcile_degrades:
  assumes "kube_world w view wire version"
    and "cl_cgbs (view s) (req_Namespace req, req_Name req) = Some b"
    and "IsZero (DeletionTimestamp (Meta b))"
    and "CollectorGroupBindingFinalizer \<in> set (Finalizers (Meta b))"
    and "cl_pcs (view s) (req_Namespace req, PipelineConfigRef (Spec b)) = None \<or>
      CollectorGroupRef (Spec b) \<noteq> '''' \<and>
      cl_cgs (view s) (req_Namespace req, CollectorGroupRef (Spec b)) = None"
  shows "\<exists>b' e. result_of (Binding_Reconcile w r req) s = (empty_Result, Some e) \<and> IsNotFound w e \<and>
    view (state_after (Binding_Reconcile w r req) s) =
      with_cgb (req_Namespace req, req_Name req) b' (view s) \<and>
    degraded b (if cl_pcs (view s) (req_Namespace req, PipelineConfigRef (Spec b)) = None
                then ''PipelineConfigNotFound'' else ''CollectorGroupNotFound'') b'"
  by (rule kube_world.reconcile_unresolved [OF assms])

theorem binding_reconcile_degrades_witness:
  "\<exists>b' e. result_of (Binding_Reconcile mem_world sample_five_minutes (sample_req ''bg''))
      (sample [] [] [sample_unbound]) = (empty_Result, Some e) \<and>
    cl_cgbs (mem_abs (state_after (Binding_Reconcile mem_world sample_five_minutes (sample_req ''bg''))
      (sample [] [] [sample_unbound]))) (''ns'', ''bg'') = Some b' \<and>
    degraded sample_unbound ''PipelineConfigNotFound'' b'"
  using binding_reconcile_degrades [of mem_world mem_abs mem_wire mem_version
      "sample [] [] [sample_unbound]" "sample_req ''bg''" sample_unbound sample_five_minutes]
  by (auto simp: sample_unbound_def)

text \<open>
  C14: A reconcile of a binding under deletion releases the counter of every reference the binding was
  bound to, and removes the binding when the controller's finalizer was its only one; with another
  finalizer present the binding stays, its bound references unchanged.
\<close>

theorem binding_deletion_releases:
  assumes "kube_world w view wire version"
    and "cl_cgbs (view s) (req_Namespace req, req_Name req) = Some b"
    and "\<not> IsZero (DeletionTimestamp (Meta b))"
  shows "\<exists>pcs' cgs' x. result_of (Binding_Reconcile w r req) s = (empty_Result, None) \<and>
    view (state_after (Binding_Reconcile w r req) s) =
      (view s)\<lparr>cl_pcs := pcs', cl_cgs := cgs',
              cl_cgbs := (cl_cgbs (view s))((req_Namespace req, req_Name req) := x)\<rparr> \<and>
    shifted_pc (ref_delta (req_Namespace req) (BoundPipelineConfigRef (Status b)) '''') (cl_pcs (view s)) pcs' \<and>
    shifted_cg (ref_delta (req_Namespace req) (BoundCollectorGroupRef (Status b)) '''') (cl_cgs (view s)) cgs' \<and>
    (if set (Finalizers (Meta b)) \<subseteq> {CollectorGroupBindingFinalizer} then x = None
     else \<exists>b'. x = Some b' \<and> Spec b' = Spec b \<and> Status b' = Status b \<and>
            DeletionTimestamp (Meta b') = DeletionTimestamp (Meta b) \<and>
            set (Finalizers (Meta b')) = set (Finalizers (Meta b)) - {CollectorGroupBindingFinalizer})"
  by (rule kube_world.reconcile_deletion [OF assms])

definition sample_deleting :: "string list \<Rightarrow> CollectorGroupBinding" where
  "sample_deleting fs = sample_binding ''bt'' '''' ''t1'' ''base'' ''base'' '''' [] fs (Some 5)"

theorem binding_deletion_releases_witness:
  "cl_cgbs (mem_abs (state_after (Binding_Reconcile mem_world sample_five_minutes (sample_req ''bt''))
      (sample [sample_pc ''base'' ''logging'' ''h1'' 1 [PipelineConfigFinalizer] None] []
         [sample_deleting [CollectorGroupBindingFinalizer]]))) (''ns'', ''bt'') = None"
  using binding_deletion_releases [of mem_world mem_abs mem_wire mem_version
      "sample [sample_pc ''base'' ''logging'' ''h1'' 1 [PipelineConfigFinalizer] None] []
         [sample_deleting [CollectorGroupBindingFinalizer]]"
      "sample_req ''bt''" "sample_deleting [CollectorGroupBindingFinalizer]" sample_five_minutes]
  by (auto simp: sample_deleting_def zero_time_def)

section \<open>Eviction\<close>

text \<open>
  C23: The eviction loop, which filters the tenant slice in place through a second slice over the same
  array, computes the filter of the original slice, for every predicate and every slice.
\<close>

theorem eviction_filters_in_place:
  "(case evict_loop keep arr 0 0 of (arr', k) \<Rightarrow> take k arr') = filter keep arr"
  by (rule evict_loop_correct)

text \<open>
  C15: With a positive TTL, a successful reconcile keeps every tenant whose last sighting is less than
  the TTL before the end of the reconcile and evicts every tenant whose last sighting was at least
  the TTL before its start; it never adds a tenant.
\<close>

theorem eviction_window:
  assumes world: "kube_world w view wire version" and time: "kube_clock w clock"
    and stored: "cl_cgbs (view s) (req_Namespace req, req_Name req) = Some b"
    and live: "IsZero (DeletionTimestamp (Meta b))"
    and finalizer: "CollectorGroupBindingFinalizer \<in> set (Finalizers (Meta b))"
    and config: "cl_pcs (view s) (req_Namespace req, PipelineConfigRef (Spec b)) = Some pc"
    and name: "PipelineConfigRef (Spec b) \<noteq> ''''"
    and grp: "CollectorGroupRef (Spec b) \<noteq> '''' \<Longrightarrow>
      cl_cgs (view s) (req_Namespace req, CollectorGroupRef (Spec b)) \<noteq> None"
    and ttl: "0 < sint (CollectorTTL r)"
    and s': "s' = state_after (Binding_Reconcile w r req) s"
  shows "\<exists>b'. cl_cgbs (view s') (req_Namespace req, req_Name req) = Some b' \<and>
    (\<forall>t \<in> set (RegisteredTenants (Status b)).
       (clock s' < LastSeenAt t + sint (CollectorTTL r) \<longrightarrow> t \<in> set (RegisteredTenants (Status b'))) \<and>
       (LastSeenAt t + sint (CollectorTTL r) \<le> clock s \<longrightarrow> t \<notin> set (RegisteredTenants (Status b')))) \<and>
    set (RegisteredTenants (Status b')) \<subseteq> set (RegisteredTenants (Status b))"
proof -
  let ?now = "eviction_clock w req s"
  from kube_world.reconcile_bound [OF world stored live finalizer config name grp refl, of r]
  obtain b' where b': "reconciled r ?now b pc b'" "snd (result_of (Binding_Reconcile w r req) s) = None"
    "cl_cgbs (view s') (req_Namespace req, req_Name req) = Some b'"
    unfolding s' by auto
  from kube_clock.eviction_clock_bounds [OF time _ live _ b'(2)] finalizer
    kube_reader.axioms(3) [OF kube_world.axioms(2) [OF world], THEN resource_reader.get_found, OF stored]
  have bounds: "clock s \<le> ?now" "?now \<le> clock s'"
    by (simp_all add: s' kube_lib.contains_finalizer [OF kube_world.axioms(1) [OF world]])
  have "CollectorTTL r \<noteq> 0" using ttl by auto
  then have "RegisteredTenants (Status b') =
      filter (\<lambda>t. ?now < LastSeenAt t + sint (CollectorTTL r)) (RegisteredTenants (Status b))"
    using b'(1) by (simp add: reconciled_def live_tenants_def fresh_def [abs_def] Time_After_def
      Time_Add_def sint_minus_pos [OF ttl] algebra_simps)
  with b'(3) bounds show ?thesis by auto
qed

theorem eviction_window_witness:
  "\<exists>b'. cl_cgbs (mem_abs (state_after (Binding_Reconcile mem_world sample_five_minutes (sample_req ''bg''))
      sample_cluster)) (''ns'', ''bg'') = Some b' \<and>
    sample_tenant ''t2'' ''c2'' 100 \<notin> set (RegisteredTenants (Status b'))"
proof -
  from eviction_window [of mem_world mem_abs mem_wire mem_version m_clock sample_cluster
      "sample_req ''bg''" sample_unbound "sample_pc ''base'' ''logging'' ''h1'' 0 [PipelineConfigFinalizer] None"
      sample_five_minutes]
  obtain b' where b': "cl_cgbs (mem_abs (state_after (Binding_Reconcile mem_world sample_five_minutes
      (sample_req ''bg'')) sample_cluster)) (''ns'', ''bg'') = Some b'"
    "\<forall>t \<in> set (RegisteredTenants (Status sample_unbound)).
       LastSeenAt t + sint (CollectorTTL sample_five_minutes) \<le> m_clock sample_cluster \<longrightarrow>
       t \<notin> set (RegisteredTenants (Status b'))"
    by (auto simp: sample_five_minutes_def)
  then show ?thesis
    by (auto simp: sample_five_minutes_def sample_cluster_def sample_def seconds_def nanoseconds_per_second_def)
qed

section \<open>Watches\<close>

text \<open>
  C34: A change of a PipelineConfig enqueues exactly the bindings of its namespace whose spec refers to
  it, and reads nothing but the index.
\<close>

theorem enqueue_exactly_referring_bindings:
  assumes "kube_reader w view"
  shows "set (result_of (enqueueBindingsForPipelineConfig w pc) s) =
     {\<lparr>req_Namespace = Namespace (Meta pc), req_Name = n\<rparr> | n.
        \<exists>b. cl_cgbs (view s) (Namespace (Meta pc), n) = Some b \<and> PipelineConfigRef (Spec b) = Name (Meta pc)} \<and>
     view (state_after (enqueueBindingsForPipelineConfig w pc) s) = view s"
  using kube_reader.enqueue_requests [OF assms] by blast

theorem enqueue_exactly_referring_bindings_witness:
  "set (result_of (enqueueBindingsForPipelineConfig mem_world
      (sample_pc ''base'' ''logging'' ''h1'' 0 [] None)) sample_cluster) = {sample_req ''bg''}"
  using enqueue_exactly_referring_bindings [of mem_world mem_abs "sample_pc ''base'' ''logging'' ''h1'' 0 [] None"
      sample_cluster]
  by (auto simp: sample_req_def)

section \<open>Counters\<close>

text \<open>
  In a cluster without faults every reconcile of every controller keeps the \<open>activeBindings\<close>
  counters exact: the counter of each PipelineConfig and CollectorGroup is the number of bindings of
  its namespace whose status says they are bound to it. A binding under deletion is assumed to carry
  no finalizer but the controller's own.
\<close>

theorem reconciles_keep_counters_exact:
  assumes "kube_world w view wire version" and "counters_ok (view s)"
    and "\<And>b. cl_cgbs (view s) (req_Namespace req, req_Name req) = Some b \<Longrightarrow>
      \<not> IsZero (DeletionTimestamp (Meta b)) \<Longrightarrow> set (Finalizers (Meta b)) \<subseteq> {CollectorGroupBindingFinalizer}"
  shows "counters_ok (view (state_after (Binding_Reconcile w r req) s)) \<and>
    counters_ok (view (state_after (PipelineConfig_Reconcile w req) s)) \<and>
    counters_ok (view (state_after (CollectorGroup_Reconcile w req) s))"
  using kube_world.Binding_Reconcile_counters [OF assms]
    kube_world.PipelineConfig_Reconcile_counters [OF assms(1,2)]
    kube_world.CollectorGroup_Reconcile_counters [OF assms(1,2)] by blast

lemma sample_cluster_counters: "counters_ok (mem_abs sample_cluster)"
  by (auto simp: counters_ok_def bound_keys_def)

theorem reconciles_keep_counters_exact_witness:
  "counters_ok (mem_abs (state_after (Binding_Reconcile mem_world sample_five_minutes (sample_req ''bg''))
     sample_cluster))"
  using reconciles_keep_counters_exact [of mem_world mem_abs mem_wire mem_version sample_cluster
      "sample_req ''bg''" sample_five_minutes] sample_cluster_counters
  by simp

text \<open>
  C3: The deletion guards are safe: with exact counters, a PipelineConfig or CollectorGroup that a
  reconcile removes from the cluster is bound by no binding of its namespace.
\<close>

theorem removed_resources_are_unbound:
  assumes "kube_world w view wire version" and "counters_ok (view s)" and "few_bindings (view s)"
  shows "(cl_pcs (view s) (ns, n) \<noteq> None \<and>
          cl_pcs (view (state_after (PipelineConfig_Reconcile w req) s)) (ns, n) = None \<longrightarrow>
          \<not> (\<exists>m b. cl_cgbs (view s) (ns, m) = Some b \<and> BoundPipelineConfigRef (Status b) = n)) \<and>
         (cl_cgs (view s) (ns, n) \<noteq> None \<and>
          cl_cgs (view (state_after (CollectorGroup_Reconcile w req) s)) (ns, n) = None \<longrightarrow>
          \<not> (\<exists>m b. cl_cgbs (view s) (ns, m) = Some b \<and> BoundCollectorGroupRef (Status b) = n))"
proof -
  have "bound_keys ref m ns n = {} \<Longrightarrow> \<not> (\<exists>k b. m (ns, k) = Some b \<and> ref (Status b) = n)" for ref m
    by (auto simp: bound_keys_def)
  then show ?thesis
    using kube_world.PipelineConfig_Reconcile_safe [OF assms(1) assms(2) [unfolded counters_ok_on] assms(3), of ns n req]
      kube_world.CollectorGroup_Reconcile_safe [OF assms(1) assms(2) [unfolded counters_ok_on] assms(3), of ns n req] by blast
qed

definition sample_removable :: mem where
  "sample_removable = sample [sample_pc ''base'' ''logging'' ''h1'' 0 [PipelineConfigFinalizer] (Some 5)] [] []"

theorem removed_resources_are_unbound_witness:
  "cl_pcs (mem_abs (state_after (PipelineConfig_Reconcile mem_world (sample_req ''base'')) sample_removable))
     (''ns'', ''base'') = None \<and>
   \<not> (\<exists>m b. cl_cgbs (mem_abs sample_removable) (''ns'', m) = Some b \<and> BoundPipelineConfigRef (Status b) = ''base'')"
proof -
  have "counters_ok (mem_abs sample_removable)" "few_bindings (mem_abs sample_removable)"
    by (auto simp: sample_removable_def counters_ok_def bound_keys_def few_bindings_def)
  moreover have "cl_pcs (mem_abs (state_after (PipelineConfig_Reconcile mem_world (sample_req ''base''))
      sample_removable)) (''ns'', ''base'') = None"
    using mem.PipelineConfig_deletion [of sample_removable "sample_req ''base''"
      "sample_pc ''base'' ''logging'' ''h1'' 0 [PipelineConfigFinalizer] (Some 5)"]
    by (simp add: sample_removable_def zero_time_def)
  moreover have "cl_pcs (mem_abs sample_removable) (''ns'', ''base'') \<noteq> None"
    by (simp add: sample_removable_def)
  ultimately show ?thesis
    using removed_resources_are_unbound [of mem_world mem_abs mem_wire mem_version sample_removable
      "''ns''" "''base''" "sample_req ''base''"] by simp
qed

end
