(* ===== verification/Resolver.thy ===== *)
theory Resolver
  imports Sample_Cluster
begin

text \<open>
  Configuration resolution: the port interface \<open>port.ConfigResolver\<close> as a record of operations and,
  for what it promises, as a locale; the implementation on the informer cache
  (\<open>internal/adapter/kubernetes/configresolver.go\<close>) and the decorator that measures it
  (\<open>metrics_configresolver.go\<close>), each shown to meet the contract.
\<close>

section \<open>The port\<close>

record ResolvedConfig =
  res_Content :: string
  res_ContentHash :: string

type_synonym 'e resolution = "'e go_error + ResolvedConfig"

record ('s, 'e) ConfigResolver_port =
  ResolveByTenant :: "string \<Rightarrow> string \<Rightarrow> ('s, 'e resolution) state"
  ResolveByCollectorGroup :: "string \<Rightarrow> string \<Rightarrow> ('s, 'e resolution) state"
  ResolveDefault :: "string \<Rightarrow> ('s, 'e resolution) state"

section \<open>The Kubernetes resolver\<close>

definition toPipelineResult :: "PipelineConfig \<Rightarrow> 'e resolution" where
  "toPipelineResult pc =
     (if ContentHash (Status pc) = '''' then Inl ErrConfigNotReady
      else Inr \<lparr>res_Content = Content (Spec pc), res_ContentHash = ContentHash (Status pc)\<rparr>)"

definition resolveByIndex ::
  "('s, 'e) world \<Rightarrow> string \<Rightarrow> string \<Rightarrow> string \<Rightarrow> ('s, 'e resolution) state" where
  "resolveByIndex w ns indexKey indexValue =
     do { r \<leftarrow> client_List (CollectorGroupBindings w) ns (MatchingFields indexKey indexValue);
          case r of
            Inl err \<Rightarrow> State_Monad.return
              (Inl (Errorf ''listing CollectorGroupBindings by %s: %w'' [indexKey] (Some (ApiError err))))
          | Inr [] \<Rightarrow> State_Monad.return (Inl ErrConfigNotFound)
          | Inr (binding # _) \<Rightarrow>
              do { g \<leftarrow> client_Get (PipelineConfigs w) ns (PipelineConfigRef (Spec binding));
                   State_Monad.return
                     (case g of
                        Inl err \<Rightarrow> Inl (Errorf ''fetching PipelineConfig %q: %w''
                                        [PipelineConfigRef (Spec binding)] (Some (ApiError err)))
                      | Inr pc \<Rightarrow> toPipelineResult pc) } }"

definition resolveDefault_items ::
  "('s, 'e) world \<Rightarrow> string \<Rightarrow> ('s, 'e resolution) state" where
  "resolveDefault_items w ns =
     do { r \<leftarrow> client_List (PipelineConfigs w) ns (MatchingLabels LabelDefaultPipelineConfig ''true'');
          State_Monad.return
            (case r of
               Inl err \<Rightarrow> Inl (Errorf ''listing default PipelineConfigs: %w'' [] (Some (ApiError err)))
             | Inr [] \<Rightarrow> Inl ErrConfigNotFound
             | Inr (pc # _) \<Rightarrow> toPipelineResult pc) }"

definition ConfigResolver :: "('s, 'e) world \<Rightarrow> ('s, 'e) ConfigResolver_port" where
  "ConfigResolver w =
     \<lparr>ResolveByTenant = (\<lambda>ns tenant. resolveByIndex w ns IndexTenantRef tenant),
      ResolveByCollectorGroup = (\<lambda>ns collectorGroup. resolveByIndex w ns IndexCollectorGroupRef collectorGroup),
      ResolveDefault = (\<lambda>ns. resolveDefault_items w ns)\<rparr>"

section \<open>The measuring decorator\<close>

definition classifyOutcome :: "'e resolution \<Rightarrow> string" where
  "classifyOutcome r =
     (case r of
        Inr _ \<Rightarrow> ''found''
      | Inl err \<Rightarrow>
          if errors_Is err ErrConfigNotFound then ''not_found''
          else if errors_Is err ErrConfigNotReady then ''not_ready''
          else ''error'')"

definition observe ::
  "('s, 'e) world \<Rightarrow> string \<Rightarrow> ('s, 'e resolution) state \<Rightarrow> ('s, 'e resolution) state" where
  "observe w resolutionPath fn =
     do { start \<leftarrow> Now w;
          result \<leftarrow> fn;
          now \<leftarrow> Now w;
          let elapsed = now - start;
          let outcome = classifyOutcome result;
          _ \<leftarrow> Emit w (CounterInc ''config_resolution_total'' [resolutionPath, outcome]);
          _ \<leftarrow> Emit w (HistogramObserve ''config_resolution_duration_seconds'' [resolutionPath, outcome] elapsed);
          State_Monad.return result }"

definition MetricsConfigResolver ::
  "('s, 'e) world \<Rightarrow> ('s, 'e) ConfigResolver_port \<Rightarrow> ('s, 'e) ConfigResolver_port" where
  "MetricsConfigResolver w inner =
     \<lparr>ResolveByTenant = (\<lambda>ns tenant. observe w ''tenant'' (ResolveByTenant inner ns tenant)),
      ResolveByCollectorGroup = (\<lambda>ns collectorGroup.
        observe w ''collectorgroup'' (ResolveByCollectorGroup inner ns collectorGroup)),
      ResolveDefault = (\<lambda>ns. observe w ''default'' (ResolveDefault inner ns))\<rparr>"

section \<open>The contract\<close>

text \<open>
  What a resolution may return, on the stored resources alone. A cluster may hold several bindings
  for one target; the resolver serves one of them, so the contract is a relation.
\<close>

definition resolves_config :: "PipelineConfig option \<Rightarrow> 'e resolution \<Rightarrow> bool" where
  "resolves_config x r =
     (case x of
        None \<Rightarrow> \<exists>f args e. r = Inl (Errorf f args (Some (ApiError e)))
      | Some pc \<Rightarrow> r = toPipelineResult pc)"

definition resolves_binding ::
  "cluster \<Rightarrow> string \<Rightarrow> (CollectorGroupBindingSpec \<Rightarrow> bool) \<Rightarrow> 'e resolution \<Rightarrow> bool" where
  "resolves_binding c ns P r \<longleftrightarrow>
     (if \<exists>n b. cl_cgbs c (ns, n) = Some b \<and> P (Spec b)
      then \<exists>n b. cl_cgbs c (ns, n) = Some b \<and> P (Spec b) \<and>
                 resolves_config (cl_pcs c (ns, PipelineConfigRef (Spec b))) r
      else r = Inl ErrConfigNotFound)"

definition is_default :: "PipelineConfig \<Rightarrow> bool" where
  "is_default pc \<longleftrightarrow> Labels (Meta pc) LabelDefaultPipelineConfig = Some ''true''"

definition resolves_default :: "cluster \<Rightarrow> string \<Rightarrow> 'e resolution \<Rightarrow> bool" where
  "resolves_default c ns r \<longleftrightarrow>
     (if \<exists>n pc. cl_pcs c (ns, n) = Some pc \<and> is_default pc
      then \<exists>n pc. cl_pcs c (ns, n) = Some pc \<and> is_default pc \<and> r = toPipelineResult pc
      else r = Inl ErrConfigNotFound)"

definition same_resources :: "cluster \<Rightarrow> cluster \<Rightarrow> bool" where
  "same_resources c c' \<longleftrightarrow> cl_pcs c = cl_pcs c' \<and> cl_cgs c = cl_cgs c' \<and> cl_cgbs c = cl_cgbs c'"

text \<open>
  A resolver of the port reads and never writes; a resolver that is up to date also answers what is
  stored. The first contract is all that the effects of the service rest on.
\<close>

locale read_only_resolver =
  fixes R :: "('s, 'e) ConfigResolver_port"
    and abs :: "'s \<Rightarrow> cluster"
  assumes tenant_frame: "same_resources (abs (state_after (ResolveByTenant R ns tenant) s)) (abs s)"
    and group_frame: "same_resources (abs (state_after (ResolveByCollectorGroup R ns grp) s)) (abs s)"
    and default_frame: "same_resources (abs (state_after (ResolveDefault R ns) s)) (abs s)"

locale config_resolver = read_only_resolver R abs
  for R :: "('s, 'e) ConfigResolver_port"
    and abs :: "'s \<Rightarrow> cluster" +
  assumes by_tenant:
      "tenant \<noteq> '''' \<Longrightarrow>
         resolves_binding (abs s) ns (\<lambda>sp. TenantRef sp = tenant) (result_of (ResolveByTenant R ns tenant) s)"
    and by_group:
      "grp \<noteq> '''' \<Longrightarrow>
         resolves_binding (abs s) ns (\<lambda>sp. CollectorGroupRef sp = grp)
           (result_of (ResolveByCollectorGroup R ns grp) s)"
    and by_default: "resolves_default (abs s) ns (result_of (ResolveDefault R ns) s)"

section \<open>The implementations meet the contract\<close>

lemma same_resources_refl [simp]: "same_resources c c"
  by (simp add: same_resources_def)

lemma same_resources_trans: "same_resources a b \<Longrightarrow> same_resources b c \<Longrightarrow> same_resources a c"
  by (simp add: same_resources_def)

lemma same_resources_metrics [simp]:
  "same_resources (c\<lparr>cl_metrics := l\<rparr>) c' = same_resources c c'"
  by (simp add: same_resources_def)

lemma resolves_cong:
  assumes "same_resources c c'"
  shows "resolves_binding c ns P r = resolves_binding c' ns P r"
    and "resolves_default c ns r = resolves_default c' ns r"
  using assms unfolding same_resources_def resolves_binding_def resolves_default_def
  by (simp_all only:)

lemma resolves_bindingI:
  "cl_cgbs c (ns, n) = Some b \<Longrightarrow> P (Spec b) \<Longrightarrow>
     resolves_config (cl_pcs c (ns, PipelineConfigRef (Spec b))) r \<Longrightarrow> resolves_binding c ns P r"
  unfolding resolves_binding_def by (metis (mono_tags, lifting))

lemma resolves_binding_none:
  "\<not> (\<exists>n b. cl_cgbs c (ns, n) = Some b \<and> P (Spec b)) \<Longrightarrow>
     resolves_binding c ns P r \<longleftrightarrow> r = Inl ErrConfigNotFound"
  unfolding resolves_binding_def by (simp only: if_False)

lemma resolves_defaultI:
  "cl_pcs c (ns, n) = Some pc \<Longrightarrow> is_default pc \<Longrightarrow> resolves_default c ns (toPipelineResult pc)"
  unfolding resolves_default_def by (metis (mono_tags, lifting))

lemma resolves_default_none:
  "\<not> (\<exists>n pc. cl_pcs c (ns, n) = Some pc \<and> is_default pc) \<Longrightarrow>
     resolves_default c ns r \<longleftrightarrow> r = Inl ErrConfigNotFound"
  unfolding resolves_default_def by (simp only: if_False)

context kube_reader
begin

lemma resolveByIndex_correct:
  assumes index: "binding_index k = Some f"
    and P: "\<And>b. v \<in> set (f b) \<longleftrightarrow> P (Spec b)"
  shows "resolves_binding (abs s) ns P (result_of (resolveByIndex w ns k v) s)"
    and "abs (state_after (resolveByIndex w ns k v) s) = abs s"
proof -
  obtain bs where bs: "result_of (client_List (CollectorGroupBindings w) ns (MatchingFields k v)) s = Inr bs"
    "set bs = matching (cl_cgbs (abs s)) binding_index ns (MatchingFields k v)"
    using cgb.list_found [of "MatchingFields k v" ns s] index by auto
  have mem: "b \<in> set bs \<longleftrightarrow> (\<exists>n. cl_cgbs (abs s) (ns, n) = Some b \<and> P (Spec b))" for b
    using bs(2) index P by simp
  let ?s1 = "state_after (client_List (CollectorGroupBindings w) ns (MatchingFields k v)) s"
  have get: "resolves_config (cl_pcs (abs s) (ns, n))
      (case result_of (client_Get (PipelineConfigs w) ns n) ?s1 of
         Inl err \<Rightarrow> Inl (Errorf g args (Some (ApiError err))) | Inr pc \<Rightarrow> toPipelineResult pc)" for n g args
  proof (cases "cl_pcs (abs s) (ns, n)")
    case None
    with pc.get_missing [of ?s1 ns n] show ?thesis by (auto simp: resolves_config_def cgb.list_abs)
  next
    case (Some pc)
    with pc.get_found [of ?s1 ns n] show ?thesis by (auto simp: resolves_config_def cgb.list_abs)
  qed
  show "resolves_binding (abs s) ns P (result_of (resolveByIndex w ns k v) s)"
  proof (cases bs)
    case Nil
    with mem have "\<not> (\<exists>n b. cl_cgbs (abs s) (ns, n) = Some b \<and> P (Spec b))" by auto
    with Nil bs(1) show ?thesis by (simp add: resolves_binding_none resolveByIndex_def)
  next
    case (Cons b bs')
    with mem [of b] obtain n where "cl_cgbs (abs s) (ns, n) = Some b" "P (Spec b)" by auto
    with Cons bs(1) get show ?thesis by (auto simp: resolveByIndex_def intro: resolves_bindingI)
  qed
  show "abs (state_after (resolveByIndex w ns k v) s) = abs s"
    using bs(1) by (cases bs) (simp_all add: resolveByIndex_def cgb.list_abs pc.get_abs)
qed

lemma resolveDefault_correct:
  "resolves_default (abs s) ns (result_of (resolveDefault_items w ns) s)"
  "abs (state_after (resolveDefault_items w ns) s) = abs s"
proof -
  let ?sel = "MatchingLabels LabelDefaultPipelineConfig ''true''"
  obtain pcs where pcs: "result_of (client_List (PipelineConfigs w) ns ?sel) s = Inr pcs"
    "set pcs = matching (cl_pcs (abs s)) Map.empty ns ?sel"
    using pc.list_found [of ?sel ns s] by auto
  have mem: "pc \<in> set pcs \<longleftrightarrow> (\<exists>n. cl_pcs (abs s) (ns, n) = Some pc \<and> is_default pc)" for pc
    using pcs(2) by (simp add: is_default_def)
  show "resolves_default (abs s) ns (result_of (resolveDefault_items w ns) s)"
  proof (cases pcs)
    case Nil
    with mem have "\<not> (\<exists>n pc. cl_pcs (abs s) (ns, n) = Some pc \<and> is_default pc)" by auto
    with Nil pcs(1) show ?thesis by (simp add: resolves_default_none resolveDefault_items_def)
  next
    case (Cons pc pcs')
    with mem [of pc] obtain n where "cl_pcs (abs s) (ns, n) = Some pc" "is_default pc" by auto
    with Cons pcs(1) show ?thesis by (auto simp: resolveDefault_items_def intro: resolves_defaultI)
  qed
  show "abs (state_after (resolveDefault_items w ns) s) = abs s"
    by (simp add: resolveDefault_items_def pc.list_abs)
qed

lemma ConfigResolver_contract: "config_resolver (ConfigResolver w) abs"
  by unfold_locales
    (simp_all add: ConfigResolver_def resolveByIndex_correct resolveDefault_correct)

end

sublocale kube_reader \<subseteq> cached: config_resolver "ConfigResolver w" abs
  by (rule ConfigResolver_contract)

text \<open>The decorator returns what the inner resolver returns and leaves its trace in the metrics.\<close>

locale metered_reader = kube_lib w abs + read_only_resolver R abs
  for w :: "('s, 'e) world"
    and abs :: "'s \<Rightarrow> cluster"
    and R :: "('s, 'e) ConfigResolver_port"
begin

lemma observe_frame:
  assumes "\<And>s. same_resources (abs (state_after fn s)) (abs s)"
  shows "same_resources (abs (state_after (observe w path fn) s)) (abs s)"
  using assms [of "state_after (Now w) s"] by (simp add: observe_def Let_def now_abs emit_abs)

lemma observe_result: "result_of (observe w path fn) s = result_of fn (state_after (Now w) s)"
  by (simp add: observe_def Let_def)

lemma observe_metrics:
  "\<exists>d. cl_metrics (abs (state_after (observe w path fn) s)) =
     cl_metrics (abs (state_after fn (state_after (Now w) s))) @
       [CounterInc ''config_resolution_total'' [path, classifyOutcome (result_of (observe w path fn) s)],
        HistogramObserve ''config_resolution_duration_seconds''
          [path, classifyOutcome (result_of (observe w path fn) s)] d]"
  by (simp add: observe_def Let_def now_abs emit_abs)

lemma MetricsConfigResolver_read_only: "read_only_resolver (MetricsConfigResolver w R) abs"
  by unfold_locales (simp_all add: MetricsConfigResolver_def observe_frame tenant_frame group_frame default_frame)

end

locale metered_resolver = metered_reader w abs R + config_resolver R abs
  for w :: "('s, 'e) world"
    and abs :: "'s \<Rightarrow> cluster"
    and R :: "('s, 'e) ConfigResolver_port"
begin

lemma MetricsConfigResolver_contract: "config_resolver (MetricsConfigResolver w R) abs"
  using by_tenant [of _ "state_after (Now w) s" for s] by_group [of _ "state_after (Now w) s" for s]
    by_default [of "state_after (Now w) s" for s]
  by unfold_locales
    (simp_all add: MetricsConfigResolver_def observe_result now_abs observe_frame tenant_frame
      group_frame default_frame)

end

sublocale metered_resolver \<subseteq> metered: config_resolver "MetricsConfigResolver w R" abs
  by (rule MetricsConfigResolver_contract)

interpretation mem_resolver: config_resolver "ConfigResolver mem_world" mem_abs
  by (rule mem.ConfigResolver_contract)

interpretation mem_metered: metered_resolver mem_world mem_abs "ConfigResolver mem_world"
  by unfold_locales

end
