(* ===== verification/Registry.thy ===== *)
theory Registry
  imports Binding_Controller
begin

text \<open>
  Collector registration: the port interface \<open>port.CollectorRegistry\<close>, the implementation that keeps
  registrations in the status of the bindings (\<open>internal/adapter/kubernetes/collectorregistry.go\<close>)
  and the one that keeps nothing (\<open>internal/adapter/noop\<close>). A patch that conflicts is retried at
  most \<open>maxPatchRetries\<close> times: the retry loops recurse on the attempts that are left.
\<close>

section \<open>The port\<close>

record CollectorInfo =
  info_ID :: string
  info_Name :: string
  info_LocalAttributes :: "string \<rightharpoonup> string"

record ('s, 'e) CollectorRegistry_port =
  Register :: "CollectorInfo \<Rightarrow> ('s, 'e go_error option) state"
  Unregister :: "string \<Rightarrow> ('s, 'e go_error option) state"

section \<open>Tenant entries\<close>

definition upsertTenant :: "RegisteredTenant list \<Rightarrow> RegisteredTenant \<Rightarrow> RegisteredTenant list" where
  "upsertTenant tenants t =
     (let idx = IndexFunc tenants (\<lambda>e. ID e = ID t)
      in if 0 \<le> idx then tenants[nat idx := t] else tenants @ [t])"

definition indexTenantByCollectorID :: "RegisteredTenant list \<Rightarrow> string \<Rightarrow> int" where
  "indexTenantByCollectorID tenants collectorID = IndexFunc tenants (\<lambda>t. CollectorID t = collectorID)"

section \<open>The Kubernetes registry\<close>

definition maxPatchRetries :: nat where
  "maxPatchRetries = 3"

definition findBinding ::
  "('s, 'e) world \<Rightarrow> string \<Rightarrow> string \<Rightarrow> string \<Rightarrow>
   ('s, 'e go_error + CollectorGroupBinding option) state" where
  "findBinding w ns tenant collectorGroup =
     try_bind
       (if tenant \<noteq> ''''
        then do { r \<leftarrow> client_List (CollectorGroupBindings w) ns (MatchingFields IndexTenantRef tenant);
                  State_Monad.return
                    (case r of
                       Inl err \<Rightarrow> Inl (Errorf ''listing tenant bindings: %w'' [] (Some (ApiError err)))
                     | Inr items \<Rightarrow> Inr items) }
        else State_Monad.return (Inr []))
       (\<lambda>items.
          case items of
            binding # _ \<Rightarrow> State_Monad.return (Inr (Some binding))
          | [] \<Rightarrow>
              if collectorGroup \<noteq> ''''
              then do { r \<leftarrow> client_List (CollectorGroupBindings w) ns
                           (MatchingFields IndexCollectorGroupRef collectorGroup);
                        State_Monad.return
                          (case r of
                             Inl err \<Rightarrow> Inl (Errorf ''listing group bindings: %w'' [] (Some (ApiError err)))
                           | Inr [] \<Rightarrow> Inr None
                           | Inr (binding # _) \<Rightarrow> Inr (Some binding)) }
              else State_Monad.return (Inr None))"

text \<open>
  One pass of the body of the registration loop per attempt that is left; \<open>attempt\<close> counts from zero.
\<close>

primrec register_attempts ::
  "('s, 'e) world \<Rightarrow> string \<Rightarrow> string \<Rightarrow> string \<Rightarrow> string \<Rightarrow> nat \<Rightarrow> ('s, 'e go_error option) state" where
  "register_attempts w ns tenant collectorGroup collectorID 0 =
     State_Monad.return
       (Some (Errorf ''failed to register tenant %q after %d attempts'' [tenant, ''3''] None))"
| "register_attempts w ns tenant collectorGroup collectorID (Suc left) =
     do { let attempt = maxPatchRetries - Suc left;
          found \<leftarrow> findBinding w ns tenant collectorGroup;
          case found of
            Inl err \<Rightarrow> State_Monad.return (Some err)
          | Inr None \<Rightarrow> State_Monad.return None
          | Inr (Some base) \<Rightarrow>
              do { now \<leftarrow> Now w;
                   let binding = base\<lparr>Status := (Status base)\<lparr>RegisteredTenants :=
                     upsertTenant (RegisteredTenants (Status base))
                       \<lparr>ID = tenant, CollectorID = collectorID, LastSeenAt = now\<rparr>\<rparr>\<rparr>;
                   patched \<leftarrow> client_StatusPatch (CollectorGroupBindings w) binding base;
                   case patched of
                     Inr _ \<Rightarrow> State_Monad.return None
                   | Inl patchErr \<Rightarrow>
                       if IsConflict w patchErr \<and> attempt < maxPatchRetries - 1
                       then register_attempts w ns tenant collectorGroup collectorID left
                       else State_Monad.return
                         (Some (Errorf ''patching CollectorGroupBinding %q status: %w''
                                  [Name (Meta binding)] (Some (ApiError patchErr)))) } }"

definition registry_Register ::
  "('s, 'e) world \<Rightarrow> string \<Rightarrow> CollectorInfo \<Rightarrow> ('s, 'e go_error option) state" where
  "registry_Register w ns info =
     (let tenant = map_get (info_LocalAttributes info) ''tenant'';
          collectorGroup = map_get (info_LocalAttributes info) ''collector_group''
      in if tenant = ''''
         then State_Monad.return
           (Some (Errorf ''collector %q has no tenant attribute; skipping registration'' [info_ID info] None))
         else register_attempts w ns tenant collectorGroup (info_ID info) maxPatchRetries)"

primrec unregister_attempts ::
  "('s, 'e) world \<Rightarrow> object_key \<Rightarrow> string \<Rightarrow> nat \<Rightarrow> ('s, 'e go_error option) state" where
  "unregister_attempts w bindingKey collectorID 0 =
     State_Monad.return
       (Some (Errorf ''failed to unregister collector %q after %d attempts'' [collectorID, ''3''] None))"
| "unregister_attempts w bindingKey collectorID (Suc left) =
     do { let attempt = maxPatchRetries - Suc left;
          got \<leftarrow> client_Get (CollectorGroupBindings w) (fst bindingKey) (snd bindingKey);
          case got of
            Inl err \<Rightarrow>
              State_Monad.return
                (if IsNotFound w err then None
                 else Some (Errorf ''re-fetching CollectorGroupBinding %q: %w'' [snd bindingKey] (Some (ApiError err))))
          | Inr base \<Rightarrow>
              let idx = indexTenantByCollectorID (RegisteredTenants (Status base)) collectorID
              in if idx < 0 then State_Monad.return None
                 else do {
                   let fresh = base\<lparr>Status := (Status base)\<lparr>RegisteredTenants :=
                     slices_Delete (RegisteredTenants (Status base)) (nat idx) (Suc (nat idx))\<rparr>\<rparr>;
                   patched \<leftarrow> client_StatusPatch (CollectorGroupBindings w) fresh base;
                   case patched of
                     Inr _ \<Rightarrow> State_Monad.return None
                   | Inl patchErr \<Rightarrow>
                       if IsConflict w patchErr \<and> attempt < maxPatchRetries - 1
                       then unregister_attempts w bindingKey collectorID left
                       else State_Monad.return
                         (Some (Errorf ''patching CollectorGroupBinding %q: %w''
                                  [Name (Meta fresh)] (Some (ApiError patchErr)))) } }"

text \<open>The first listed binding that holds an entry of the collector decides the call.\<close>

primrec unregister_items ::
  "('s, 'e) world \<Rightarrow> string \<Rightarrow> CollectorGroupBinding list \<Rightarrow> ('s, 'e go_error option) state" where
  "unregister_items w collectorID [] = State_Monad.return None"
| "unregister_items w collectorID (item # items) =
     (if indexTenantByCollectorID (RegisteredTenants (Status item)) collectorID < 0
      then unregister_items w collectorID items
      else unregister_attempts w (key_of item) collectorID maxPatchRetries)"

definition registry_Unregister ::
  "('s, 'e) world \<Rightarrow> string \<Rightarrow> string \<Rightarrow> ('s, 'e go_error option) state" where
  "registry_Unregister w ns collectorID =
     do { r \<leftarrow> client_List (CollectorGroupBindings w) ns InNamespace;
          case r of
            Inl err \<Rightarrow> State_Monad.return
              (Some (Errorf ''listing CollectorGroupBindings: %w'' [] (Some (ApiError err))))
          | Inr items \<Rightarrow> unregister_items w collectorID items }"

definition KubernetesCollectorRegistry ::
  "('s, 'e) world \<Rightarrow> string \<Rightarrow> ('s, 'e) CollectorRegistry_port" where
  "KubernetesCollectorRegistry w ns =
     \<lparr>Register = registry_Register w ns, Unregister = registry_Unregister w ns\<rparr>"

section \<open>The no-op registry\<close>

definition noop_CollectorRegistry :: "('s, 'e) CollectorRegistry_port" where
  "noop_CollectorRegistry =
     \<lparr>Register = (\<lambda>_. State_Monad.return None), Unregister = (\<lambda>_. State_Monad.return None)\<rparr>"

section \<open>The contract\<close>

text \<open>A registry touches nothing but the tenant entries of bindings.\<close>

definition tenants_apart :: "CollectorGroupBinding \<Rightarrow> CollectorGroupBinding \<Rightarrow> bool" where
  "tenants_apart b' b \<longleftrightarrow>
     same_object b' b \<and> (Status b')\<lparr>RegisteredTenants := []\<rparr> = (Status b)\<lparr>RegisteredTenants := []\<rparr>"

definition only_tenants :: "cluster \<Rightarrow> cluster \<Rightarrow> bool" where
  "only_tenants c' c \<longleftrightarrow>
     cl_pcs c' = cl_pcs c \<and> cl_cgs c' = cl_cgs c \<and> cl_metrics c' = cl_metrics c \<and>
     (\<forall>k. rel_option tenants_apart (cl_cgbs c' k) (cl_cgbs c k))"

locale collector_registry =
  fixes R :: "('s, 'e) CollectorRegistry_port"
    and abs :: "'s \<Rightarrow> cluster"
  assumes register_frame: "only_tenants (abs (state_after (Register R info) s)) (abs s)"
    and unregister_frame: "only_tenants (abs (state_after (Unregister R collectorID) s)) (abs s)"

section \<open>Lemmas: tenant entries\<close>

definition tenant_map :: "RegisteredTenant list \<Rightarrow> string \<rightharpoonup> RegisteredTenant" where
  "tenant_map ts = map_of (map (\<lambda>t. (ID t, t)) ts)"

lemma upsertTenant_cases:
  obtains (fresh) "\<forall>e\<in>set ts. ID e \<noteq> ID t" "upsertTenant ts t = ts @ [t]"
    | (known) ys e zs where "ts = ys @ e # zs" "\<forall>y\<in>set ys. ID y \<noteq> ID t" "ID e = ID t"
      "upsertTenant ts t = ys @ t # zs"
proof (cases "IndexFunc ts (\<lambda>e. ID e = ID t) < 0")
  case True
  then have "\<not> 0 \<le> IndexFunc ts (\<lambda>e. ID e = ID t)" by linarith
  with True fresh show ?thesis by (simp add: upsertTenant_def)
next
  case False
  then obtain ys e zs where "ts = ys @ e # zs" "\<forall>y\<in>set ys. ID y \<noteq> ID t" "ID e = ID t"
    "nat (IndexFunc ts (\<lambda>e. ID e = ID t)) = length ys"
    by (rule IndexFunc_split)
  moreover from False have "0 \<le> IndexFunc ts (\<lambda>e. ID e = ID t)" by linarith
  ultimately show ?thesis using known [of ys e zs] by (simp add: upsertTenant_def Let_def)
qed

text \<open>On the entries read as a map keyed by tenant id, an upsert is a map update.\<close>

lemma tenant_map_upsert: "tenant_map (upsertTenant ts t) = (tenant_map ts)(ID t \<mapsto> t)"
proof (cases ts t rule: upsertTenant_cases)
  case fresh
  then have "tenant_map ts (ID t) = None" by (auto simp: tenant_map_def map_of_eq_None_iff)
  with fresh(2) show ?thesis by (auto simp: tenant_map_def map_add_def fun_eq_iff split: option.splits)
next
  case (known ys e zs)
  then have "map_of (map (\<lambda>t. (ID t, t)) ys) (ID t) = None" by (auto simp: map_of_eq_None_iff)
  with known show ?thesis by (auto simp: tenant_map_def map_add_def fun_eq_iff split: option.splits)
qed

lemma upsertTenant_ids:
  "map ID (upsertTenant ts t) = (if ID t \<in> ID ` set ts then map ID ts else map ID ts @ [ID t])"
  by (cases ts t rule: upsertTenant_cases) auto

lemma upsertTenant_valid:
  assumes "valid_binding_status st" "ID t \<noteq> ''''"
  shows "valid_binding_status (st\<lparr>RegisteredTenants := upsertTenant (RegisteredTenants st) t\<rparr>)"
proof -
  have "set (upsertTenant ts t) \<subseteq> insert t (set ts)" for ts
    by (cases ts t rule: upsertTenant_cases) auto
  with assms show ?thesis
    by (auto simp: valid_binding_status_def upsertTenant_ids)
qed

lemma upsertTenant_encode:
  "map (encode_tenant wire) (upsertTenant ts t) =
     upsertTenant (map (encode_tenant wire) ts) (encode_tenant wire t)"
proof -
  have "index_from (\<lambda>e. ID e = x) i (map (encode_tenant wire) us) = index_from (\<lambda>e. ID e = x) i us"
    for x i us by (induction us arbitrary: i) auto
  then show ?thesis
    by (simp add: upsertTenant_def Let_def IndexFunc_def map_update)
qed

lemma indexTenant_cases:
  obtains (absent) "\<forall>t\<in>set ts. CollectorID t \<noteq> c" "indexTenantByCollectorID ts c < 0"
    | (present) ys t zs where "ts = ys @ t # zs" "\<forall>y\<in>set ys. CollectorID y \<noteq> c" "CollectorID t = c"
      "\<not> indexTenantByCollectorID ts c < 0" "nat (indexTenantByCollectorID ts c) = length ys"
proof (cases "indexTenantByCollectorID ts c < 0")
  case True
  with absent show ?thesis by (simp add: indexTenantByCollectorID_def)
next
  case False
  then obtain ys t zs where "ts = ys @ t # zs" "\<forall>y\<in>set ys. CollectorID y \<noteq> c" "CollectorID t = c"
    "nat (indexTenantByCollectorID ts c) = length ys"
    unfolding indexTenantByCollectorID_def by (rule IndexFunc_split)
  with False present show ?thesis by blast
qed

text \<open>What the deletion leaves: the entries without the first one of the collector.\<close>

fun remove_collector :: "string \<Rightarrow> RegisteredTenant list \<Rightarrow> RegisteredTenant list" where
  "remove_collector c [] = []"
| "remove_collector c (t # ts) = (if CollectorID t = c then ts else t # remove_collector c ts)"

lemma remove_collector_split:
  "\<forall>y\<in>set ys. CollectorID y \<noteq> c \<Longrightarrow> CollectorID t = c \<Longrightarrow> remove_collector c (ys @ t # zs) = ys @ zs"
  by (induction ys) auto

lemma delete_indexed:
  assumes "\<not> indexTenantByCollectorID ts c < 0"
  shows "slices_Delete ts (nat (indexTenantByCollectorID ts c)) (Suc (nat (indexTenantByCollectorID ts c))) =
           remove_collector c ts"
  using assms by (cases ts c rule: indexTenant_cases) (simp_all add: remove_collector_split)

lemma remove_collector_sub: "set (remove_collector c ts) \<subseteq> set ts"
  by (induction ts) auto

lemma remove_collector_valid:
  assumes "valid_binding_status st"
  shows "valid_binding_status (st\<lparr>RegisteredTenants := remove_collector c (RegisteredTenants st)\<rparr>)"
proof -
  have "distinct (map ID ts) \<Longrightarrow> distinct (map ID (remove_collector c ts))" for ts
    by (induction ts) (auto dest: subsetD [OF remove_collector_sub])
  with assms show ?thesis
    by (auto simp: valid_binding_status_def dest: subsetD [OF remove_collector_sub])
qed

lemma remove_collector_encode:
  "map (encode_tenant wire) (remove_collector c ts) = remove_collector c (map (encode_tenant wire) ts)"
  by (induction ts) auto

section \<open>Lemmas: registration\<close>

text \<open>The bindings a registration may go to.\<close>

definition registers_at ::
  "cluster \<Rightarrow> string \<Rightarrow> string \<Rightarrow> string \<Rightarrow> CollectorGroupBinding option \<Rightarrow> bool" where
  "registers_at c ns tenant grp x \<longleftrightarrow>
     (if \<exists>n b. cl_cgbs c (ns, n) = Some b \<and> TenantRef (Spec b) = tenant
      then \<exists>n b. cl_cgbs c (ns, n) = Some b \<and> TenantRef (Spec b) = tenant \<and> x = Some b
      else if grp \<noteq> '''' \<and> (\<exists>n b. cl_cgbs c (ns, n) = Some b \<and> CollectorGroupRef (Spec b) = grp)
      then \<exists>n b. cl_cgbs c (ns, n) = Some b \<and> CollectorGroupRef (Spec b) = grp \<and> x = Some b
      else x = None)"

lemma registers_at_stored:
  "registers_at c ns tenant grp (Some b) \<Longrightarrow> \<exists>n. cl_cgbs c (ns, n) = Some b"
  unfolding registers_at_def by (auto split: if_splits)

context kube_reader
begin

lemma list_by_index:
  assumes "binding_index k = Some f" "\<And>b. v \<in> set (f b) \<longleftrightarrow> P b"
  shows "\<exists>bs. result_of (client_List (CollectorGroupBindings w) ns (MatchingFields k v)) s = Inr bs \<and>
    (\<forall>b. b \<in> set bs \<longleftrightarrow> (\<exists>n. cl_cgbs (abs s) (ns, n) = Some b \<and> P b))"
  using cgb.list_found [of "MatchingFields k v" ns s] assms by auto

lemma findBinding_correct:
  assumes tenant: "tenant \<noteq> ''''"
  shows "\<exists>x. result_of (findBinding w ns tenant grp) s = Inr x \<and> registers_at (abs s) ns tenant grp x"
    and "abs (state_after (findBinding w ns tenant grp) s) = abs s"
proof -
  let ?L1 = "client_List (CollectorGroupBindings w) ns (MatchingFields IndexTenantRef tenant)"
  let ?L2 = "client_List (CollectorGroupBindings w) ns (MatchingFields IndexCollectorGroupRef grp)"
  let ?s1 = "state_after ?L1 s"
  from tenant obtain ts where ts: "result_of ?L1 s = Inr ts"
    "\<And>b. b \<in> set ts \<longleftrightarrow> (\<exists>n. cl_cgbs (abs s) (ns, n) = Some b \<and> TenantRef (Spec b) = tenant)"
    using list_by_index [of IndexTenantRef index_tenant_ref tenant "\<lambda>b. TenantRef (Spec b) = tenant" ns s]
    by auto
  have "\<exists>gs. result_of ?L2 ?s1 = Inr gs \<and> (grp \<noteq> '''' \<longrightarrow>
    (\<forall>b. b \<in> set gs \<longleftrightarrow> (\<exists>n. cl_cgbs (abs s) (ns, n) = Some b \<and> CollectorGroupRef (Spec b) = grp)))"
    using list_by_index [of IndexCollectorGroupRef index_collector_group_ref grp
        "\<lambda>b. CollectorGroupRef (Spec b) = grp \<and> grp \<noteq> ''''" ns ?s1]
    by (auto simp: cgb.list_abs)
  then obtain gs where gs: "result_of ?L2 ?s1 = Inr gs" "grp \<noteq> '''' \<Longrightarrow>
    b \<in> set gs \<longleftrightarrow> (\<exists>n. cl_cgbs (abs s) (ns, n) = Some b \<and> CollectorGroupRef (Spec b) = grp)" for b
    by blast
  show "\<exists>x. result_of (findBinding w ns tenant grp) s = Inr x \<and> registers_at (abs s) ns tenant grp x"
  proof (cases ts)
    case (Cons b bs)
    with ts(2) [of b] have "registers_at (abs s) ns tenant grp (Some b)"
      by (force simp: registers_at_def)
    with Cons ts(1) tenant show ?thesis by (simp add: findBinding_def)
  next
    case Nil
    with ts(2) have none: "\<not> (\<exists>n b. cl_cgbs (abs s) (ns, n) = Some b \<and> TenantRef (Spec b) = tenant)" by auto
    consider "grp = ''''" | "grp \<noteq> ''''" "gs = []" | b bs where "grp \<noteq> ''''" "gs = b # bs"
      by (cases gs) auto
    then show ?thesis
    proof cases
      case 1
      with none Nil ts(1) tenant show ?thesis
        unfolding registers_at_def by (simp add: findBinding_def)
    next
      case 2
      with gs(2) have "\<not> (\<exists>n b. cl_cgbs (abs s) (ns, n) = Some b \<and> CollectorGroupRef (Spec b) = grp)" by auto
      with none have "registers_at (abs s) ns tenant grp None"
        unfolding registers_at_def by (simp only: if_False simp_thms)
      with 2 Nil ts(1) gs(1) tenant show ?thesis by (simp add: findBinding_def)
    next
      case 3
      with gs(2) [of b] obtain n where "cl_cgbs (abs s) (ns, n) = Some b" "CollectorGroupRef (Spec b) = grp" by auto
      with none 3(1) have "registers_at (abs s) ns tenant grp (Some b)"
        unfolding registers_at_def by (simp only: if_False) (metis (no_types, lifting))
      with 3 Nil ts(1) gs(1) tenant show ?thesis by (simp add: findBinding_def)
    qed
  qed
  show "abs (state_after (findBinding w ns tenant grp) s) = abs s"
    using ts(1) by (auto simp: findBinding_def cgb.list_abs split: list.splits)
qed

end

text \<open>A binding after its tenant entries were replaced.\<close>

definition with_tenants :: "RegisteredTenant list \<Rightarrow> CollectorGroupBinding \<Rightarrow> CollectorGroupBinding \<Rightarrow> bool" where
  "with_tenants ts b b' \<longleftrightarrow> tenants_apart b' b \<and> RegisteredTenants (Status b') = ts"

context kube_world
begin

lemma tenants_patch:
  assumes stored: "cl_cgbs (abs s) k = Some b"
    and valid: "valid_binding_status ((Status b)\<lparr>RegisteredTenants := ts\<rparr>)"
  shows "\<exists>b'. result_of (client_StatusPatch (CollectorGroupBindings w)
        (b\<lparr>Status := (Status b)\<lparr>RegisteredTenants := ts\<rparr>\<rparr>) b) s = Inr b' \<and>
      abs (state_after (client_StatusPatch (CollectorGroupBindings w)
        (b\<lparr>Status := (Status b)\<lparr>RegisteredTenants := ts\<rparr>\<rparr>) b) s) = with_cgb k b' (abs s) \<and>
      with_tenants (map (encode_tenant wire) ts) b b'"
proof -
  have "encode_binding_status wire ((Status b)\<lparr>RegisteredTenants := ts\<rparr>) =
      (encode_binding_status wire (Status b))\<lparr>RegisteredTenants := map (encode_tenant wire) ts\<rparr>"
    by (simp add: encode_binding_status_def)
  then have enc: "encode_binding_status wire ((Status b)\<lparr>RegisteredTenants := ts\<rparr>) =
      (Status b)\<lparr>RegisteredTenants := map (encode_tenant wire) ts\<rparr>"
    by (simp add: cgb.stored_encoded [OF stored])
  show ?thesis
    using cgb.status_patchback [of s b] stored valid cgb.stored_key [OF stored]
    by (simp add: with_tenants_def tenants_apart_def enc)
qed

lemma register_attempts_correct:
  assumes tenant: "tenant \<noteq> ''''"
  shows "result_of (register_attempts w ns tenant grp collectorID (Suc left)) s = None \<and>
    (\<exists>x. registers_at (abs s) ns tenant grp x \<and>
      (case x of
         None \<Rightarrow> abs (state_after (register_attempts w ns tenant grp collectorID (Suc left)) s) = abs s
       | Some b \<Rightarrow> \<exists>b' at.
           abs (state_after (register_attempts w ns tenant grp collectorID (Suc left)) s) =
             with_cgb (key_of b) b' (abs s) \<and>
           with_tenants (upsertTenant (RegisteredTenants (Status b))
             \<lparr>ID = tenant, CollectorID = collectorID, LastSeenAt = at\<rparr>) b b'))"
proof -
  obtain x where x: "result_of (findBinding w ns tenant grp) s = Inr x" "registers_at (abs s) ns tenant grp x"
    using findBinding_correct(1) [OF tenant] by blast
  define s1 where "s1 = state_after (findBinding w ns tenant grp) s"
  have s1: "abs s1 = abs s" by (simp add: s1_def findBinding_correct(2) [OF tenant])
  show ?thesis
  proof (cases x)
    case None
    with x s1 show ?thesis by (auto simp: s1_def)
  next
    case (Some b)
    with x(2) obtain n where b: "cl_cgbs (abs s) (ns, n) = Some b" by (blast dest: registers_at_stored)
    note key = cgb.stored_key [OF b]
    define t where "t = \<lparr>ID = tenant, CollectorID = collectorID, LastSeenAt = result_of (Now w) s1\<rparr>"
    define s2 where "s2 = state_after (Now w) s1"
    have s2: "abs s2 = abs s" by (simp add: s2_def now_abs s1)
    define ts where "ts = upsertTenant (RegisteredTenants (Status b)) t"
    have "valid_binding_status ((Status b)\<lparr>RegisteredTenants := ts\<rparr>)"
      unfolding ts_def by (rule upsertTenant_valid) (simp_all add: cgb.stored_valid [OF b] t_def tenant)
    from tenants_patch [of s2 "(ns, n)" b ts, OF _ this] b obtain b' where b':
      "result_of (client_StatusPatch (CollectorGroupBindings w) (b\<lparr>Status := (Status b)\<lparr>RegisteredTenants := ts\<rparr>\<rparr>) b) s2 = Inr b'"
      "abs (state_after (client_StatusPatch (CollectorGroupBindings w)
        (b\<lparr>Status := (Status b)\<lparr>RegisteredTenants := ts\<rparr>\<rparr>) b) s2) = with_cgb (ns, n) b' (abs s)"
      "with_tenants (map (encode_tenant wire) ts) b b'"
      by (auto simp: s2)
    have ts': "map (encode_tenant wire) ts = upsertTenant (RegisteredTenants (Status b))
        \<lparr>ID = tenant, CollectorID = collectorID, LastSeenAt = wire (result_of (Now w) s1)\<rparr>"
      using encoded_tenants [OF cgb.stored_encoded [OF b]]
      by (simp add: ts_def upsertTenant_encode t_def encode_tenant_def)
    have run: "run_state (register_attempts w ns tenant grp collectorID (Suc left)) s =
        (None, state_after (client_StatusPatch (CollectorGroupBindings w)
          (b\<lparr>Status := (Status b)\<lparr>RegisteredTenants := ts\<rparr>\<rparr>) b) s2)"
      using x(1) Some b'(1) by (simp add: Let_def s1_def [symmetric] s2_def [symmetric] t_def [symmetric] ts_def [symmetric])
    show ?thesis
      unfolding run using x(2) Some b'(2,3) key ts' by (auto intro!: exI [of _ x])
  qed
qed

lemma unregister_attempts_correct:
  assumes stored: "cl_cgbs (abs s) k = Some b"
    and holds: "c \<in> CollectorID ` set (RegisteredTenants (Status b))"
  shows "\<exists>b'. result_of (unregister_attempts w k c (Suc left)) s = None \<and>
    abs (state_after (unregister_attempts w k c (Suc left)) s) = with_cgb k b' (abs s) \<and>
    with_tenants (remove_collector c (RegisteredTenants (Status b))) b b'"
proof -
  let ?get = "client_Get (CollectorGroupBindings w) (fst k) (snd k)"
  define s1 where "s1 = state_after ?get s"
  have s1: "abs s1 = abs s" by (simp add: s1_def abs_laws)
  have got: "result_of ?get s = Inr b" using cgb.get_found [of s "fst k" "snd k" b] stored by simp
  define ts where "ts = remove_collector c (RegisteredTenants (Status b))"
  have idx: "\<not> indexTenantByCollectorID (RegisteredTenants (Status b)) c < 0"
    using holds by (auto simp: indexTenantByCollectorID_def)
  have valid: "valid_binding_status ((Status b)\<lparr>RegisteredTenants := ts\<rparr>)"
    unfolding ts_def by (rule remove_collector_valid [OF cgb.stored_valid [OF stored]])
  from tenants_patch [of s1 k b ts, OF _ valid] stored obtain b' where b':
    "result_of (client_StatusPatch (CollectorGroupBindings w) (b\<lparr>Status := (Status b)\<lparr>RegisteredTenants := ts\<rparr>\<rparr>) b) s1 = Inr b'"
    "abs (state_after (client_StatusPatch (CollectorGroupBindings w)
      (b\<lparr>Status := (Status b)\<lparr>RegisteredTenants := ts\<rparr>\<rparr>) b) s1) = with_cgb k b' (abs s)"
    "with_tenants (map (encode_tenant wire) ts) b b'"
    by (auto simp: s1)
  have "map (encode_tenant wire) ts = ts"
    using encoded_tenants [OF cgb.stored_encoded [OF stored]] by (simp add: ts_def remove_collector_encode)
  moreover have "run_state (unregister_attempts w k c (Suc left)) s =
      (None, state_after (client_StatusPatch (CollectorGroupBindings w)
        (b\<lparr>Status := (Status b)\<lparr>RegisteredTenants := ts\<rparr>\<rparr>) b) s1)"
    using got idx b'(1)
    by (simp add: Let_def delete_indexed [OF idx] ts_def [symmetric] s1_def [symmetric])
  ultimately show ?thesis using b'(2,3) by (auto simp: ts_def)
qed

text \<open>Unregistering takes one entry of the collector out of one of the bindings that hold one.\<close>

lemma registry_Unregister_correct:
  "result_of (registry_Unregister w ns c) s = None \<and>
   (if \<exists>n b. cl_cgbs (abs s) (ns, n) = Some b \<and> c \<in> CollectorID ` set (RegisteredTenants (Status b))
    then \<exists>n b b'. cl_cgbs (abs s) (ns, n) = Some b \<and> c \<in> CollectorID ` set (RegisteredTenants (Status b)) \<and>
           abs (state_after (registry_Unregister w ns c) s) = with_cgb (ns, n) b' (abs s) \<and>
           with_tenants (remove_collector c (RegisteredTenants (Status b))) b b'
    else abs (state_after (registry_Unregister w ns c) s) = abs s)"
proof -
  let ?list = "client_List (CollectorGroupBindings w) ns InNamespace"
  obtain bs where bs: "result_of ?list s = Inr bs" "set bs = matching (cl_cgbs (abs s)) binding_index ns InNamespace"
    using cgb.list_found [of InNamespace ns s] by auto
  define s1 where "s1 = state_after ?list s"
  have s1: "abs s1 = abs s" by (simp add: s1_def cgb.list_abs)
  have mem: "b \<in> set bs \<longleftrightarrow> (\<exists>n. cl_cgbs (abs s) (ns, n) = Some b)" for b
    using bs(2) by simp
  have code: "run_state (registry_Unregister w ns c) s = run_state (unregister_items w c bs) s1"
    by (simp add: registry_Unregister_def bs(1) s1_def)
  have skip: "run_state (unregister_items w c xs) s1 =
      (case find (\<lambda>b. c \<in> CollectorID ` set (RegisteredTenants (Status b))) xs of
         None \<Rightarrow> (None, s1) | Some b \<Rightarrow> run_state (unregister_attempts w (key_of b) c maxPatchRetries) s1)" for xs
    by (induction xs) (auto simp: indexTenantByCollectorID_def)
  show ?thesis
  proof (cases "find (\<lambda>b. c \<in> CollectorID ` set (RegisteredTenants (Status b))) bs")
    case None
    then have "\<not> (\<exists>n b. cl_cgbs (abs s) (ns, n) = Some b \<and> c \<in> CollectorID ` set (RegisteredTenants (Status b)))"
      using mem by (auto simp: find_None_iff)
    with None show ?thesis by (simp only: code skip if_False option.case fst_conv snd_conv s1 simp_thms)
  next
    case (Some b)
    then have "b \<in> set bs" and holds: "c \<in> CollectorID ` set (RegisteredTenants (Status b))"
      by (auto simp: find_Some_iff)
    with mem obtain n where b: "cl_cgbs (abs s) (ns, n) = Some b" by blast
    with unregister_attempts_correct [of s1 "(ns, n)" b c 2] holds
    obtain b' where "result_of (unregister_attempts w (ns, n) c maxPatchRetries) s1 = None"
      "abs (state_after (unregister_attempts w (ns, n) c maxPatchRetries) s1) = with_cgb (ns, n) b' (abs s)"
      "with_tenants (remove_collector c (RegisteredTenants (Status b))) b b'"
      by (auto simp: s1 maxPatchRetries_def eval_nat_numeral simp del: unregister_attempts.simps)
    with Some b holds cgb.stored_key [OF b] show ?thesis
      unfolding code skip by (auto split: if_splits)
  qed
qed

lemma registry_Register_correct:
  assumes "map_get (info_LocalAttributes info) ''tenant'' = tenant" "tenant \<noteq> ''''"
    and "map_get (info_LocalAttributes info) ''collector_group'' = grp"
  shows "result_of (registry_Register w ns info) s = None \<and>
    (\<exists>x. registers_at (abs s) ns tenant grp x \<and>
      (case x of
         None \<Rightarrow> abs (state_after (registry_Register w ns info) s) = abs s
       | Some b \<Rightarrow> \<exists>b' at.
           abs (state_after (registry_Register w ns info) s) = with_cgb (key_of b) b' (abs s) \<and>
           with_tenants (upsertTenant (RegisteredTenants (Status b))
             \<lparr>ID = tenant, CollectorID = info_ID info, LastSeenAt = at\<rparr>) b b'))"
proof -
  have "registry_Register w ns info = register_attempts w ns tenant grp (info_ID info) (Suc 2)"
    using assms by (simp add: registry_Register_def maxPatchRetries_def eval_nat_numeral
      del: register_attempts.simps)
  with register_attempts_correct [OF assms(2), of ns grp "info_ID info" 2 s] show ?thesis
    by (simp only:)
qed

end

section \<open>The implementations meet the contract\<close>

lemma tenants_apart_refl [simp]: "tenants_apart b b"
  by (simp add: tenants_apart_def)

lemma only_tenants_refl [simp]: "only_tenants c c"
  by (simp add: only_tenants_def option.rel_refl)

lemma only_tenants_upd:
  "cl_cgbs c k = Some b \<Longrightarrow> tenants_apart b' b \<Longrightarrow> only_tenants (with_cgb k b' c) c"
  by (auto simp: only_tenants_def option.rel_refl)

context kube_world
begin

lemma registry_Register_frame: "only_tenants (abs (state_after (registry_Register w ns info) s)) (abs s)"
proof (cases "map_get (info_LocalAttributes info) ''tenant'' = ''''")
  case True
  then show ?thesis by (simp add: registry_Register_def Let_def)
next
  case False
  let ?reg = "registers_at (abs s) ns (map_get (info_LocalAttributes info) ''tenant'')
    (map_get (info_LocalAttributes info) ''collector_group'')"
  from registry_Register_correct [OF refl False refl, of ns s] obtain x where "?reg x" and
    x: "case x of None \<Rightarrow> abs (state_after (registry_Register w ns info) s) = abs s
     | Some b \<Rightarrow> \<exists>b' at. abs (state_after (registry_Register w ns info) s) = with_cgb (key_of b) b' (abs s) \<and>
         with_tenants (upsertTenant (RegisteredTenants (Status b))
           \<lparr>ID = map_get (info_LocalAttributes info) ''tenant'', CollectorID = info_ID info, LastSeenAt = at\<rparr>) b b'"
    by blast
  show ?thesis
  proof (cases x)
    case None
    with x show ?thesis by simp
  next
    case (Some b)
    with \<open>?reg x\<close> obtain n where b: "cl_cgbs (abs s) (ns, n) = Some b" by (blast dest: registers_at_stored)
    from x Some obtain b' where "abs (state_after (registry_Register w ns info) s) = with_cgb (key_of b) b' (abs s)"
      "tenants_apart b' b" by (auto simp: with_tenants_def)
    with b cgb.stored_key [OF b] show ?thesis by (simp add: only_tenants_upd)
  qed
qed

lemma registry_Unregister_frame: "only_tenants (abs (state_after (registry_Unregister w ns c) s)) (abs s)"
  using registry_Unregister_correct [of ns c s]
  by (auto simp: with_tenants_def only_tenants_upd split: if_splits)

lemma KubernetesCollectorRegistry_contract: "collector_registry (KubernetesCollectorRegistry w ns) abs"
  by unfold_locales
    (simp_all add: KubernetesCollectorRegistry_def registry_Register_frame registry_Unregister_frame)

end

sublocale kube_world \<subseteq> persisted: collector_registry "KubernetesCollectorRegistry w ns" abs for ns
  by (rule KubernetesCollectorRegistry_contract)

lemma noop_contract: "collector_registry noop_CollectorRegistry view"
  by unfold_locales (simp_all add: noop_CollectorRegistry_def)

interpretation mem_registry: collector_registry "KubernetesCollectorRegistry mem_world ''ns''" mem_abs
  by (rule mem.KubernetesCollectorRegistry_contract)

interpretation mem_noop: collector_registry noop_CollectorRegistry mem_abs
  by (rule noop_contract)

section \<open>Lemmas: errors in any world\<close>

lemma findBinding_error:
  "result_of (findBinding w ns tenant grp) s = Inl e \<Longrightarrow> \<exists>f err. e = Errorf f [] (Some (ApiError err))"
  by (auto simp: findBinding_def split: sum.splits list.splits if_splits)

lemma register_attempts_error:
  "result_of (register_attempts w ns tenant grp c (Suc left)) s = Some e \<Longrightarrow>
     \<exists>f args err. e = Errorf f args (Some (ApiError err))"
proof (induction left arbitrary: s)
  case 0
  then show ?case
    by (auto simp: maxPatchRetries_def Let_def dest!: findBinding_error split: sum.splits option.splits)
next
  case (Suc left)
  from Suc.prems show ?case
    by (subst (asm) register_attempts.simps(2))
      (auto simp: Let_def simp del: register_attempts.simps dest!: findBinding_error Suc.IH
        split: sum.splits option.splits if_splits)
qed

lemma unregister_attempts_error:
  "result_of (unregister_attempts w k c (Suc left)) s = Some e \<Longrightarrow>
     \<exists>f args err. e = Errorf f args (Some (ApiError err))"
proof (induction left arbitrary: s)
  case 0
  then show ?case
    by (auto simp: maxPatchRetries_def Let_def split: sum.splits option.splits if_splits)
next
  case (Suc left)
  from Suc.prems show ?case
    by (subst (asm) unregister_attempts.simps(2))
      (auto simp: Let_def simp del: unregister_attempts.simps dest!: Suc.IH
        split: sum.splits option.splits if_splits)
qed

lemma unregister_items_error:
  "result_of (unregister_items w c items) s = Some e \<Longrightarrow> \<exists>f args err. e = Errorf f args (Some (ApiError err))"
  by (induction items)
    (auto simp: maxPatchRetries_def eval_nat_numeral simp del: unregister_attempts.simps
      dest!: unregister_attempts_error split: if_splits)

section \<open>Properties\<close>

text \<open>
  C9: A collector that names a tenant is registered in one binding: a binding of that tenant when there
  is one, otherwise a binding of its collector group, otherwise nowhere; the entry for the tenant is
  replaced or appended, and nothing else in the cluster changes. A collector that names no tenant
  gets an error and nothing is written.
\<close>

theorem register_goes_to_matching_binding:
  assumes "kube_world w view wire version"
    and "tenant = map_get (info_LocalAttributes info) ''tenant''"
    and "grp = map_get (info_LocalAttributes info) ''collector_group''"
    and "s' = state_after (registry_Register w ns info) s"
  shows "if tenant = ''''
    then s' = s \<and> result_of (registry_Register w ns info) s =
      Some (Errorf ''collector %q has no tenant attribute; skipping registration'' [info_ID info] None)
    else result_of (registry_Register w ns info) s = None \<and>
      (\<exists>x. registers_at (view s) ns tenant grp x \<and>
        (case x of
           None \<Rightarrow> view s' = view s
         | Some b \<Rightarrow> \<exists>b' at. view s' = with_cgb (key_of b) b' (view s) \<and>
             with_tenants (upsertTenant (RegisteredTenants (Status b))
               \<lparr>ID = tenant, CollectorID = info_ID info, LastSeenAt = at\<rparr>) b b'))"
proof (cases "tenant = ''''")
  case True
  with assms(2,4) show ?thesis by (simp add: registry_Register_def)
next
  case False
  from kube_world.registry_Register_correct [OF assms(1) assms(2) [symmetric] False assms(3) [symmetric], of ns s]
  show ?thesis unfolding assms(4) using False by simp
qed

definition sample_info :: "string \<Rightarrow> string \<Rightarrow> CollectorInfo" where
  "sample_info c tenant =
     \<lparr>info_ID = c, info_Name = '''', info_LocalAttributes = [''tenant'' \<mapsto> tenant]\<rparr>"

definition sample_registry :: "RegisteredTenant list \<Rightarrow> mem" where
  "sample_registry ts = sample [] [] [sample_binding ''bt'' '''' ''t1'' ''base'' '''' '''' ts [] None]"

lemma sample_registry_view:
  "cl_cgbs (mem_abs (sample_registry [])) =
     [(''ns'', ''bt'') \<mapsto> sample_binding ''bt'' '''' ''t1'' ''base'' '''' '''' [] [] None]"
  by (simp add: sample_registry_def)

lemma sample_registers_at:
  "registers_at (mem_abs (sample_registry [])) ''ns'' ''t1'' '''' x \<Longrightarrow>
     x = Some (sample_binding ''bt'' '''' ''t1'' ''base'' '''' '''' [] [] None)"
  unfolding registers_at_def sample_registry_view by (auto split: if_splits)

theorem register_goes_to_matching_binding_witness:
  "\<exists>b' at. cl_cgbs (mem_abs (state_after (registry_Register mem_world ''ns'' (sample_info ''c1'' ''t1''))
      (sample_registry []))) (''ns'', ''bt'') = Some b' \<and>
    RegisteredTenants (Status b') = [\<lparr>ID = ''t1'', CollectorID = ''c1'', LastSeenAt = at\<rparr>]"
  using register_goes_to_matching_binding [of mem_world mem_abs mem_wire mem_version "''t1''"
      "sample_info ''c1'' ''t1''" "''''" _ "''ns''" "sample_registry []"]
  by (auto simp: sample_info_def map_get_def upsertTenant_def IndexFunc_def with_tenants_def
      dest!: sample_registers_at)

text \<open>
  C17: Read as a map from tenant ids to entries, the upsert of an entry is a map update: the tenant maps
  to the new entry and every other tenant keeps its own. No tenant id appears twice if none did
  before, and the order of the entries is kept.
\<close>

theorem upsert_is_map_update:
  "tenant_map (upsertTenant ts t) = (tenant_map ts)(ID t \<mapsto> t) \<and>
   map ID (upsertTenant ts t) = (if ID t \<in> ID ` set ts then map ID ts else map ID ts @ [ID t])"
  by (simp add: tenant_map_upsert upsertTenant_ids)

text \<open>
  C19: Unregistering a collector succeeds; when a binding of the namespace holds an entry of the
  collector, exactly one such binding loses its first entry of the collector, and when none does
  the cluster is unchanged.
\<close>

theorem unregister_removes_one_entry:
  assumes "kube_world w view wire version"
  shows "result_of (registry_Unregister w ns c) s = None \<and>
   (if \<exists>n b. cl_cgbs (view s) (ns, n) = Some b \<and> c \<in> CollectorID ` set (RegisteredTenants (Status b))
    then \<exists>n b b'. cl_cgbs (view s) (ns, n) = Some b \<and> c \<in> CollectorID ` set (RegisteredTenants (Status b)) \<and>
           view (state_after (registry_Unregister w ns c) s) = with_cgb (ns, n) b' (view s) \<and>
           with_tenants (remove_collector c (RegisteredTenants (Status b))) b b'
    else view (state_after (registry_Unregister w ns c) s) = view s)"
  by (rule kube_world.registry_Unregister_correct [OF assms])

theorem unregister_removes_one_entry_witness:
  "\<exists>b'. cl_cgbs (mem_abs (state_after (registry_Unregister mem_world ''ns'' ''c1'')
      (sample_registry [sample_tenant ''t1'' ''c1'' 5, sample_tenant ''t2'' ''c1'' 6]))) (''ns'', ''bt'') = Some b' \<and>
    RegisteredTenants (Status b') = [sample_tenant ''t2'' ''c1'' 6]"
  using unregister_removes_one_entry [of mem_world mem_abs mem_wire mem_version "''ns''" "''c1''"
      "sample_registry [sample_tenant ''t1'' ''c1'' 5, sample_tenant ''t2'' ''c1'' 6]"]
  by (auto simp: sample_registry_def with_tenants_def split: if_splits)

text \<open>
  C18: When no entry in the namespace is of the tenant and none is of the collector ID, registering the
  collector for the tenant and unregistering it again leaves the registrations of every binding
  as they were. Both conditions are needed: an entry of the tenant would be replaced by the
  registration, and another entry of the collector might be the one that is removed.
\<close>

theorem register_unregister_round_trip:
  assumes world: "kube_world w view wire version"
    and tenant: "map_get (info_LocalAttributes info) ''tenant'' \<noteq> ''''"
    and new: "\<And>n b t. cl_cgbs (view s) (ns, n) = Some b \<Longrightarrow> t \<in> set (RegisteredTenants (Status b)) \<Longrightarrow>
      CollectorID t \<noteq> info_ID info \<and> ID t \<noteq> map_get (info_LocalAttributes info) ''tenant''"
    and s': "s' = state_after (registry_Register w ns info \<bind> (\<lambda>_. registry_Unregister w ns (info_ID info))) s"
  shows "cl_pcs (view s') = cl_pcs (view s) \<and> cl_cgs (view s') = cl_cgs (view s) \<and>
    (\<forall>k. rel_option (\<lambda>b b'. with_tenants (RegisteredTenants (Status b)) b b')
           (cl_cgbs (view s) k) (cl_cgbs (view s') k))"
proof -
  let ?c = "info_ID info" and ?t = "map_get (info_LocalAttributes info) ''tenant''"
  let ?g = "map_get (info_LocalAttributes info) ''collector_group''"
  define s1 where "s1 = state_after (registry_Register w ns info) s"
  have after: "s' = state_after (registry_Unregister w ns ?c) s1" by (simp add: s' s1_def)
  have refl: "rel_option (\<lambda>b b'. with_tenants (RegisteredTenants (Status b)) b b') x x" for x
    by (rule option.rel_refl) (simp add: with_tenants_def)
  from kube_world.registry_Register_correct [OF world HOL.refl tenant HOL.refl, of ns s, folded s1_def]
  obtain x where x: "registers_at (view s) ns ?t ?g x"
    "case x of None \<Rightarrow> view s1 = view s
     | Some b \<Rightarrow> \<exists>b' at. view s1 = with_cgb (key_of b) b' (view s) \<and>
         with_tenants (upsertTenant (RegisteredTenants (Status b)) \<lparr>ID = ?t, CollectorID = ?c, LastSeenAt = at\<rparr>) b b'"
    by blast
  note gone = kube_world.registry_Unregister_correct [OF world, of ns ?c s1, folded after]
  show ?thesis
  proof (cases x)
    case None
    with x(2) new have "\<not> (\<exists>n b. cl_cgbs (view s1) (ns, n) = Some b \<and> ?c \<in> CollectorID ` set (RegisteredTenants (Status b)))"
      by fastforce
    with gone None x(2) show ?thesis by (simp add: refl split: if_splits)
  next
    case (Some b)
    with x(1) obtain n where b: "cl_cgbs (view s) (ns, n) = Some b" by (blast dest: registers_at_stored)
    have key: "key_of b = (ns, n)"
      using resource_reader.stored_key [OF kube_reader.axioms(3) [OF kube_world.axioms(2) [OF world]] b] .
    from x(2) Some key obtain b1 at where b1: "view s1 = with_cgb (ns, n) b1 (view s)"
      "with_tenants (upsertTenant (RegisteredTenants (Status b)) \<lparr>ID = ?t, CollectorID = ?c, LastSeenAt = at\<rparr>) b b1"
      by auto
    have ts: "RegisteredTenants (Status b1) = RegisteredTenants (Status b) @ [\<lparr>ID = ?t, CollectorID = ?c, LastSeenAt = at\<rparr>]"
      using b1(2) new [OF b]
      by (cases "RegisteredTenants (Status b)" "\<lparr>ID = ?t, CollectorID = ?c, LastSeenAt = at\<rparr>" rule: upsertTenant_cases)
        (auto simp: with_tenants_def)
    have only: "cl_cgbs (view s1) (ns, m) = Some b2 \<and> ?c \<in> CollectorID ` set (RegisteredTenants (Status b2)) \<longleftrightarrow>
        m = n \<and> b2 = b1" for m b2
      using b1(1) new ts by (fastforce split: if_splits)
    from gone obtain b2 where b2: "view s' = with_cgb (ns, n) b2 (view s1)"
      "with_tenants (remove_collector ?c (RegisteredTenants (Status b1))) b1 b2"
      using only by (metis (mono_tags, lifting))
    have "remove_collector ?c (RegisteredTenants (Status b1)) = RegisteredTenants (Status b)"
      using ts new [OF b] by (simp add: remove_collector_split)
    with b1(2) b2(2) have "with_tenants (RegisteredTenants (Status b)) b b2"
      by (auto simp: with_tenants_def tenants_apart_def intro: same_object_trans)
    with b b1(1) b2(1) show ?thesis by (simp add: refl)
  qed
qed

theorem register_unregister_round_trip_witness:
  "\<forall>k. rel_option (\<lambda>b b'. with_tenants (RegisteredTenants (Status b)) b b')
     (cl_cgbs (mem_abs (sample_registry [])) k)
     (cl_cgbs (mem_abs (state_after (registry_Register mem_world ''ns'' (sample_info ''c1'' ''t1'') \<bind>
        (\<lambda>_. registry_Unregister mem_world ''ns'' ''c1'')) (sample_registry []))) k)"
proof -
  have "map_get (info_LocalAttributes (sample_info ''c1'' ''t1'')) ''tenant'' \<noteq> ''''"
    "info_ID (sample_info ''c1'' ''t1'') = ''c1''" by (simp_all add: sample_info_def map_get_def)
  moreover have "cl_cgbs (mem_abs (sample_registry [])) (''ns'', n) = Some b \<Longrightarrow> RegisteredTenants (Status b) = []" for n b
    by (auto simp: sample_registry_view split: if_splits)
  ultimately show ?thesis
    using register_unregister_round_trip [of mem_world mem_abs mem_wire mem_version
      "sample_info ''c1'' ''t1''" "sample_registry []" "''ns''", OF kube_world_mem _ _ refl] by fastforce
qed

end
