(* ===== verification/Collector_Service.thy ===== *)
theory Collector_Service
  imports Resolver Registry
begin

text \<open>
  The Connect-RPC handlers of \<open>internal/service/collector_service.go\<close>, on top of the two ports. The
  messages are records of the fields the handlers read and write; a handler returns a response or a
  Connect error (a code and the error it wraps).
\<close>

section \<open>Messages and errors\<close>

datatype connect_code = CodeNotFound | CodeUnavailable | CodeInternal

record 'e connect_error =
  err_Code :: connect_code
  err_Cause :: "'e go_error"

definition connect_NewError :: "connect_code \<Rightarrow> 'e go_error \<Rightarrow> 'e connect_error" where
  "connect_NewError c e = \<lparr>err_Code = c, err_Cause = e\<rparr>"

record GetConfigRequest =
  msg_Id :: string
  msg_LocalAttributes :: "string \<rightharpoonup> string"
  msg_Hash :: string

record GetConfigResponse =
  resp_Content :: string
  resp_Hash :: string
  resp_NotModified :: bool

record RegisterCollectorRequest =
  reg_Id :: string
  reg_Name :: string
  reg_LocalAttributes :: "string \<rightharpoonup> string"

section \<open>The service\<close>

text \<open>\<open>svc_rpcMetrics\<close> says that the optional metrics were given.\<close>

record ('s, 'e) CollectorService =
  svc_resolver :: "('s, 'e) ConfigResolver_port"
  svc_registry :: "('s, 'e) CollectorRegistry_port"
  svc_namespace :: string
  svc_rpcMetrics :: bool

definition NewCollectorService ::
  "('s, 'e) ConfigResolver_port \<Rightarrow> ('s, 'e) CollectorRegistry_port \<Rightarrow> string \<Rightarrow> bool list \<Rightarrow>
   ('s, 'e) CollectorService" where
  "NewCollectorService resolver registry ns rpcMetrics =
     (let svc = \<lparr>svc_resolver = resolver, svc_registry = registry, svc_namespace = ns,
                 svc_rpcMetrics = False\<rparr>
      in case rpcMetrics of [] \<Rightarrow> svc | m # _ \<Rightarrow> svc\<lparr>svc_rpcMetrics := m\<rparr>)"

definition mapError :: "'e go_error \<Rightarrow> 'e connect_error" where
  "mapError err =
     (if errors_Is err ErrConfigNotFound then connect_NewError CodeNotFound err
      else if errors_Is err ErrConfigNotReady then connect_NewError CodeUnavailable err
      else connect_NewError CodeInternal err)"

text \<open>
  One step of the fallback chain: an answer or an error other than not-found ends the chain, not-found
  goes on with the next step.
\<close>

definition fall_through ::
  "('s, 'e resolution) state \<Rightarrow> ('s, 'e connect_error + ResolvedConfig) state \<Rightarrow>
   ('s, 'e connect_error + ResolvedConfig) state" where
  "fall_through step next_step =
     do { r \<leftarrow> step;
          case r of
            Inr resolved \<Rightarrow> State_Monad.return (Inr resolved)
          | Inl err \<Rightarrow>
              if \<not> errors_Is err ErrConfigNotFound then State_Monad.return (Inl (mapError err))
              else next_step }"

definition resolveConfig ::
  "('s, 'e) CollectorService \<Rightarrow> string \<Rightarrow> string \<Rightarrow> ('s, 'e connect_error + ResolvedConfig) state" where
  "resolveConfig svc tenant collectorGroup =
     (let last_step = do { r \<leftarrow> ResolveDefault (svc_resolver svc) (svc_namespace svc);
                           State_Monad.return
                             (case r of Inl err \<Rightarrow> Inl (mapError err) | Inr resolved \<Rightarrow> Inr resolved) };
          group_step = (if collectorGroup \<noteq> ''''
            then fall_through (ResolveByCollectorGroup (svc_resolver svc) (svc_namespace svc) collectorGroup) last_step
            else last_step)
      in if tenant \<noteq> ''''
         then fall_through (ResolveByTenant (svc_resolver svc) (svc_namespace svc) tenant) group_step
         else group_step)"

definition refreshActiveTenants ::
  "('s, 'e) CollectorService \<Rightarrow> string \<Rightarrow> string \<Rightarrow> (string \<rightharpoonup> string) \<Rightarrow> ('s, 'e go_error option) state" where
  "refreshActiveTenants svc collectorID name attrs =
     Register (svc_registry svc) \<lparr>info_ID = collectorID, info_Name = name, info_LocalAttributes = attrs\<rparr>"

definition countRPC :: "('s, 'e) world \<Rightarrow> ('s, 'e) CollectorService \<Rightarrow> string \<Rightarrow> ('s, unit) state" where
  "countRPC w svc metric =
     (if svc_rpcMetrics svc then Emit w (CounterInc metric []) else State_Monad.return ())"

definition GetConfig ::
  "('s, 'e) world \<Rightarrow> ('s, 'e) CollectorService \<Rightarrow> GetConfigRequest \<Rightarrow>
   ('s, 'e connect_error + GetConfigResponse) state" where
  "GetConfig w svc msg =
     do { let tenant = map_get (msg_LocalAttributes msg) ''tenant'';
          let collectorGroup = map_get (msg_LocalAttributes msg) ''collector_group'';
          _ \<leftarrow> refreshActiveTenants svc (msg_Id msg) '''' (msg_LocalAttributes msg);
          r \<leftarrow> resolveConfig svc tenant collectorGroup;
          case r of
            Inl err \<Rightarrow> State_Monad.return (Inl err)
          | Inr resolved \<Rightarrow>
              if msg_Hash msg = res_ContentHash resolved
              then do { _ \<leftarrow> countRPC w svc ''config_not_modified_total'';
                        State_Monad.return
                          (Inr \<lparr>resp_Content = '''', resp_Hash = '''', resp_NotModified = True\<rparr>) }
              else do { _ \<leftarrow> countRPC w svc ''config_served_total'';
                        State_Monad.return
                          (Inr \<lparr>resp_Content = res_Content resolved, resp_Hash = res_ContentHash resolved,
                                resp_NotModified = False\<rparr>) } }"

definition RegisterCollector ::
  "('s, 'e) CollectorService \<Rightarrow> RegisterCollectorRequest \<Rightarrow> ('s, 'e connect_error + unit) state" where
  "RegisterCollector svc msg =
     do { err \<leftarrow> refreshActiveTenants svc (reg_Id msg) (reg_Name msg) (reg_LocalAttributes msg);
          State_Monad.return
            (case err of None \<Rightarrow> Inr () | Some e \<Rightarrow> Inl (connect_NewError CodeInternal e)) }"

definition UnregisterCollector ::
  "('s, 'e) CollectorService \<Rightarrow> string \<Rightarrow> ('s, 'e connect_error + unit) state" where
  "UnregisterCollector svc collectorID =
     do { err \<leftarrow> Unregister (svc_registry svc) collectorID;
          State_Monad.return
            (case err of None \<Rightarrow> Inr () | Some e \<Rightarrow> Inl (connect_NewError CodeInternal e)) }"

section \<open>Specification of the fallback chain\<close>

text \<open>
  What the chain may answer, on the stored resources alone: the tenant's binding decides when there is
  one, then the group's, then the default.
\<close>

definition chain_answers ::
  "cluster \<Rightarrow> string \<Rightarrow> string \<Rightarrow> string \<Rightarrow> 'e resolution \<Rightarrow> bool" where
  "chain_answers c ns tenant grp r \<longleftrightarrow>
     (if tenant \<noteq> '''' \<and> (\<exists>n b. cl_cgbs c (ns, n) = Some b \<and> TenantRef (Spec b) = tenant)
      then resolves_binding c ns (\<lambda>sp. TenantRef sp = tenant) r
      else if grp \<noteq> '''' \<and> (\<exists>n b. cl_cgbs c (ns, n) = Some b \<and> CollectorGroupRef (Spec b) = grp)
      then resolves_binding c ns (\<lambda>sp. CollectorGroupRef sp = grp) r
      else resolves_default c ns r)"

definition to_connect :: "'e resolution \<Rightarrow> 'e connect_error + ResolvedConfig" where
  "to_connect r = (case r of Inl err \<Rightarrow> Inl (mapError err) | Inr resolved \<Rightarrow> Inr resolved)"

section \<open>Lemmas\<close>

lemma resolves_config_found:
  "resolves_config x r \<Longrightarrow> r = Inl err \<Longrightarrow> \<not> errors_Is err ErrConfigNotFound"
  by (auto simp: resolves_config_def toPipelineResult_def split: option.splits if_splits)

lemma resolves_binding_found:
  assumes "resolves_binding c ns P r" "\<exists>n b. cl_cgbs c (ns, n) = Some b \<and> P (Spec b)" "r = Inl err"
  shows "\<not> errors_Is err ErrConfigNotFound"
  using assms(1,2) unfolding resolves_binding_def by (auto dest: resolves_config_found [OF _ assms(3)])

lemma chain_answers_no_tenant:
  assumes "\<not> (\<exists>n b. cl_cgbs c (ns, n) = Some b \<and> TenantRef (Spec b) = tenant)"
  shows "chain_answers c ns tenant grp r = chain_answers c ns '''' grp r"
  unfolding chain_answers_def using assms by (simp only: simp_thms if_False)

lemma chain_answers_no_group:
  assumes "\<not> (\<exists>n b. cl_cgbs c (ns, n) = Some b \<and> CollectorGroupRef (Spec b) = grp)"
  shows "chain_answers c ns '''' grp r = chain_answers c ns '''' '''' r"
  unfolding chain_answers_def using assms by (simp only: simp_thms if_False)

lemma chain_answers_cong:
  assumes "same_resources c c'"
  shows "chain_answers c ns tenant grp r = chain_answers c' ns tenant grp r"
  unfolding chain_answers_def resolves_cong [OF assms]
  using assms unfolding same_resources_def by (simp only:)

lemma fall_through_skip:
  "result_of step s = Inl ErrConfigNotFound \<Longrightarrow>
     run_state (fall_through step next_step) s = run_state next_step (state_after step s)"
  by (simp add: fall_through_def)

lemma fall_through_stop:
  "(\<And>err. result_of step s = Inl err \<Longrightarrow> \<not> errors_Is err ErrConfigNotFound) \<Longrightarrow>
     run_state (fall_through step next_step) s = (to_connect (result_of step s), state_after step s)"
  by (auto simp: fall_through_def to_connect_def split: sum.splits)

definition respond :: "string \<Rightarrow> 'e resolution \<Rightarrow> 'e connect_error + GetConfigResponse" where
  "respond known_hash r =
     (case r of
        Inl err \<Rightarrow> Inl (mapError err)
      | Inr resolved \<Rightarrow>
          Inr (if known_hash = res_ContentHash resolved
               then \<lparr>resp_Content = '''', resp_Hash = '''', resp_NotModified = True\<rparr>
               else \<lparr>resp_Content = res_Content resolved, resp_Hash = res_ContentHash resolved,
                     resp_NotModified = False\<rparr>))"

text \<open>The chain reports not-found exactly when nothing matches.\<close>

lemma resolves_default_not_found:
  "resolves_default c ns r \<Longrightarrow>
     (\<exists>err. r = Inl err \<and> errors_Is err ErrConfigNotFound) \<longleftrightarrow> \<not> (\<exists>n pc. cl_pcs c (ns, n) = Some pc \<and> is_default pc)"
  unfolding resolves_default_def by (auto simp: toPipelineResult_def split: if_splits)

lemma chain_not_found:
  assumes "chain_answers c ns tenant grp r"
  shows "(\<exists>err. r = Inl err \<and> errors_Is err ErrConfigNotFound) \<longleftrightarrow>
    \<not> (\<exists>n b. cl_cgbs c (ns, n) = Some b \<and>
         (tenant \<noteq> '''' \<and> TenantRef (Spec b) = tenant \<or> grp \<noteq> '''' \<and> CollectorGroupRef (Spec b) = grp)) \<and>
    \<not> (\<exists>n pc. cl_pcs c (ns, n) = Some pc \<and> Labels (Meta pc) LabelDefaultPipelineConfig = Some ''true'')"
proof -
  let ?T = "\<exists>n b. cl_cgbs c (ns, n) = Some b \<and> TenantRef (Spec b) = tenant"
  let ?G = "\<exists>n b. cl_cgbs c (ns, n) = Some b \<and> CollectorGroupRef (Spec b) = grp"
  consider (tenant) "tenant \<noteq> ''''" ?T | (grp) "\<not> (tenant \<noteq> '''' \<and> ?T)" "grp \<noteq> ''''" ?G
    | (none) "\<not> (tenant \<noteq> '''' \<and> ?T)" "\<not> (grp \<noteq> '''' \<and> ?G)" by blast
  then show ?thesis
  proof cases
    case tenant
    with assms have "resolves_binding c ns (\<lambda>sp. TenantRef sp = tenant) r"
      unfolding chain_answers_def by simp
    with resolves_binding_found [OF this tenant(2)] tenant show ?thesis by blast
  next
    case grp
    with assms have "resolves_binding c ns (\<lambda>sp. CollectorGroupRef sp = grp) r"
      unfolding chain_answers_def by (simp only: simp_thms if_True if_False)
    with resolves_binding_found [OF this grp(3)] grp show ?thesis by blast
  next
    case none
    with assms have "resolves_default c ns r"
      unfolding chain_answers_def by (simp only: simp_thms if_False)
    from resolves_default_not_found [OF this] none show ?thesis
      unfolding is_default_def by blast
  qed
qed

text \<open>Tenant entries play no part in resolution.\<close>

lemma only_tenants_specs:
  assumes "only_tenants c' c"
  shows "(\<exists>b. cl_cgbs c' k = Some b \<and> Q (Spec b)) \<longleftrightarrow> (\<exists>b. cl_cgbs c k = Some b \<and> Q (Spec b))"
proof -
  have "rel_option tenants_apart (cl_cgbs c' k) (cl_cgbs c k)"
    using assms unfolding only_tenants_def by blast
  then show ?thesis
    by (cases rule: option.rel_cases) (auto simp: tenants_apart_def dest: same_objectD)
qed

lemma chain_answers_tenants:
  assumes "only_tenants c' c"
  shows "chain_answers c' ns tenant grp r = chain_answers c ns tenant grp r"
proof -
  have "cl_pcs c' = cl_pcs c" using assms by (simp add: only_tenants_def)
  then have "resolves_default c' ns r = resolves_default c ns r"
    and "resolves_binding c' ns P r = resolves_binding c ns P r" for P
    unfolding resolves_default_def resolves_binding_def
    using only_tenants_specs [OF assms, where Q = P]
      only_tenants_specs [OF assms, where Q = "\<lambda>sp. P sp \<and> resolves_config (cl_pcs c (ns, PipelineConfigRef sp)) r"]
    by (simp_all only:)
  then show ?thesis
    unfolding chain_answers_def
    using only_tenants_specs [OF assms, where Q = "\<lambda>sp. TenantRef sp = tenant"]
      only_tenants_specs [OF assms, where Q = "\<lambda>sp. CollectorGroupRef sp = grp"]
    by (simp only:)
qed

text \<open>
  The chain over any resolver that meets the contract, and over any registry that touches nothing but
  tenant entries.
\<close>

lemma fall_through_frame:
  assumes "\<And>t. same_resources (view (state_after step t)) (view t)"
    and "\<And>t. same_resources (view (state_after next_step t)) (view t)"
  shows "same_resources (view (state_after (fall_through step next_step) s)) (view s)"
  using assms(1) [of s] assms(2) [of "state_after step s"]
  by (auto simp: fall_through_def intro: same_resources_trans split: sum.split)

locale service_effects =
  resolver: read_only_resolver "svc_resolver svc" abs + registry: collector_registry "svc_registry svc" abs
  for svc :: "('s, 'e) CollectorService"
    and abs :: "'s \<Rightarrow> cluster"
begin

lemma resolveConfig_frame:
  "same_resources (abs (state_after (resolveConfig svc tenant grp) s)) (abs s)"
proof -
  have last: "same_resources (abs (state_after (do { r \<leftarrow> ResolveDefault (svc_resolver svc) (svc_namespace svc);
      State_Monad.return (case r of Inl err \<Rightarrow> Inl (mapError err) | Inr resolved \<Rightarrow> Inr resolved) }) t)) (abs t)" for t
    using resolver.default_frame [of "svc_namespace svc" t] by simp
  show ?thesis
    unfolding resolveConfig_def Let_def
    by (auto intro!: fall_through_frame last resolver.tenant_frame resolver.group_frame simp del: run_bind)
qed

text \<open>The part of GetConfig before the counters writes nothing but tenant entries.\<close>

lemma GetConfig_writes:
  assumes "s1 = state_after (refreshActiveTenants svc (msg_Id msg) '''' (msg_LocalAttributes msg)) s"
  shows "only_tenants (abs s1) (abs s) \<and>
    same_resources (abs (state_after (resolveConfig svc tenant grp) s1)) (abs s1)"
  unfolding assms refreshActiveTenants_def by (simp add: registry.register_frame resolveConfig_frame)

lemma registration_writes:
  "only_tenants (abs (state_after (RegisterCollector svc reg) s)) (abs s)"
  "only_tenants (abs (state_after (UnregisterCollector svc collectorID) s)) (abs s)"
  by (simp_all add: RegisterCollector_def UnregisterCollector_def refreshActiveTenants_def
    registry.register_frame registry.unregister_frame)

end

locale collector_service = service_effects svc abs + resolver: config_resolver "svc_resolver svc" abs
  for svc :: "('s, 'e) CollectorService"
    and abs :: "'s \<Rightarrow> cluster"
begin

lemma default_step:
  "\<exists>r. chain_answers (abs s) (svc_namespace svc) '''' '''' r \<and>
     result_of (resolveConfig svc '''' '''') s = to_connect r \<and>
     same_resources (abs (state_after (resolveConfig svc '''' '''') s)) (abs s)"
  using resolver.by_default [of s "svc_namespace svc"] resolver.default_frame [of "svc_namespace svc" s]
  by (auto simp: chain_answers_def resolveConfig_def to_connect_def intro!: exI)

lemma group_step:
  "\<exists>r. chain_answers (abs s) (svc_namespace svc) '''' grp r \<and>
     result_of (resolveConfig svc '''' grp) s = to_connect r \<and>
     same_resources (abs (state_after (resolveConfig svc '''' grp) s)) (abs s)"
proof (cases "grp = ''''")
  case True
  with default_step show ?thesis by simp
next
  case False
  let ?ns = "svc_namespace svc" and ?P = "\<lambda>sp. CollectorGroupRef sp = grp"
  let ?step = "ResolveByCollectorGroup (svc_resolver svc) ?ns grp"
  have code: "resolveConfig svc '''' grp = fall_through ?step (resolveConfig svc '''' '''')"
    using False by (simp add: resolveConfig_def Let_def)
  note step = resolver.by_group [OF False, of s ?ns] and frame = resolver.group_frame [of ?ns grp s]
  show ?thesis
  proof (cases "\<exists>n b. cl_cgbs (abs s) (?ns, n) = Some b \<and> ?P (Spec b)")
    case True
    have "chain_answers (abs s) ?ns '''' grp (result_of ?step s)"
      using step True False by (auto simp: chain_answers_def)
    with fall_through_stop [of ?step s] resolves_binding_found [OF step True] frame show ?thesis
      unfolding code by force
  next
    case none: False
    have "result_of ?step s = Inl ErrConfigNotFound"
      using step resolves_binding_none [OF none] by blast
    moreover have "chain_answers (abs s) ?ns '''' grp r = chain_answers (abs (state_after ?step s)) ?ns '''' '''' r" for r
      using chain_answers_no_group [OF none] chain_answers_cong [OF frame] by blast
    ultimately show ?thesis
      using default_step [of "state_after ?step s"] same_resources_trans [OF _ frame] fall_through_skip [of ?step s]
      unfolding code by metis
  qed
qed

lemma resolveConfig_correct:
  "\<exists>r. chain_answers (abs s) (svc_namespace svc) tenant grp r \<and>
     result_of (resolveConfig svc tenant grp) s = to_connect r \<and>
     same_resources (abs (state_after (resolveConfig svc tenant grp) s)) (abs s)"
proof (cases "tenant = ''''")
  case True
  with group_step show ?thesis by simp
next
  case False
  let ?ns = "svc_namespace svc" and ?P = "\<lambda>sp. TenantRef sp = tenant"
  let ?step = "ResolveByTenant (svc_resolver svc) ?ns tenant"
  have code: "resolveConfig svc tenant grp = fall_through ?step (resolveConfig svc '''' grp)"
    using False by (simp add: resolveConfig_def Let_def)
  note step = resolver.by_tenant [OF False, of s ?ns] and frame = resolver.tenant_frame [of ?ns tenant s]
  show ?thesis
  proof (cases "\<exists>n b. cl_cgbs (abs s) (?ns, n) = Some b \<and> ?P (Spec b)")
    case True
    have "chain_answers (abs s) ?ns tenant grp (result_of ?step s)"
      using step True False by (auto simp: chain_answers_def)
    with fall_through_stop [of ?step s] resolves_binding_found [OF step True] frame show ?thesis
      unfolding code by force
  next
    case none: False
    have "result_of ?step s = Inl ErrConfigNotFound"
      using step resolves_binding_none [OF none] by blast
    moreover have "chain_answers (abs s) ?ns tenant grp r = chain_answers (abs (state_after ?step s)) ?ns '''' grp r" for r
      using chain_answers_no_tenant [OF none] chain_answers_cong [OF frame] by blast
    ultimately show ?thesis
      using group_step [of "state_after ?step s" grp] same_resources_trans [OF _ frame] fall_through_skip [of ?step s]
      unfolding code by metis
  qed
qed

text \<open>The heartbeat that precedes the resolution changes nothing the resolution depends on.\<close>

lemma GetConfig_correct:
  "\<exists>r. chain_answers (abs s) (svc_namespace svc) (map_get (msg_LocalAttributes msg) ''tenant'')
         (map_get (msg_LocalAttributes msg) ''collector_group'') r \<and>
     result_of (GetConfig w svc msg) s = respond (msg_Hash msg) r"
proof -
  let ?t = "map_get (msg_LocalAttributes msg) ''tenant''"
  let ?g = "map_get (msg_LocalAttributes msg) ''collector_group''"
  define s1 where "s1 = state_after (refreshActiveTenants svc (msg_Id msg) '''' (msg_LocalAttributes msg)) s"
  obtain r where r: "chain_answers (abs s1) (svc_namespace svc) ?t ?g r"
    "result_of (resolveConfig svc ?t ?g) s1 = to_connect r"
    using resolveConfig_correct by blast
  have "only_tenants (abs s1) (abs s)"
    unfolding s1_def refreshActiveTenants_def by (rule registry.register_frame)
  with r(1) have "chain_answers (abs s) (svc_namespace svc) ?t ?g r"
    by (simp add: chain_answers_tenants)
  moreover have "result_of (GetConfig w svc msg) s = respond (msg_Hash msg) r"
    using r(2) by (cases r) (simp_all add: GetConfig_def respond_def to_connect_def s1_def Let_def)
  ultimately show ?thesis by blast
qed

end

section \<open>The wiring of the operator\<close>

text \<open>The service as \<open>cmd/main.go\<close> assembles it.\<close>

definition main_service :: "('s, 'e) world \<Rightarrow> string \<Rightarrow> ('s, 'e) CollectorService" where
  "main_service w ns =
     (let baseResolver = ConfigResolver w;
          resolver = MetricsConfigResolver w baseResolver;
          registry = KubernetesCollectorRegistry w ns
      in NewCollectorService resolver registry ns [True])"

lemma main_service_simps [simp]:
  "svc_resolver (main_service w ns) = MetricsConfigResolver w (ConfigResolver w)"
  "svc_registry (main_service w ns) = KubernetesCollectorRegistry w ns"
  "svc_namespace (main_service w ns) = ns"
  "svc_rpcMetrics (main_service w ns)"
  by (simp_all add: main_service_def NewCollectorService_def)

context kube_world
begin

lemma metered_resolver: "metered_resolver w abs (ConfigResolver w)"
  by (intro metered_resolver.intro metered_reader.intro kube_lib_axioms ConfigResolver_contract
    cached.read_only_resolver_axioms)

lemma main_service_contract: "collector_service (main_service w ns) abs"
proof -
  have resolver: "config_resolver (MetricsConfigResolver w (ConfigResolver w)) abs"
    by (rule metered_resolver.MetricsConfigResolver_contract [OF metered_resolver])
  then show ?thesis
    by (intro collector_service.intro service_effects.intro)
      (simp_all add: config_resolver.axioms(1) KubernetesCollectorRegistry_contract)
qed

end

interpretation mem_service: collector_service "main_service mem_world ''ns''" mem_abs
  by (rule mem.main_service_contract)

section \<open>Lemmas: counting\<close>

context kube_lib
begin

lemma GetConfig_counts:
  assumes "s1 = state_after (resolveConfig svc (map_get (msg_LocalAttributes msg) ''tenant'')
      (map_get (msg_LocalAttributes msg) ''collector_group''))
      (state_after (refreshActiveTenants svc (msg_Id msg) '''' (msg_LocalAttributes msg)) s)"
    and "svc_rpcMetrics svc"
  shows "abs (state_after (GetConfig w svc msg) s) =
    (abs s1)\<lparr>cl_metrics := cl_metrics (abs s1) @
       (case result_of (GetConfig w svc msg) s of
          Inl _ \<Rightarrow> []
        | Inr resp \<Rightarrow>
            [CounterInc (if resp_NotModified resp then ''config_not_modified_total'' else ''config_served_total'') []])\<rparr>"
  using assms by (simp add: GetConfig_def Let_def countRPC_def emit_abs split: sum.split)

lemma countRPC_resources [simp]:
  "same_resources (abs (state_after (countRPC w svc metric) s)) c = same_resources (abs s) c"
  by (simp add: countRPC_def emit_abs)

lemma GetConfig_effects:
  assumes "service_effects svc abs"
  shows "\<exists>c. only_tenants c (abs s) \<and> same_resources (abs (state_after (GetConfig w svc msg) s)) c"
proof -
  define s1 where "s1 = state_after (refreshActiveTenants svc (msg_Id msg) '''' (msg_LocalAttributes msg)) s"
  have "only_tenants (abs s1) (abs s)"
    and "same_resources (abs (state_after (resolveConfig svc tenant grp) s1)) (abs s1)" for tenant grp
    using service_effects.GetConfig_writes [OF assms s1_def] by blast+
  then show ?thesis
    by (intro exI [of _ "abs s1"]) (simp add: GetConfig_def Let_def s1_def [symmetric] split: sum.split)
qed

end

context kube_world
begin

lemma GetConfig_frame:
  "\<exists>c. only_tenants c (abs s) \<and> same_resources (abs (state_after (GetConfig w (main_service w ns) msg) s)) c"
  by (rule GetConfig_effects [OF collector_service.axioms(1) [OF main_service_contract]])

end

section \<open>Properties\<close>

text \<open>
  C2: The operator's GetConfig answers what the fallback chain over the stored resources allows: the
  PipelineConfig of a binding of the tenant if one exists, else of a binding of the collector group,
  else a default PipelineConfig. A collector that already knows the hash is told NotModified, any
  other receives the content with its hash, and a failed resolution is mapped to its Connect code.
  The heartbeat registration that precedes it, failed or not, does not change the answer, and the
  call writes nothing but tenant entries of bindings and metrics.
\<close>

theorem get_config_follows_chain:
  assumes "kube_world w view wire version"
  shows "\<exists>r. chain_answers (view s) ns (map_get (msg_LocalAttributes msg) ''tenant'')
           (map_get (msg_LocalAttributes msg) ''collector_group'') r \<and>
         result_of (GetConfig w (main_service w ns) msg) s = respond (msg_Hash msg) r \<and>
         (\<exists>c. only_tenants c (view s) \<and>
            same_resources (view (state_after (GetConfig w (main_service w ns) msg) s)) c)"
  using collector_service.GetConfig_correct [OF kube_world.main_service_contract [OF assms], of s ns msg w]
    kube_world.GetConfig_frame [OF assms, of s ns msg]
  by auto

definition sample_served :: mem where
  "sample_served = sample [sample_pc ''base'' ''logging'' ''h1'' 1 [] None, sample_default_pc] []
     [sample_binding ''bt'' '''' ''t1'' ''base'' '''' '''' [] [] None]"

definition sample_poll :: "string \<Rightarrow> string \<Rightarrow> GetConfigRequest" where
  "sample_poll tenant hash =
     \<lparr>msg_Id = ''c1'', msg_LocalAttributes = [''tenant'' \<mapsto> tenant], msg_Hash = hash\<rparr>"

lemma sample_served_view [simp]:
  "cl_pcs (mem_abs sample_served) =
     [(''ns'', ''default'') \<mapsto> sample_default_pc,
      (''ns'', ''base'') \<mapsto> sample_pc ''base'' ''logging'' ''h1'' 1 [] None]"
  "cl_cgbs (mem_abs sample_served) =
     [(''ns'', ''bt'') \<mapsto> sample_binding ''bt'' '''' ''t1'' ''base'' '''' '''' [] [] None]"
  by (simp_all add: sample_served_def)

lemma sample_served_tenant:
  "chain_answers (mem_abs sample_served) ''ns'' ''t1'' '''' r \<Longrightarrow>
     r = Inr \<lparr>res_Content = ''logging'', res_ContentHash = ''h1''\<rparr>"
  unfolding chain_answers_def resolves_binding_def
  by (auto simp: resolves_config_def toPipelineResult_def split: if_splits)

theorem get_config_follows_chain_witness:
  "result_of (GetConfig mem_world (main_service mem_world ''ns'') (sample_poll ''t1'' ''old'')) sample_served =
     Inr \<lparr>resp_Content = ''logging'', resp_Hash = ''h1'', resp_NotModified = False\<rparr>"
  using get_config_follows_chain [of mem_world mem_abs mem_wire mem_version sample_served "''ns''" "sample_poll ''t1'' ''old''"]
  by (auto simp: sample_poll_def map_get_def respond_def dest!: sample_served_tenant)

text \<open>
  C11: A tenant that is bound is never served another configuration: when the tenant has a binding, the
  operator's GetConfig answers from a PipelineConfig that a binding of the tenant refers to, and if
  the referenced PipelineConfig is missing or not yet hashed the call fails with Internal or
  Unavailable instead of falling back to the group or the default.
\<close>

theorem bound_tenant_gets_no_fallback:
  assumes world: "kube_world w view wire version"
    and tenant: "tenant = map_get (msg_LocalAttributes msg) ''tenant''" "tenant \<noteq> ''''"
    and bound: "cl_cgbs (view s) (ns, n) = Some b" "TenantRef (Spec b) = tenant"
  shows "\<exists>n b. cl_cgbs (view s) (ns, n) = Some b \<and> TenantRef (Spec b) = tenant \<and>
    (case cl_pcs (view s) (ns, PipelineConfigRef (Spec b)) of
       None \<Rightarrow> \<exists>e. result_of (GetConfig w (main_service w ns) msg) s = Inl e \<and> err_Code e = CodeInternal
     | Some pc \<Rightarrow>
         if ContentHash (Status pc) = ''''
         then result_of (GetConfig w (main_service w ns) msg) s =
           Inl \<lparr>err_Code = CodeUnavailable, err_Cause = ErrConfigNotReady\<rparr>
         else result_of (GetConfig w (main_service w ns) msg) s =
           Inr (if msg_Hash msg = ContentHash (Status pc)
                then \<lparr>resp_Content = '''', resp_Hash = '''', resp_NotModified = True\<rparr>
                else \<lparr>resp_Content = Content (Spec pc), resp_Hash = ContentHash (Status pc),
                      resp_NotModified = False\<rparr>))"
proof -
  let ?g = "map_get (msg_LocalAttributes msg) ''collector_group''"
  obtain r where r: "chain_answers (view s) ns tenant ?g r"
    "result_of (GetConfig w (main_service w ns) msg) s = respond (msg_Hash msg) r"
    using collector_service.GetConfig_correct [OF kube_world.main_service_contract [OF world], of s ns msg w] tenant(1)
    by auto
  have ex: "\<exists>n b. cl_cgbs (view s) (ns, n) = Some b \<and> TenantRef (Spec b) = tenant" using bound by blast
  with r(1) tenant(2) have "resolves_binding (view s) ns (\<lambda>sp. TenantRef sp = tenant) r"
    unfolding chain_answers_def by simp
  with ex obtain m b' where b': "cl_cgbs (view s) (ns, m) = Some b'" "TenantRef (Spec b') = tenant"
    "resolves_config (cl_pcs (view s) (ns, PipelineConfigRef (Spec b'))) r"
    unfolding resolves_binding_def by auto
  then show ?thesis
    unfolding r(2)
    by (intro exI [of _ m] exI [of _ b'])
      (auto simp: resolves_config_def toPipelineResult_def respond_def mapError_def connect_NewError_def
        split: option.splits)
qed

theorem bound_tenant_gets_no_fallback_witness:
  "\<exists>e. result_of (GetConfig mem_world (main_service mem_world ''ns'') (sample_poll ''t1'' ''''))
     (sample [sample_default_pc] [] [sample_binding ''bt'' '''' ''t1'' ''gone'' '''' '''' [] [] None]) = Inl e \<and>
     err_Code e = CodeInternal"
  using bound_tenant_gets_no_fallback [of mem_world mem_abs mem_wire mem_version "''t1''" "sample_poll ''t1'' ''''"
      "sample [sample_default_pc] [] [sample_binding ''bt'' '''' ''t1'' ''gone'' '''' '''' [] [] None]" "''ns''" "''bt''"
      "sample_binding ''bt'' '''' ''t1'' ''gone'' '''' '''' [] [] None"]
  by (auto simp: sample_poll_def map_get_def split: if_splits)

text \<open>
  The operator's GetConfig reports NotFound exactly when the collector's tenant has no binding, its
  group has no binding, and no PipelineConfig of the namespace is labelled as the default.
\<close>

theorem not_found_means_nothing_matches:
  assumes "kube_world w view wire version"
    and "tenant = map_get (msg_LocalAttributes msg) ''tenant''"
    and "grp = map_get (msg_LocalAttributes msg) ''collector_group''"
  shows "(\<exists>e. result_of (GetConfig w (main_service w ns) msg) s = Inl e \<and> err_Code e = CodeNotFound) \<longleftrightarrow>
    \<not> (\<exists>n b. cl_cgbs (view s) (ns, n) = Some b \<and>
         (tenant \<noteq> '''' \<and> TenantRef (Spec b) = tenant \<or> grp \<noteq> '''' \<and> CollectorGroupRef (Spec b) = grp)) \<and>
    \<not> (\<exists>n pc. cl_pcs (view s) (ns, n) = Some pc \<and> Labels (Meta pc) LabelDefaultPipelineConfig = Some ''true'')"
proof -
  obtain r where r: "chain_answers (view s) ns tenant grp r"
    "result_of (GetConfig w (main_service w ns) msg) s = respond (msg_Hash msg) r"
    using collector_service.GetConfig_correct [OF kube_world.main_service_contract [OF assms(1)], of s ns msg w] assms(2,3)
    by auto
  have code: "(\<exists>e. respond (msg_Hash msg) r = Inl e \<and> err_Code e = CodeNotFound) \<longleftrightarrow>
      (\<exists>err. r = Inl err \<and> errors_Is err ErrConfigNotFound)"
    by (cases r) (auto simp: respond_def mapError_def connect_NewError_def)
  show ?thesis
    unfolding r(2) code by (rule chain_not_found [OF r(1)])
qed

theorem not_found_means_nothing_matches_witness:
  "\<exists>e. result_of (GetConfig mem_world (main_service mem_world ''ns'') (sample_poll ''t9'' ''''))
     (sample_registry []) = Inl e \<and> err_Code e = CodeNotFound"
  using not_found_means_nothing_matches [of mem_world mem_abs mem_wire mem_version "''t9''" "sample_poll ''t9'' ''''" "''''"
      "''ns''" "sample_registry []"]
  by (simp add: sample_poll_def map_get_def sample_registry_view) (simp add: sample_registry_def)

text \<open>
  C31: With metrics enabled, every successful GetConfig is counted once: as not modified when the
  response says so and as served otherwise. A failed one is counted as neither.
\<close>

theorem get_config_counted_once:
  assumes "kube_lib w view" and "svc_rpcMetrics svc"
    and "s1 = state_after (resolveConfig svc (map_get (msg_LocalAttributes msg) ''tenant'')
      (map_get (msg_LocalAttributes msg) ''collector_group''))
      (state_after (refreshActiveTenants svc (msg_Id msg) '''' (msg_LocalAttributes msg)) s)"
  shows "cl_metrics (view (state_after (GetConfig w svc msg) s)) =
    cl_metrics (view s1) @
      (case result_of (GetConfig w svc msg) s of
         Inl _ \<Rightarrow> []
       | Inr resp \<Rightarrow>
           [CounterInc (if resp_NotModified resp then ''config_not_modified_total'' else ''config_served_total'') []])"
  using kube_lib.GetConfig_counts [OF assms(1,3,2)] by simp

theorem get_config_counted_once_witness:
  "\<exists>s1. cl_metrics (mem_abs (state_after (GetConfig mem_world (main_service mem_world ''ns'') (sample_poll ''t1'' ''old''))
      sample_served)) = cl_metrics (mem_abs s1) @ [CounterInc ''config_served_total'' []]"
proof -
  have "result_of (GetConfig mem_world (main_service mem_world ''ns'') (sample_poll ''t1'' ''old'')) sample_served =
     Inr \<lparr>resp_Content = ''logging'', resp_Hash = ''h1'', resp_NotModified = False\<rparr>"
    using mem_service.GetConfig_correct [of sample_served "sample_poll ''t1'' ''old''" mem_world]
    by (auto simp: sample_poll_def map_get_def respond_def dest!: sample_served_tenant)
  then show ?thesis
    using get_config_counted_once [of mem_world mem_abs "main_service mem_world ''ns''" _ "sample_poll ''t1'' ''old''"
      sample_served, OF mem_lib _ refl] by auto
qed

text \<open>
  C30: The measuring resolver is transparent: each of its methods returns what the wrapped resolver
  returns, leaves the same resources, and records one counter increment and the elapsed time
  under the step's label and an outcome that says what happened: \<open>found\<close> exactly when a configuration
  was returned, and \<open>not_found\<close>, \<open>not_ready\<close> or \<open>error\<close> exactly when the service would report the error
  as NotFound, Unavailable or Internal.
\<close>

theorem metrics_resolver_is_transparent:
  assumes "kube_lib w view"
    and "(path, outer, inner) \<in>
      {(''tenant'', ResolveByTenant (MetricsConfigResolver w R) ns x, ResolveByTenant R ns x),
       (''collectorgroup'', ResolveByCollectorGroup (MetricsConfigResolver w R) ns x, ResolveByCollectorGroup R ns x),
       (''default'', ResolveDefault (MetricsConfigResolver w R) ns, ResolveDefault R ns)}"
    and "s1 = state_after (Now w) s"
    and "d = result_of (Now w) (state_after inner s1) - result_of (Now w) s"
  shows "result_of outer s = result_of inner s1 \<and> view s1 = view s \<and>
    (\<exists>outcome.
       view (state_after outer s) = (view (state_after inner s1))\<lparr>cl_metrics :=
         cl_metrics (view (state_after inner s1)) @
           [CounterInc ''config_resolution_total'' [path, outcome],
            HistogramObserve ''config_resolution_duration_seconds'' [path, outcome] d]\<rparr> \<and>
       (outcome = ''found'' \<longleftrightarrow> (\<exists>resolved. result_of inner s1 = Inr resolved)) \<and>
       (outcome = ''not_found'' \<longleftrightarrow> (\<exists>err. result_of inner s1 = Inl err \<and> err_Code (mapError err) = CodeNotFound)) \<and>
       (outcome = ''not_ready'' \<longleftrightarrow> (\<exists>err. result_of inner s1 = Inl err \<and> err_Code (mapError err) = CodeUnavailable)) \<and>
       (outcome = ''error'' \<longleftrightarrow> (\<exists>err. result_of inner s1 = Inl err \<and> err_Code (mapError err) = CodeInternal)))"
proof -
  let ?outcome = "classifyOutcome (result_of inner s1)"
  have "outer = observe w path inner" using assms(2) by (auto simp: MetricsConfigResolver_def)
  then have "result_of outer s = result_of inner s1" "view s1 = view s"
    "view (state_after outer s) = (view (state_after inner s1))\<lparr>cl_metrics :=
       cl_metrics (view (state_after inner s1)) @
         [CounterInc ''config_resolution_total'' [path, ?outcome],
          HistogramObserve ''config_resolution_duration_seconds'' [path, ?outcome] d]\<rparr>"
    using assms(3,4) by (simp_all add: observe_def Let_def kube_lib.now_abs [OF assms(1)] kube_lib.emit_abs [OF assms(1)])
  moreover have "?outcome = ''found'' \<longleftrightarrow> (\<exists>resolved. result_of inner s1 = Inr resolved)"
    "?outcome = ''not_found'' \<longleftrightarrow> (\<exists>err. result_of inner s1 = Inl err \<and> err_Code (mapError err) = CodeNotFound)"
    "?outcome = ''not_ready'' \<longleftrightarrow> (\<exists>err. result_of inner s1 = Inl err \<and> err_Code (mapError err) = CodeUnavailable)"
    "?outcome = ''error'' \<longleftrightarrow> (\<exists>err. result_of inner s1 = Inl err \<and> err_Code (mapError err) = CodeInternal)"
    by (cases "result_of inner s1"; simp add: classifyOutcome_def mapError_def connect_NewError_def)+
  ultimately show ?thesis by blast
qed

theorem metrics_resolver_is_transparent_witness:
  "result_of (ResolveDefault (MetricsConfigResolver mem_world (ConfigResolver mem_world)) ''ns'') sample_served =
     result_of (ResolveDefault (ConfigResolver mem_world) ''ns'') (state_after (Now mem_world) sample_served)"
  using metrics_resolver_is_transparent [of mem_world mem_abs "''default''" _ _ "ConfigResolver mem_world" "''ns''"
      "''''" _ sample_served, OF mem_lib _ refl refl] by blast

text \<open>
  C32: On any registry, RegisterCollector and UnregisterCollector leave what the registry leaves and
  fail exactly when the registry reports an error, with Internal and that error as its cause. In the
  operator, in a cluster without faults, RegisterCollector fails exactly when the collector names no
  tenant, and then nothing is written; otherwise the collector's entry is upserted in the binding that
  matches its tenant or else its group, if there is one. UnregisterCollector succeeds; it takes
  the first entry of the collector out of one binding that holds one and changes nothing else.
\<close>

theorem registration_handlers_report:
  assumes world: "kube_world w view wire version"
    and tenant: "tenant = map_get (reg_LocalAttributes msg) ''tenant''"
    and grp: "grp = map_get (reg_LocalAttributes msg) ''collector_group''"
    and info: "info = \<lparr>info_ID = reg_Id msg, info_Name = reg_Name msg, info_LocalAttributes = reg_LocalAttributes msg\<rparr>"
    and after: "s' = state_after (RegisterCollector (main_service w ns) msg) s"
      "s'' = state_after (UnregisterCollector (main_service w ns) c) s"
  shows "(\<forall>err. result_of (RegisterCollector svc msg) t = Inl err \<longleftrightarrow>
      (\<exists>e. result_of (Register (svc_registry svc) info) t = Some e \<and> err = \<lparr>err_Code = CodeInternal, err_Cause = e\<rparr>)) \<and>
    state_after (RegisterCollector svc msg) t = state_after (Register (svc_registry svc) info) t \<and>
    (\<forall>err. result_of (UnregisterCollector svc c) t = Inl err \<longleftrightarrow>
      (\<exists>e. result_of (Unregister (svc_registry svc) c) t = Some e \<and> err = \<lparr>err_Code = CodeInternal, err_Cause = e\<rparr>)) \<and>
    state_after (UnregisterCollector svc c) t = state_after (Unregister (svc_registry svc) c) t \<and>
    (if tenant = ''''
     then s' = s \<and> result_of (RegisterCollector (main_service w ns) msg) s = Inl \<lparr>err_Code = CodeInternal,
       err_Cause = Errorf ''collector %q has no tenant attribute; skipping registration'' [reg_Id msg] None\<rparr>
     else result_of (RegisterCollector (main_service w ns) msg) s = Inr () \<and>
       (\<exists>x. registers_at (view s) ns tenant grp x \<and>
         (case x of
            None \<Rightarrow> view s' = view s
          | Some b \<Rightarrow> \<exists>b' at. view s' = with_cgb (key_of b) b' (view s) \<and>
              with_tenants (upsertTenant (RegisteredTenants (Status b))
                \<lparr>ID = tenant, CollectorID = reg_Id msg, LastSeenAt = at\<rparr>) b b'))) \<and>
    result_of (UnregisterCollector (main_service w ns) c) s = Inr () \<and>
    (if \<exists>n b. cl_cgbs (view s) (ns, n) = Some b \<and> c \<in> CollectorID ` set (RegisteredTenants (Status b))
     then \<exists>n b b'. cl_cgbs (view s) (ns, n) = Some b \<and> c \<in> CollectorID ` set (RegisteredTenants (Status b)) \<and>
       view s'' = with_cgb (ns, n) b' (view s) \<and>
       with_tenants (remove_collector c (RegisteredTenants (Status b))) b b'
     else view s'' = view s)"
proof -
  have any: "result_of (RegisterCollector svc msg) t = Inl err \<longleftrightarrow>
      (\<exists>e. result_of (Register (svc_registry svc) info) t = Some e \<and> err = \<lparr>err_Code = CodeInternal, err_Cause = e\<rparr>)"
    "state_after (RegisterCollector svc msg) t = state_after (Register (svc_registry svc) info) t"
    "result_of (UnregisterCollector svc c) t = Inl err \<longleftrightarrow>
      (\<exists>e. result_of (Unregister (svc_registry svc) c) t = Some e \<and> err = \<lparr>err_Code = CodeInternal, err_Cause = e\<rparr>)"
    "state_after (UnregisterCollector svc c) t = state_after (Unregister (svc_registry svc) c) t"
    for err
    by (auto simp: RegisterCollector_def UnregisterCollector_def refreshActiveTenants_def connect_NewError_def info
      split: option.split)
  have wired: "result_of (RegisterCollector (main_service w ns) msg) s =
      (case result_of (registry_Register w ns info) s of None \<Rightarrow> Inr () | Some e \<Rightarrow> Inl \<lparr>err_Code = CodeInternal, err_Cause = e\<rparr>)"
    "s' = state_after (registry_Register w ns info) s"
    "result_of (UnregisterCollector (main_service w ns) c) s =
      (case result_of (registry_Unregister w ns c) s of None \<Rightarrow> Inr () | Some e \<Rightarrow> Inl \<lparr>err_Code = CodeInternal, err_Cause = e\<rparr>)"
    "s'' = state_after (registry_Unregister w ns c) s"
    by (simp_all add: after RegisterCollector_def UnregisterCollector_def refreshActiveTenants_def connect_NewError_def
      KubernetesCollectorRegistry_def info split: option.split)
  have named: "map_get (info_LocalAttributes info) ''tenant'' = tenant"
    "map_get (info_LocalAttributes info) ''collector_group'' = grp" "info_ID info = reg_Id msg"
    by (simp_all add: info tenant grp)
  have none: "tenant = '''' \<Longrightarrow> run_state (registry_Register w ns info) s =
      (Some (Errorf ''collector %q has no tenant attribute; skipping registration'' [reg_Id msg] None), s)"
    using named by (simp add: registry_Register_def)
  note some = kube_world.registry_Register_correct [OF world named(1) _ named(2), of ns s, unfolded named]
  have gone: "result_of (UnregisterCollector (main_service w ns) c) s = Inr ()"
    using kube_world.registry_Unregister_correct [OF world, of ns c s] wired(3) by simp
  note left = kube_world.registry_Unregister_correct [OF world, of ns c s, THEN conjunct2, folded wired(4)]
  have registered: "if tenant = ''''
     then s' = s \<and> result_of (RegisterCollector (main_service w ns) msg) s = Inl \<lparr>err_Code = CodeInternal,
       err_Cause = Errorf ''collector %q has no tenant attribute; skipping registration'' [reg_Id msg] None\<rparr>
     else result_of (RegisterCollector (main_service w ns) msg) s = Inr () \<and>
       (\<exists>x. registers_at (view s) ns tenant grp x \<and>
         (case x of
            None \<Rightarrow> view s' = view s
          | Some b \<Rightarrow> \<exists>b' at. view s' = with_cgb (key_of b) b' (view s) \<and>
              with_tenants (upsertTenant (RegisteredTenants (Status b))
                \<lparr>ID = tenant, CollectorID = reg_Id msg, LastSeenAt = at\<rparr>) b b'))"
    using none some wired(1) unfolding wired(2) by (cases "tenant = ''''") simp_all
  show ?thesis
    by (intro conjI allI any registered gone left)
qed

theorem registration_handlers_report_witness:
  "result_of (RegisterCollector (main_service mem_world ''ns'')
     \<lparr>reg_Id = ''c1'', reg_Name = ''alloy'', reg_LocalAttributes = [''collector_group'' \<mapsto> ''g1'']\<rparr>) sample_served =
   Inl \<lparr>err_Code = CodeInternal, err_Cause =
     Errorf ''collector %q has no tenant attribute; skipping registration'' [''c1''] None\<rparr> \<and>
   result_of (UnregisterCollector (main_service mem_world ''ns'') ''c1'') sample_served = Inr ()"
proof -
  let ?msg = "\<lparr>reg_Id = ''c1'', reg_Name = ''alloy'', reg_LocalAttributes = [''collector_group'' \<mapsto> ''g1'']\<rparr>"
  have "map_get (reg_LocalAttributes ?msg) ''tenant'' = ''''" by (simp add: map_get_def)
  with registration_handlers_report [of mem_world mem_abs mem_wire mem_version _ ?msg _ _ _ "''ns''" sample_served _
      "''c1''" "main_service mem_world ''ns''" sample_served, OF kube_world_mem refl refl refl refl refl]
  show ?thesis by simp
qed

end
