(* ===== verification/Metrics_Defs.thy ===== *)
theory Metrics_Defs
  imports Kube_World
begin

text \<open>
  The operator's Prometheus metrics (\<open>internal/metrics/metrics.go\<close>, \<open>register.go\<close>): their names, label
  names and buckets, the order in which they are registered, and the build information gauge. A
  metric vector panics when it is used with another number of label values than it was declared
  with; \<open>well_labelled\<close> says that a call respects the declaration.
\<close>

section \<open>Declarations\<close>

datatype metric_type = CounterVec | HistogramVec "nat list" | GaugeVec | Collector

record metric_opts =
  opt_Namespace :: string
  opt_Name :: string
  opt_Labels :: "string list"
  opt_Type :: metric_type

definition metricsNamespace :: string where
  "metricsNamespace = ''alloy_remote_config''"

definition metric_opts_of :: "string \<Rightarrow> string list \<Rightarrow> metric_type \<Rightarrow> metric_opts" where
  "metric_opts_of n ls t = \<lparr>opt_Namespace = metricsNamespace, opt_Name = n, opt_Labels = ls, opt_Type = t\<rparr>"

text \<open>Bucket bounds in microseconds.\<close>

definition rpcDurationBuckets :: "nat list" where
  "rpcDurationBuckets =
     [1000, 5000, 10000, 25000, 50000, 100000, 250000, 500000, 1000000, 2500000, 5000000, 10000000]"

definition resolutionDurationBuckets :: "nat list" where
  "resolutionDurationBuckets = [100, 250, 500, 1000, 2500, 5000, 10000, 25000, 50000]"

record RPCMetrics =
  rpc_Requests :: metric_opts
  rpc_Duration :: metric_opts
  rpc_Served :: metric_opts
  rpc_NotModified :: metric_opts

definition NewRPCMetrics :: RPCMetrics where
  "NewRPCMetrics =
     \<lparr>rpc_Requests = metric_opts_of ''rpc_requests_total'' [''procedure'', ''code''] CounterVec,
      rpc_Duration = metric_opts_of ''rpc_request_duration_seconds'' [''procedure'', ''code'']
        (HistogramVec rpcDurationBuckets),
      rpc_Served = metric_opts_of ''config_served_total'' [] CounterVec,
      rpc_NotModified = metric_opts_of ''config_not_modified_total'' [] CounterVec\<rparr>"

record ResolutionMetrics =
  resm_Total :: metric_opts
  resm_Duration :: metric_opts

definition NewResolutionMetrics :: ResolutionMetrics where
  "NewResolutionMetrics =
     \<lparr>resm_Total = metric_opts_of ''config_resolution_total'' [''path'', ''outcome''] CounterVec,
      resm_Duration = metric_opts_of ''config_resolution_duration_seconds'' [''path'', ''outcome'']
        (HistogramVec resolutionDurationBuckets)\<rparr>"

record HTTPMetrics =
  http_RequestsTotal :: metric_opts
  http_RequestDuration :: metric_opts

definition NewHTTPMetrics :: HTTPMetrics where
  "NewHTTPMetrics =
     \<lparr>http_RequestsTotal = metric_opts_of ''http_requests_total'' [''method'', ''code''] CounterVec,
      http_RequestDuration = metric_opts_of ''http_request_duration_seconds'' [''method'', ''code'']
        (HistogramVec rpcDurationBuckets)\<rparr>"

record ControllerMetrics =
  ctrl_TenantsEvicted :: metric_opts

definition NewControllerMetrics :: ControllerMetrics where
  "NewControllerMetrics =
     \<lparr>ctrl_TenantsEvicted = metric_opts_of ''registered_tenants_evicted_total'' [] CounterVec\<rparr>"

record BuildInfoMetric =
  bi_Info :: metric_opts

definition NewBuildInfoMetric :: BuildInfoMetric where
  "NewBuildInfoMetric =
     \<lparr>bi_Info = metric_opts_of ''build_info'' [''version'', ''goversion'', ''git_revision''] GaugeVec\<rparr>"

text \<open>The resource collector: the gauges it describes and its error counter, which is registered apart.\<close>

record ResourceCollector =
  rc_namespace :: string
  rc_descs :: "metric_opts list"
  rc_ScrapeErrors :: metric_opts

definition NewResourceCollector :: "string \<Rightarrow> ResourceCollector" where
  "NewResourceCollector ns =
     \<lparr>rc_namespace = ns,
      rc_descs =
        [metric_opts_of ''pipeline_configs'' [''validity''] GaugeVec,
         metric_opts_of ''collector_group_bindings'' [''phase''] GaugeVec,
         metric_opts_of ''collector_groups'' [''bindings''] GaugeVec,
         metric_opts_of ''deletion_blocked_resources'' [''kind''] GaugeVec,
         metric_opts_of ''registered_tenants'' [] GaugeVec],
      rc_ScrapeErrors = metric_opts_of ''resource_scrape_errors_total'' [''kind''] CounterVec\<rparr>"

definition Describe :: "ResourceCollector \<Rightarrow> metric_opts list" where
  "Describe rc = rc_descs rc"

section \<open>Registration\<close>

text \<open>
  What is registered is a plain metric or the resource collector, which describes several gauges;
  \<open>reg_Register\<close> stands for the registerer.
\<close>

datatype collector = Metric metric_opts | Resources ResourceCollector

definition registered_collectors ::
  "RPCMetrics \<Rightarrow> ResolutionMetrics \<Rightarrow> ResourceCollector \<Rightarrow> BuildInfoMetric \<Rightarrow> ControllerMetrics \<Rightarrow>
   HTTPMetrics \<Rightarrow> collector list" where
  "registered_collectors rpc res rc bi ctrl httpM =
     [Metric (rpc_Requests rpc),
      Metric (rpc_Duration rpc),
      Metric (rpc_Served rpc),
      Metric (rpc_NotModified rpc),
      Metric (resm_Total res),
      Metric (resm_Duration res),
      Resources rc,
      Metric (rc_ScrapeErrors rc),
      Metric (bi_Info bi),
      Metric (ctrl_TenantsEvicted ctrl),
      Metric (http_RequestsTotal httpM),
      Metric (http_RequestDuration httpM)]"

fun register_loop :: "(collector \<Rightarrow> ('r, 'err option) state) \<Rightarrow> collector list \<Rightarrow> ('r, 'err option) state" where
  "register_loop reg_Register [] = State_Monad.return None"
| "register_loop reg_Register (c # cs) =
     do { err \<leftarrow> reg_Register c;
          if err \<noteq> None then State_Monad.return err else register_loop reg_Register cs }"

definition metrics_Register ::
  "(collector \<Rightarrow> ('r, 'err option) state) \<Rightarrow> RPCMetrics \<Rightarrow> ResolutionMetrics \<Rightarrow> ResourceCollector \<Rightarrow>
   BuildInfoMetric \<Rightarrow> ControllerMetrics \<Rightarrow> HTTPMetrics \<Rightarrow> ('r, 'err option) state" where
  "metrics_Register reg_Register rpc res rc bi ctrl httpM =
     register_loop reg_Register (registered_collectors rpc res rc bi ctrl httpM)"

section \<open>Build information\<close>

text \<open>
  The labels of the build information gauge; \<open>settings\<close> is what \<open>debug.ReadBuildInfo\<close> returns, if
  anything.
\<close>

fun vcs_revision :: "(string \<times> string) list \<Rightarrow> string" where
  "vcs_revision [] = ''unknown''"
| "vcs_revision ((k, v) # settings) = (if k = ''vcs.revision'' then v else vcs_revision settings)"

definition BuildInfo_Set :: "string \<Rightarrow> string \<Rightarrow> (string \<times> string) list option \<Rightarrow> string list \<times> int" where
  "BuildInfo_Set serviceVersion goVersion settings =
     (let gitRevision = (case settings of None \<Rightarrow> ''unknown'' | Some ss \<Rightarrow> vcs_revision ss)
      in ([serviceVersion, goVersion, gitRevision], 1))"

section \<open>Label arity\<close>

text \<open>Everything the operator registers at start-up, with the names it is exposed under.\<close>

definition operator_collectors :: "string \<Rightarrow> collector list" where
  "operator_collectors ns =
     registered_collectors NewRPCMetrics NewResolutionMetrics (NewResourceCollector ns) NewBuildInfoMetric
       NewControllerMetrics NewHTTPMetrics"

fun describes :: "collector \<Rightarrow> metric_opts list" where
  "describes (Metric m) = [m]"
| "describes (Resources rc) = Describe rc"

definition declared_metrics :: "metric_opts list" where
  "declared_metrics = concat (map describes (operator_collectors ''''))"

definition label_count :: "string \<Rightarrow> nat option" where
  "label_count n = map_of (map (\<lambda>m. (opt_Name m, length (opt_Labels m))) declared_metrics) n"

fun well_labelled :: "metric_call \<Rightarrow> bool" where
  "well_labelled (CounterInc n ls) = (label_count n = Some (length ls))"
| "well_labelled (CounterAdd n ls v) = (label_count n = Some (length ls) \<and> 0 \<le> v)"
| "well_labelled (HistogramObserve n ls v) = (label_count n = Some (length ls))"

lemmas metrics_table = label_count_def declared_metrics_def operator_collectors_def registered_collectors_def
  Describe_def NewRPCMetrics_def NewResolutionMetrics_def NewResourceCollector_def NewBuildInfoMetric_def
  NewControllerMetrics_def NewHTTPMetrics_def metric_opts_of_def

lemma label_counts [simp]:
  "label_count ''rpc_requests_total'' = Some 2"
  "label_count ''rpc_request_duration_seconds'' = Some 2"
  "label_count ''config_served_total'' = Some 0"
  "label_count ''config_not_modified_total'' = Some 0"
  "label_count ''config_resolution_total'' = Some 2"
  "label_count ''config_resolution_duration_seconds'' = Some 2"
  "label_count ''registered_tenants_evicted_total'' = Some 0"
  "label_count ''resource_scrape_errors_total'' = Some 1"
  by (simp_all add: metrics_table)

lemma register_loop_success:
  assumes "\<And>c s. result_of (reg_Register c) s = None"
  shows "result_of (register_loop reg_Register cs) s = None"
  using assms by (induction cs arbitrary: s) simp_all

text \<open>A registerer that refuses a name it already knows, as Prometheus registries do.\<close>

definition refuse_duplicates :: "collector \<Rightarrow> (string set, string option) state" where
  "refuse_duplicates c = State (\<lambda>names.
     let new = map opt_Name (describes c)
     in case find (\<lambda>n. n \<in> names) new of
          Some n \<Rightarrow> (Some n, names)
        | None \<Rightarrow> (None, names \<union> set new))"

lemma register_distinct:
  assumes "distinct (concat (map (\<lambda>c. map opt_Name (describes c)) cs))"
    and "names \<inter> set (concat (map (\<lambda>c. map opt_Name (describes c)) cs)) = {}"
  shows "run_state (register_loop refuse_duplicates cs) names =
           (None, names \<union> set (concat (map (\<lambda>c. map opt_Name (describes c)) cs)))"
  using assms
proof (induction cs arbitrary: names)
  case Nil
  then show ?case by simp
next
  case (Cons c cs)
  have "find (\<lambda>n. n \<in> names) (map opt_Name (describes c)) = None"
    using Cons.prems(2) by (auto simp: find_None_iff)
  then have "run_state (refuse_duplicates c) names = (None, names \<union> set (map opt_Name (describes c)))"
    by (simp add: refuse_duplicates_def)
  moreover have "(names \<union> set (map opt_Name (describes c))) \<inter> set (concat (map (\<lambda>c. map opt_Name (describes c)) cs)) = {}"
    using Cons.prems by auto
  ultimately show ?case
    using Cons.IH [of "names \<union> set (map opt_Name (describes c))"] Cons.prems(1) by (auto simp: Un_assoc)
qed

section \<open>Properties\<close>

text \<open>
  At start-up every metric of the operator is accepted by a registry that refuses duplicate names,
  so the registration does not fail; the registry then holds the names of all declared metrics.
\<close>

theorem startup_registration_succeeds:
  "run_state (metrics_Register refuse_duplicates NewRPCMetrics NewResolutionMetrics (NewResourceCollector ns)
      NewBuildInfoMetric NewControllerMetrics NewHTTPMetrics) {} =
     (None, set (map opt_Name declared_metrics))"
proof -
  let ?cs = "operator_collectors ns"
  have names: "concat (map (\<lambda>c. map opt_Name (describes c)) ?cs) = map opt_Name declared_metrics"
    by (simp add: metrics_table)
  have "distinct (map opt_Name declared_metrics)" by (simp add: metrics_table)
  with register_distinct [of ?cs "{}", unfolded names] show ?thesis
    unfolding metrics_Register_def operator_collectors_def by simp
qed

end
