(* ===== verification/Resource_Collector.thy ===== *)
theory Resource_Collector
  imports Metrics_Defs Sample_Cluster
begin

text \<open>
  The scrape of \<open>internal/metrics/resource_collector.go\<close>: each part lists one kind of resource and
  sends gauges to a channel, which is modelled as the list of what was sent. The gauges count
  resources, so their float values are natural numbers. The order in which Go walks a map is a
  parameter of the scrape.
\<close>

section \<open>Definitions\<close>

record gauge =
  g_Desc :: string
  g_Value :: nat
  g_Labels :: "string list"

definition MustNewConstMetric :: "string \<Rightarrow> nat \<Rightarrow> string list \<Rightarrow> gauge" where
  "MustNewConstMetric desc v ls = \<lparr>g_Desc = desc, g_Value = v, g_Labels = ls\<rparr>"

fun isConditionTrue :: "Condition list \<Rightarrow> string \<Rightarrow> bool" where
  "isConditionTrue [] condType = False"
| "isConditionTrue (c # conditions) condType =
     (if cond_Type c = condType then cond_Status c = ConditionTrue else isConditionTrue conditions condType)"

definition scrape_error :: "('s, 'e) world \<Rightarrow> string \<Rightarrow> ('s, unit) state" where
  "scrape_error w kind = Emit w (CounterInc ''resource_scrape_errors_total'' [kind])"

definition collectPipelineConfigs ::
  "('s, 'e) world \<Rightarrow> string \<Rightarrow> ('s, PipelineConfig list option \<times> gauge list) state" where
  "collectPipelineConfigs w ns =
     do { r \<leftarrow> client_List (PipelineConfigs w) ns InNamespace;
          case r of
            Inl _ \<Rightarrow> do { _ \<leftarrow> scrape_error w ''pipeline_config''; State_Monad.return (None, []) }
          | Inr items \<Rightarrow>
              let (valid, invalid) =
                foldl (\<lambda>(valid, invalid) pc.
                    if isConditionTrue (pc_Conditions (Status pc)) ''ContentValid''
                    then (valid + 1, invalid) else (valid, invalid + 1)) (0, 0) items
              in State_Monad.return
                   (Some items,
                    [MustNewConstMetric ''pipeline_configs'' valid [''valid''],
                     MustNewConstMetric ''pipeline_configs'' invalid [''invalid'']]) }"

text \<open>The map of counts per phase, as the entries that were ever set.\<close>

fun bump :: "string \<Rightarrow> (string \<times> nat) list \<Rightarrow> (string \<times> nat) list" where
  "bump k [] = [(k, 1)]"
| "bump k ((k', n) # m) = (if k = k' then (k', n + 1) # m else (k', n) # bump k m)"

text \<open>
  \<open>strings.ToLower\<close> on ASCII strings, where the Unicode mapping is this one. A phase is empty or one of
  \<open>Pending\<close>, \<open>Active\<close> and \<open>Degraded\<close>.
\<close>

definition ToLower :: "string \<Rightarrow> string" where
  "ToLower s =
     map (\<lambda>c. let n = of_char c :: nat in if 65 \<le> n \<and> n \<le> 90 then char_of (n + 32) else c) s"

definition phase_label :: "CollectorGroupBinding \<Rightarrow> string" where
  "phase_label b =
     (let phase = ToLower (Phase (Status b)) in if phase = '''' then ''pending'' else phase)"

definition collectCollectorGroupBindings ::
  "((string \<times> nat) list \<Rightarrow> (string \<times> nat) list) \<Rightarrow> ('s, 'e) world \<Rightarrow> string \<Rightarrow> ('s, gauge list) state" where
  "collectCollectorGroupBindings range_order w ns =
     do { r \<leftarrow> client_List (CollectorGroupBindings w) ns InNamespace;
          case r of
            Inl _ \<Rightarrow> do { _ \<leftarrow> scrape_error w ''collector_group_binding''; State_Monad.return [] }
          | Inr items \<Rightarrow>
              let counts = foldl (\<lambda>counts b. bump (phase_label b) counts)
                             [(''pending'', 0), (''active'', 0), (''degraded'', 0)] items
              in State_Monad.return
                   (map (\<lambda>(phase, count). MustNewConstMetric ''collector_group_bindings'' count [phase])
                      (range_order counts)) }"

definition collectCollectorGroups ::
  "('s, 'e) world \<Rightarrow> string \<Rightarrow> ('s, CollectorGroup list option \<times> gauge list) state" where
  "collectCollectorGroups w ns =
     do { r \<leftarrow> client_List (CollectorGroups w) ns InNamespace;
          case r of
            Inl _ \<Rightarrow> do { _ \<leftarrow> scrape_error w ''collector_group''; State_Monad.return (None, []) }
          | Inr items \<Rightarrow>
              let (active, inactive) =
                foldl (\<lambda>(active, inactive) cg.
                    if 0 < sint (cg_ActiveBindings (Status cg))
                    then (active + 1, inactive) else (active, inactive + 1)) (0, 0) items
              in State_Monad.return
                   (Some items,
                    [MustNewConstMetric ''collector_groups'' active [''active''],
                     MustNewConstMetric ''collector_groups'' inactive [''inactive'']]) }"

definition blocked_pc :: "PipelineConfig \<Rightarrow> bool" where
  "blocked_pc pc \<longleftrightarrow> DeletionTimestamp (Meta pc) \<noteq> None \<and> 0 < sint (pc_ActiveBindings (Status pc))"

definition blocked_cg :: "CollectorGroup \<Rightarrow> bool" where
  "blocked_cg cg \<longleftrightarrow> DeletionTimestamp (Meta cg) \<noteq> None \<and> 0 < sint (cg_ActiveBindings (Status cg))"

definition collectDeletionBlocked ::
  "PipelineConfig list option \<Rightarrow> CollectorGroup list option \<Rightarrow> gauge list" where
  "collectDeletionBlocked pcList cgList =
     (case pcList of
        None \<Rightarrow> []
      | Some items \<Rightarrow>
          [MustNewConstMetric ''deletion_blocked_resources''
             (foldl (\<lambda>n pc. if blocked_pc pc then n + 1 else n) 0 items) [''pipeline_config'']]) @
     (case cgList of
        None \<Rightarrow> []
      | Some items \<Rightarrow>
          [MustNewConstMetric ''deletion_blocked_resources''
             (foldl (\<lambda>n cg. if blocked_cg cg then n + 1 else n) 0 items) [''collector_group'']])"

definition collectRegisteredTenants :: "('s, 'e) world \<Rightarrow> string \<Rightarrow> ('s, gauge list) state" where
  "collectRegisteredTenants w ns =
     do { r \<leftarrow> client_List (CollectorGroupBindings w) ns InNamespace;
          case r of
            Inl _ \<Rightarrow> do { _ \<leftarrow> scrape_error w ''collector_group_binding''; State_Monad.return [] }
          | Inr items \<Rightarrow>
              State_Monad.return
                [MustNewConstMetric ''registered_tenants''
                   (foldl (\<lambda>total b. total + length (RegisteredTenants (Status b))) 0 items) []] }"

definition Collect ::
  "((string \<times> nat) list \<Rightarrow> (string \<times> nat) list) \<Rightarrow> ('s, 'e) world \<Rightarrow> ResourceCollector \<Rightarrow>
   ('s, gauge list) state" where
  "Collect range_order w rc =
     do { (pcList, pcs) \<leftarrow> collectPipelineConfigs w (rc_namespace rc);
          bindings \<leftarrow> collectCollectorGroupBindings range_order w (rc_namespace rc);
          (cgList, cgs) \<leftarrow> collectCollectorGroups w (rc_namespace rc);
          let blocked = collectDeletionBlocked pcList cgList;
          tenants \<leftarrow> collectRegisteredTenants w (rc_namespace rc);
          State_Monad.return (pcs @ bindings @ cgs @ blocked @ tenants) }"

section \<open>Lemmas: counting loops\<close>

lemma foldl_partition:
  "foldl (\<lambda>(a, b) x. if P x then (a + 1, b) else (a, b + 1)) (a, b) xs =
     (a + length (filter P xs), b + length (filter (\<lambda>x. \<not> P x) xs))" for a b :: nat
  by (induction xs arbitrary: a b) auto

lemma foldl_count: "foldl (\<lambda>n x. if P x then n + 1 else n) a xs = a + length (filter P xs)" for a :: nat
  by (induction xs arbitrary: a) auto

lemma foldl_sum: "foldl (\<lambda>n x. n + f x) a xs = a + sum_list (map f xs)" for a :: nat
  by (induction xs arbitrary: a) auto

lemma bump_lookup: "map_of (bump k m) = (map_of m)(k \<mapsto> (case map_of m k of None \<Rightarrow> 1 | Some n \<Rightarrow> n + 1))"
  by (induction k m rule: bump.induct) (auto simp: fun_eq_iff)

lemma bump_keys: "set (map fst (bump k m)) = insert k (set (map fst m))"
  by (induction k m rule: bump.induct) auto

lemma bump_distinct: "distinct (map fst m) \<Longrightarrow> distinct (map fst (bump k m))"
  using bump_keys by (induction k m rule: bump.induct) auto

lemma bump_sum: "sum_list (map snd (bump k m)) = Suc (sum_list (map snd m))"
  by (induction k m rule: bump.induct) auto

definition phase_counts :: "CollectorGroupBinding list \<Rightarrow> (string \<times> nat) list" where
  "phase_counts items = foldl (\<lambda>counts b. bump (phase_label b) counts)
     [(''pending'', 0), (''active'', 0), (''degraded'', 0)] items"

lemma phase_counts_snoc: "phase_counts (items @ [b]) = bump (phase_label b) (phase_counts items)"
  by (simp add: phase_counts_def)

text \<open>
  The counts: one entry per phase that occurs and for each of the three known phases, its value the
  number of bindings that carry the phase.
\<close>

lemma phase_counts_correct:
  "distinct (map fst (phase_counts items)) \<and>
   map_of (phase_counts items) p =
     (if p \<in> {''pending'', ''active'', ''degraded''} \<union> phase_label ` set items
      then Some (length (filter (\<lambda>b. phase_label b = p) items)) else None) \<and>
   sum_list (map snd (phase_counts items)) = length items"
proof (induction items arbitrary: p rule: rev_induct)
  case Nil
  then show ?case by (simp add: phase_counts_def)
next
  case (snoc b items)
  have "map_of (phase_counts items) (phase_label b) =
     (if phase_label b \<in> {''pending'', ''active'', ''degraded''} \<union> phase_label ` set items
      then Some (length (filter (\<lambda>c. phase_label c = phase_label b) items)) else None)"
    using snoc.IH by blast
  moreover have "phase_label b \<notin> phase_label ` set items \<Longrightarrow> filter (\<lambda>c. phase_label c = phase_label b) items = []"
    by (auto simp: filter_empty_conv) (metis imageI)
  ultimately show ?case
    using snoc.IH [of p]
    by (auto simp: phase_counts_snoc bump_distinct bump_sum bump_lookup simp del: One_nat_def)
qed

section \<open>Lemmas: the scrape\<close>

text \<open>The number of resources of a namespace with a property.\<close>

definition count_named :: "(object_key \<rightharpoonup> ('a, 'b) resource) \<Rightarrow> string \<Rightarrow> (('a, 'b) resource \<Rightarrow> bool) \<Rightarrow> nat" where
  "count_named m ns P = card {n. \<exists>x. m (ns, n) = Some x \<and> P x}"

context resource_reader
begin

lemma list_namespace:
  obtains xs where "result_of (client_List R ns InNamespace) s = Inr xs" "distinct xs"
    "set xs = {x. \<exists>n. objs (abs s) (ns, n) = Some x}"
  using list_found [of InNamespace ns s] by (auto simp: matching_def)

lemma name_inj:
  "inj_on (\<lambda>x. Name (Meta x)) {x. \<exists>n. objs (abs s) (ns, n) = Some x}"
proof (rule inj_onI, clarify)
  fix x y n m
  assume x: "objs (abs s) (ns, n) = Some x" and y: "objs (abs s) (ns, m) = Some y"
    and "Name (Meta x) = Name (Meta y)"
  then have "n = m" using stored_key [OF x] stored_key [OF y] by (simp add: key_of_def)
  with x y show "x = y" by simp
qed

lemma length_filter_named:
  assumes "distinct xs" "set xs = {x. \<exists>n. objs (abs s) (ns, n) = Some x}"
  shows "length (filter P xs) = count_named (objs (abs s)) ns P"
proof -
  let ?name = "\<lambda>x. Name (Meta x)"
  have "length (filter P xs) = card (set (filter P xs))"
    using assms(1) distinct_card [of "filter P xs"] by (simp only: distinct_filter)
  also have "\<dots> = card (?name ` set (filter P xs))"
    using inj_on_subset [OF name_inj [of s ns], of "set (filter P xs)"] assms(2)
    by (intro card_image [symmetric]) auto
  also have "?name ` set (filter P xs) = {n. \<exists>x. objs (abs s) (ns, n) = Some x \<and> P x}"
  proof (intro equalityI subsetI)
    fix n assume "n \<in> ?name ` set (filter P xs)"
    then obtain x m where x: "n = ?name x" "objs (abs s) (ns, m) = Some x" "P x" using assms(2) by auto
    with stored_key [OF x(2)] show "n \<in> {n. \<exists>x. objs (abs s) (ns, n) = Some x \<and> P x}"
      by (auto simp: key_of_def)
  next
    fix n assume "n \<in> {n. \<exists>x. objs (abs s) (ns, n) = Some x \<and> P x}"
    then obtain x where x: "objs (abs s) (ns, n) = Some x" "P x" by blast
    with stored_key [OF x(1)] assms(2) show "n \<in> ?name ` set (filter P xs)"
      by (intro image_eqI [of _ _ x]) (auto simp: key_of_def)
  qed
  finally show ?thesis by (simp add: count_named_def)
qed

lemma sum_list_named:
  assumes "distinct xs" "set xs = {x. \<exists>n. objs (abs s) (ns, n) = Some x}"
  shows "sum_list (map f xs) = (\<Sum>x \<in> {x. \<exists>n. objs (abs s) (ns, n) = Some x}. f x)"
  using assms sum_list_distinct_conv_sum_set by metis

end

text \<open>What a scrape of a readable cluster sends, given the entries for the phases.\<close>

definition scrape_gauges :: "cluster \<Rightarrow> string \<Rightarrow> (string \<times> nat) list \<Rightarrow> gauge list" where
  "scrape_gauges c ns phases =
     [MustNewConstMetric ''pipeline_configs''
        (count_named (cl_pcs c) ns (\<lambda>pc. isConditionTrue (pc_Conditions (Status pc)) ''ContentValid'')) [''valid''],
      MustNewConstMetric ''pipeline_configs''
        (count_named (cl_pcs c) ns (\<lambda>pc. \<not> isConditionTrue (pc_Conditions (Status pc)) ''ContentValid'')) [''invalid'']] @
     map (\<lambda>(phase, count). MustNewConstMetric ''collector_group_bindings'' count [phase]) phases @
     [MustNewConstMetric ''collector_groups''
        (count_named (cl_cgs c) ns (\<lambda>cg. 0 < sint (cg_ActiveBindings (Status cg)))) [''active''],
      MustNewConstMetric ''collector_groups''
        (count_named (cl_cgs c) ns (\<lambda>cg. \<not> 0 < sint (cg_ActiveBindings (Status cg)))) [''inactive''],
      MustNewConstMetric ''deletion_blocked_resources'' (count_named (cl_pcs c) ns blocked_pc) [''pipeline_config''],
      MustNewConstMetric ''deletion_blocked_resources'' (count_named (cl_cgs c) ns blocked_cg) [''collector_group''],
      MustNewConstMetric ''registered_tenants''
        (\<Sum>b \<in> {b. \<exists>n. cl_cgbs c (ns, n) = Some b}. length (RegisteredTenants (Status b))) []]"

lemmas scrape_defs = Collect_def collectPipelineConfigs_def collectCollectorGroupBindings_def
  collectCollectorGroups_def collectRegisteredTenants_def collectDeletionBlocked_def

context kube_reader
begin

lemma Collect_gauges:
  assumes ns: "ns = rc_namespace rc"
  obtains bs where "distinct bs" "set bs = {b. \<exists>n. cl_cgbs (abs s) (ns, n) = Some b}"
    "result_of (Collect range_order w rc) s = scrape_gauges (abs s) ns (range_order (phase_counts bs))"
    "abs (state_after (Collect range_order w rc) s) = abs s"
proof -
  define s1 where "s1 = state_after (client_List (PipelineConfigs w) ns InNamespace) s"
  define s2 where "s2 = state_after (client_List (CollectorGroupBindings w) ns InNamespace) s1"
  define s3 where "s3 = state_after (client_List (CollectorGroups w) ns InNamespace) s2"
  have abs_eq: "abs s1 = abs s" "abs s2 = abs s" "abs s3 = abs s"
    by (simp_all add: s1_def s2_def s3_def pc.list_abs cg.list_abs cgb.list_abs)
  obtain pcs where pcs: "result_of (client_List (PipelineConfigs w) ns InNamespace) s = Inr pcs" "distinct pcs"
    "set pcs = {x. \<exists>n. cl_pcs (abs s) (ns, n) = Some x}" by (rule pc.list_namespace)
  obtain bs where bs: "result_of (client_List (CollectorGroupBindings w) ns InNamespace) s1 = Inr bs" "distinct bs"
    "set bs = {x. \<exists>n. cl_cgbs (abs s) (ns, n) = Some x}" using cgb.list_namespace [of ns s1] abs_eq by metis
  obtain cgs where cgs: "result_of (client_List (CollectorGroups w) ns InNamespace) s2 = Inr cgs" "distinct cgs"
    "set cgs = {x. \<exists>n. cl_cgs (abs s) (ns, n) = Some x}" using cg.list_namespace [of ns s2] abs_eq by metis
  obtain ts where ts: "result_of (client_List (CollectorGroupBindings w) ns InNamespace) s3 = Inr ts" "distinct ts"
    "set ts = {x. \<exists>n. cl_cgbs (abs s) (ns, n) = Some x}" using cgb.list_namespace [of ns s3] abs_eq by metis
  note lists = pcs(1) bs(1) cgs(1) ts(1) s1_def [symmetric] s2_def [symmetric] s3_def [symmetric] ns [symmetric]
  note named = pc.length_filter_named [OF pcs(2,3)] cg.length_filter_named [OF cgs(2,3)]
    cgb.sum_list_named [OF ts(2,3)]
  have "result_of (Collect range_order w rc) s = scrape_gauges (abs s) ns (range_order (phase_counts bs))"
    by (simp add: scrape_defs scrape_gauges_def lists Let_def foldl_partition foldl_count foldl_sum named
      phase_counts_def del: One_nat_def)
  moreover have "state_after (Collect range_order w rc) s =
      state_after (client_List (CollectorGroupBindings w) ns InNamespace) s3"
    by (simp add: scrape_defs lists Let_def split_beta)
  ultimately show ?thesis
    using that bs(2,3) by (simp add: cgb.list_abs abs_eq)
qed

end

section \<open>Properties\<close>



text \<open>
  Whatever the API answers, a kind whose listing failed is left out of the scrape, together with
  its deletion gauge, and nothing else is: the two gauges of PipelineConfig validity and the
  PipelineConfig deletion gauge are sent exactly when PipelineConfigs could be listed.
\<close>

theorem failed_listing_skips_its_gauges:
  assumes "out = result_of (Collect range_order w rc) s"
    and "listed \<longleftrightarrow> (\<exists>pcs. result_of (client_List (PipelineConfigs w) (rc_namespace rc) InNamespace) s = Inr pcs)"
  shows "((\<exists>g \<in> set out. g_Desc g = ''pipeline_configs'' \<and> g_Labels g = [''valid'']) \<longleftrightarrow> listed) \<and>
    ((\<exists>g \<in> set out. g_Desc g = ''pipeline_configs'' \<and> g_Labels g = [''invalid'']) \<longleftrightarrow> listed) \<and>
    ((\<exists>g \<in> set out. g_Desc g = ''deletion_blocked_resources'' \<and> g_Labels g = [''pipeline_config'']) \<longleftrightarrow> listed)"
proof -
  define s1 where "s1 = state_after (collectPipelineConfigs w (rc_namespace rc)) s"
  define s2 where "s2 = state_after (collectCollectorGroupBindings range_order w (rc_namespace rc)) s1"
  define s3 where "s3 = state_after (collectCollectorGroups w (rc_namespace rc)) s2"
  define pcs where "pcs = result_of (collectPipelineConfigs w (rc_namespace rc)) s"
  define bs where "bs = result_of (collectCollectorGroupBindings range_order w (rc_namespace rc)) s1"
  define cgs where "cgs = result_of (collectCollectorGroups w (rc_namespace rc)) s2"
  define ts where "ts = result_of (collectRegisteredTenants w (rc_namespace rc)) s3"
  have out: "out = snd pcs @ bs @ snd cgs @ collectDeletionBlocked (fst pcs) (fst cgs) @ ts"
    unfolding assms(1) pcs_def bs_def cgs_def ts_def s1_def s2_def s3_def
    by (simp add: Collect_def split_beta Let_def)
  have other: "g \<in> set bs \<Longrightarrow> g_Desc g = ''collector_group_bindings''"
    "g \<in> set (snd cgs) \<Longrightarrow> g_Desc g = ''collector_groups''" "g \<in> set ts \<Longrightarrow> g_Desc g = ''registered_tenants''" for g
    by (auto simp: bs_def cgs_def ts_def collectCollectorGroupBindings_def collectCollectorGroups_def
        collectRegisteredTenants_def MustNewConstMetric_def Let_def split_beta split: sum.splits)
  show ?thesis
  proof (cases "result_of (client_List (PipelineConfigs w) (rc_namespace rc) InNamespace) s")
    case (Inl e)
    then have "pcs = (None, [])" by (simp add: pcs_def collectPipelineConfigs_def)
    with Inl assms(2) show ?thesis
      by (auto simp: out collectDeletionBlocked_def MustNewConstMetric_def dest!: other split: option.splits)
  next
    case (Inr items)
    obtain v i where "pcs = (Some items, [MustNewConstMetric ''pipeline_configs'' v [''valid''],
        MustNewConstMetric ''pipeline_configs'' i [''invalid'']])"
      using Inr by (simp add: pcs_def collectPipelineConfigs_def foldl_partition Let_def split_beta)
    with Inr assms(2) show ?thesis
      by (auto simp: out collectDeletionBlocked_def MustNewConstMetric_def)
  qed
qed

theorem failed_listing_skips_its_gauges_witness:
  "\<exists>g \<in> set (result_of (Collect (\<lambda>m. m) mem_world (NewResourceCollector ''ns'')) (sample [] [] [])).
     g_Desc g = ''deletion_blocked_resources'' \<and> g_Labels g = [''pipeline_config'']"
proof -
  have "\<exists>pcs. result_of (client_List (PipelineConfigs mem_world) (rc_namespace (NewResourceCollector ''ns'')) InNamespace)
      (sample [] [] []) = Inr pcs"
    using mem.pc.list_namespace by metis
  with failed_listing_skips_its_gauges [OF refl refl, of "\<lambda>m. m" mem_world "NewResourceCollector ''ns''" "sample [] [] []"]
  show ?thesis by blast
qed

end
