(* ===== verification/Interceptor.thy ===== *)
theory Interceptor
  imports Collector_Service Resource_Collector
begin

text \<open>
  The unary interceptor of \<open>internal/interceptor/metrics_interceptor.go\<close> around a handler, and the
  handlers as the operator mounts them behind it.
  \<open>codeString\<close> stands for \<open>connect.CodeOf(err).String()\<close> of the Connect library.
\<close>

section \<open>Definitions\<close>

definition MetricsInterceptor ::
  "('s, 'e) world \<Rightarrow> ('err \<Rightarrow> string) \<Rightarrow> string \<Rightarrow> ('s, 'err + 'resp) state \<Rightarrow> ('s, 'err + 'resp) state" where
  "MetricsInterceptor w codeString procedure next_call =
     do { start \<leftarrow> Now w;
          r \<leftarrow> next_call;
          now \<leftarrow> Now w;
          let elapsed = now - start;
          let code = (case r of Inr _ \<Rightarrow> ''ok'' | Inl err \<Rightarrow> codeString err);
          _ \<leftarrow> Emit w (CounterInc ''rpc_requests_total'' [procedure, code]);
          _ \<leftarrow> Emit w (HistogramObserve ''rpc_request_duration_seconds'' [procedure, code] elapsed);
          State_Monad.return r }"

text \<open>The endpoints of the operator: the handlers of the wired service behind the interceptor.\<close>

definition GetConfig_endpoint ::
  "('s, 'e) world \<Rightarrow> ('e connect_error \<Rightarrow> string) \<Rightarrow> string \<Rightarrow> string \<Rightarrow> GetConfigRequest \<Rightarrow>
   ('s, 'e connect_error + GetConfigResponse) state" where
  "GetConfig_endpoint w codeString procedure ns msg =
     MetricsInterceptor w codeString procedure (GetConfig w (main_service w ns) msg)"

definition RegisterCollector_endpoint ::
  "('s, 'e) world \<Rightarrow> ('e connect_error \<Rightarrow> string) \<Rightarrow> string \<Rightarrow> string \<Rightarrow> RegisterCollectorRequest \<Rightarrow>
   ('s, 'e connect_error + unit) state" where
  "RegisterCollector_endpoint w codeString procedure ns msg =
     MetricsInterceptor w codeString procedure (RegisterCollector (main_service w ns) msg)"

definition UnregisterCollector_endpoint ::
  "('s, 'e) world \<Rightarrow> ('e connect_error \<Rightarrow> string) \<Rightarrow> string \<Rightarrow> string \<Rightarrow> string \<Rightarrow>
   ('s, 'e connect_error + unit) state" where
  "UnregisterCollector_endpoint w codeString procedure ns collectorID =
     MetricsInterceptor w codeString procedure (UnregisterCollector (main_service w ns) collectorID)"

lemmas endpoint_defs = GetConfig_endpoint_def RegisterCollector_endpoint_def UnregisterCollector_endpoint_def

section \<open>Lemmas: effects\<close>

text \<open>What an endpoint writes besides metrics is what its handler writes: tenant entries.\<close>

context kube_lib
begin

lemma intercepted_effects:
  assumes "\<And>t. \<exists>c. only_tenants c (abs t) \<and> same_resources (abs (state_after call t)) c"
  shows "\<exists>c. only_tenants c (abs s) \<and>
    same_resources (abs (state_after (MetricsInterceptor w codeString procedure call) s)) c"
  using assms [of "state_after (Now w) s"] by (simp add: MetricsInterceptor_def Let_def now_abs emit_abs)

lemma endpoint_effects:
  assumes "service_effects (main_service w ns) abs"
  shows "\<exists>c. only_tenants c (abs s) \<and>
      same_resources (abs (state_after (GetConfig_endpoint w codeString procedure ns msg) s)) c"
    and "\<exists>c. only_tenants c (abs s) \<and>
      same_resources (abs (state_after (RegisterCollector_endpoint w codeString procedure ns reg) s)) c"
    and "\<exists>c. only_tenants c (abs s) \<and>
      same_resources (abs (state_after (UnregisterCollector_endpoint w codeString procedure ns collectorID) s)) c"
  unfolding endpoint_defs
  by (rule intercepted_effects, rule GetConfig_effects [OF assms])
    (rule intercepted_effects, rule exI, rule conjI [OF _ same_resources_refl],
      rule service_effects.registration_writes [OF assms])+

end

section \<open>Properties\<close>



end
