(* ===== verification/Cache_Lag.thy ===== *)
theory Cache_Lag
  imports Interceptor
begin

text \<open>
  Reads that lag behind writes. The client of the operator reads from an informer cache, which shows
  an earlier state of the cluster, while its writes go to the API server; every replica serves RPCs
  from its own cache. \<open>lagging lag w\<close> is the world \<open>w\<close> read through such a cache: \<open>lag\<close> says which
  state the cache shows, and nothing is assumed about it.

  A status patch made with \<open>client.MergeFrom\<close> carries no resource version. The locale
  \<open>merge_patching\<close> states what the API server makes of it: the fields that differ from the base are
  overwritten, whatever is stored by then.
\<close>

section \<open>Definitions\<close>

definition cached :: "('s \<Rightarrow> 's) \<Rightarrow> ('s, 'e, 'o) resource_client \<Rightarrow> ('s, 'e, 'o) resource_client" where
  "cached lag R =
     R\<lparr>client_Get := (\<lambda>ns n. State (\<lambda>s. (result_of (client_Get R ns n) (lag s), s))),
       client_List := (\<lambda>ns sel. State (\<lambda>s. (result_of (client_List R ns sel) (lag s), s)))\<rparr>"

definition lagging :: "('s \<Rightarrow> 's) \<Rightarrow> ('s, 'e) world \<Rightarrow> ('s, 'e) world" where
  "lagging lag w =
     w\<lparr>PipelineConfigs := cached lag (PipelineConfigs w),
       CollectorGroups := cached lag (CollectorGroups w),
       CollectorGroupBindings := cached lag (CollectorGroupBindings w)\<rparr>"

section \<open>The law of merge patches\<close>

locale merge_patching = kube_world w abs wire version
  for w :: "('s, 'e) world"
    and abs :: "'s \<Rightarrow> cluster"
    and wire :: "Time \<Rightarrow> Time"
    and version :: "'s \<Rightarrow> string" +
  assumes patch_missing:
      "cl_cgbs (abs s) (key_of base) = None \<Longrightarrow>
         (\<exists>e. result_of (client_StatusPatch (CollectorGroupBindings w) (base\<lparr>Status := st\<rparr>) base) s = Inl e) \<and>
         abs (state_after (client_StatusPatch (CollectorGroupBindings w) (base\<lparr>Status := st\<rparr>) base) s) = abs s"
    and patch_merges:
      "cl_cgbs (abs s) (key_of base) = Some cur \<Longrightarrow>
       m = merge_binding_status (encode_binding_status wire (Status base)) (encode_binding_status wire st)
             (Status cur) \<Longrightarrow>
       b' = stored_status (encode_binding_status wire) (version s) cur m \<Longrightarrow> valid_binding_status m \<Longrightarrow>
         result_of (client_StatusPatch (CollectorGroupBindings w) (base\<lparr>Status := st\<rparr>) base) s = Inr b' \<and>
         abs (state_after (client_StatusPatch (CollectorGroupBindings w) (base\<lparr>Status := st\<rparr>) base) s) =
           with_cgb (key_of base) b' (abs s)"
    and patch_invalid:
      "cl_cgbs (abs s) (key_of base) = Some cur \<Longrightarrow>
       \<not> valid_binding_status (merge_binding_status (encode_binding_status wire (Status base))
             (encode_binding_status wire st) (Status cur)) \<Longrightarrow>
         (\<exists>e. result_of (client_StatusPatch (CollectorGroupBindings w) (base\<lparr>Status := st\<rparr>) base) s = Inl e) \<and>
         abs (state_after (client_StatusPatch (CollectorGroupBindings w) (base\<lparr>Status := st\<rparr>) base) s) = abs s"
    and wire_idem: "wire (wire t) = wire t"

interpretation mem_patching: merge_patching mem_world mem_abs mem_wire mem_version
proof (intro merge_patching.intro merge_patching_axioms.intro kube_world_mem)
qed (auto simp: mem_world_def mem_client_def mem_abs_def mem_commit_def Let_def tbl_view_put_status
  encode_binding_status_idem mem_wire_mod)

lemma merge_patching_mem [simp]: "merge_patching mem_world mem_abs mem_wire mem_version"
  by (rule mem_patching.merge_patching_axioms)

section \<open>Lemmas: reads through a cache\<close>

lemma cached_simps [simp]:
  "run_state (client_Get (cached lag R) ns n) s = (result_of (client_Get R ns n) (lag s), s)"
  "run_state (client_List (cached lag R) ns sel) s = (result_of (client_List R ns sel) (lag s), s)"
  "client_StatusPatch (cached lag R) = client_StatusPatch R"
  by (simp_all add: cached_def)

lemma lagging_simps [simp]:
  "PipelineConfigs (lagging lag w) = cached lag (PipelineConfigs w)"
  "CollectorGroups (lagging lag w) = cached lag (CollectorGroups w)"
  "CollectorGroupBindings (lagging lag w) = cached lag (CollectorGroupBindings w)"
  "Now (lagging lag w) = Now w"
  "Emit (lagging lag w) = Emit w"
  "IsNotFound (lagging lag w) = IsNotFound w"
  "IsConflict (lagging lag w) = IsConflict w"
  "SetStatusCondition (lagging lag w) = SetStatusCondition w"
  "FindStatusCondition (lagging lag w) = FindStatusCondition w"
  "ContainsFinalizer (lagging lag w) = ContainsFinalizer w"
  "AddFinalizer (lagging lag w) = AddFinalizer w"
  "RemoveFinalizer (lagging lag w) = RemoveFinalizer w"
  by (simp_all add: lagging_def)

context kube_lib
begin

lemma kube_lib_lagging: "kube_lib (lagging lag w) abs"
  by unfold_locales
    (simp_all add: contains_finalizer add_finalizer remove_finalizer find_condition set_condition_find
      set_condition_distinct set_condition_abs now_abs emit_abs)

end

lemma findBinding_lagging: "state_after (findBinding (lagging lag w) ns tenant grp) s = s"
  by (simp add: findBinding_def split: sum.split list.split)

context merge_patching
begin

text \<open>
  What a patch of the tenants makes of the stored binding: the tenants are replaced, if they differ from
  the base, and every other field is what is stored.
\<close>

lemma merged_tenants:
  assumes cur: "cl_cgbs (abs s) k = Some cur"
    and new: "new = merge_field (map (encode_tenant wire) (RegisteredTenants (Status base)))
      (map (encode_tenant wire) ts) (RegisteredTenants (Status cur))"
    and m: "m = merge_binding_status (encode_binding_status wire (Status base))
      (encode_binding_status wire ((Status base)\<lparr>RegisteredTenants := ts\<rparr>)) (Status cur)"
  shows "m = (Status cur)\<lparr>RegisteredTenants := new\<rparr>"
    and "with_tenants new cur (stored_status (encode_binding_status wire) v cur m)"
proof -
  show *: "m = (Status cur)\<lparr>RegisteredTenants := new\<rparr>"
    unfolding m new by (simp add: merge_binding_status_def encode_binding_status_def)
  have enc: "encode_tenant wire (encode_tenant wire t) = encode_tenant wire t" for t
    by (simp add: encode_tenant_def wire_idem)
  have "map (encode_tenant wire) (RegisteredTenants (Status cur)) = RegisteredTenants (Status cur)"
    using encoded_tenants [OF cgb.stored_encoded [OF cur]] by simp
  then have "map (encode_tenant wire) new = new"
    unfolding new by (auto simp: merge_field_def enc)
  moreover have "encode_binding_status wire m =
      (encode_binding_status wire (Status cur))\<lparr>RegisteredTenants := map (encode_tenant wire) new\<rparr>"
    unfolding * by (simp add: encode_binding_status_def)
  ultimately have "encode_binding_status wire m = (Status cur)\<lparr>RegisteredTenants := new\<rparr>"
    using cgb.stored_encoded [OF cur] by simp
  then show "with_tenants new cur (stored_status (encode_binding_status wire) v cur m)"
    unfolding with_tenants_def tenants_apart_def by simp
qed

text \<open>
  A patch of the tenants computed from any object, however old: it fails and changes nothing, or it
  replaces the tenants of what is stored by then and nothing else. A valid patch of a binding that
  still exists does not fail.
\<close>

lemma stale_tenants_applied:
  assumes P: "P = client_StatusPatch (CollectorGroupBindings w)
      (base\<lparr>Status := (Status base)\<lparr>RegisteredTenants := ts\<rparr>\<rparr>) base"
    and cur: "cl_cgbs (abs s) (key_of base) = Some cur"
    and new: "new = merge_field (map (encode_tenant wire) (RegisteredTenants (Status base)))
      (map (encode_tenant wire) ts) (RegisteredTenants (Status cur))"
    and valid: "valid_binding_status ((Status cur)\<lparr>RegisteredTenants := new\<rparr>)"
  shows "\<exists>b'. result_of P s = Inr b' \<and> abs (state_after P s) = with_cgb (key_of base) b' (abs s) \<and>
    with_tenants new cur b'"
proof -
  note merged = merged_tenants [OF cur new refl]
  from patch_merges [OF cur refl refl valid [folded merged(1)]] merged(2) show ?thesis unfolding P by blast
qed

lemma stale_tenants_patch:
  assumes P: "P = client_StatusPatch (CollectorGroupBindings w)
      (base\<lparr>Status := (Status base)\<lparr>RegisteredTenants := ts\<rparr>\<rparr>) base"
  obtains (failed) e where "result_of P s = Inl e" "abs (state_after P s) = abs s"
  | (patched) cur b' new where "cl_cgbs (abs s) (key_of base) = Some cur" "result_of P s = Inr b'"
      "abs (state_after P s) = with_cgb (key_of base) b' (abs s)" "with_tenants new cur b'"
proof (cases "cl_cgbs (abs s) (key_of base)")
  case None
  with patch_missing [of s base] that(1) show ?thesis unfolding P by blast
next
  case (Some cur)
  define new where "new = merge_field (map (encode_tenant wire) (RegisteredTenants (Status base)))
    (map (encode_tenant wire) ts) (RegisteredTenants (Status cur))"
  note merged = merged_tenants [OF Some new_def refl]
  show ?thesis
  proof (cases "valid_binding_status ((Status cur)\<lparr>RegisteredTenants := new\<rparr>)")
    case True
    with stale_tenants_applied [OF P Some new_def] Some that(2) show ?thesis by blast
  next
    case False
    with patch_invalid [OF Some] that(1) show ?thesis unfolding P merged(1) [symmetric] by blast
  qed
qed

lemma stale_patch_frame:
  assumes "P = client_StatusPatch (CollectorGroupBindings w)
      (base\<lparr>Status := (Status base)\<lparr>RegisteredTenants := ts\<rparr>\<rparr>) base"
  shows "only_tenants (abs (state_after P s)) (abs s)"
    and "result_of P s = Inl e \<Longrightarrow> abs (state_after P s) = abs s"
  by (rule stale_tenants_patch [OF assms, of s]; simp add: with_tenants_def only_tenants_upd)+

lemma register_attempts_lagging:
  "only_tenants (abs (state_after (register_attempts (lagging lag w) ns tenant grp collectorID left) s)) (abs s)"
proof (induction left arbitrary: s)
  case 0
  then show ?case by simp
next
  case (Suc left)
  note state = findBinding_lagging [of lag w ns tenant grp s]
  let ?s1 = "state_after (Now w) s"
  have now: "abs ?s1 = abs s" by (rule now_abs)
  show ?case
  proof (cases "result_of (findBinding (lagging lag w) ns tenant grp) s")
    case (Inl err)
    with state show ?thesis by simp
  next
    case (Inr found)
    show ?thesis
    proof (cases found)
      case None
      with Inr state show ?thesis by simp
    next
      case (Some base)
      let ?P = "client_StatusPatch (CollectorGroupBindings w) (base\<lparr>Status := (Status base)\<lparr>RegisteredTenants :=
        upsertTenant (RegisteredTenants (Status base))
          \<lparr>ID = tenant, CollectorID = collectorID, LastSeenAt = result_of (Now w) s\<rparr>\<rparr>\<rparr>) base"
      note frame = stale_patch_frame [of ?P, OF refl, of ?s1, unfolded now]
      show ?thesis
        using Inr Some state frame(1) Suc.IH [of "state_after ?P ?s1"]
        by (cases "result_of ?P ?s1") (simp_all add: Let_def frame(2))
    qed
  qed
qed

lemma unregister_attempts_lagging:
  "only_tenants (abs (state_after (unregister_attempts (lagging lag w) k collectorID left) s)) (abs s)"
proof (induction left arbitrary: s)
  case 0
  then show ?case by simp
next
  case (Suc left)
  show ?case
  proof (cases "result_of (client_Get (CollectorGroupBindings w) (fst k) (snd k)) (lag s)")
    case (Inl err)
    then show ?thesis by simp
  next
    case (Inr base)
    let ?idx = "indexTenantByCollectorID (RegisteredTenants (Status base)) collectorID"
    let ?P = "client_StatusPatch (CollectorGroupBindings w) (base\<lparr>Status := (Status base)\<lparr>RegisteredTenants :=
      slices_Delete (RegisteredTenants (Status base)) (nat ?idx) (Suc (nat ?idx))\<rparr>\<rparr>) base"
    note frame = stale_patch_frame [of ?P, OF refl, of s]
    show ?thesis
      using Inr frame(1) Suc.IH [of "state_after ?P s"]
      by (cases "result_of ?P s") (simp_all add: Let_def frame(2))
  qed
qed

lemma unregister_items_lagging:
  "only_tenants (abs (state_after (unregister_items (lagging lag w) collectorID items) s)) (abs s)"
  by (induction items) (simp_all add: unregister_attempts_lagging)

lemma lagging_registry: "collector_registry (KubernetesCollectorRegistry (lagging lag w) ns) abs"
proof
  show "only_tenants (abs (state_after (Register (KubernetesCollectorRegistry (lagging lag w) ns) info) s)) (abs s)"
    for info s
    by (simp add: KubernetesCollectorRegistry_def registry_Register_def Let_def register_attempts_lagging)
  show "only_tenants (abs (state_after (Unregister (KubernetesCollectorRegistry (lagging lag w) ns) c) s)) (abs s)"
    for c s
    by (simp add: KubernetesCollectorRegistry_def registry_Unregister_def unregister_items_lagging split: sum.split)
qed

lemma lagging_resolver: "read_only_resolver (ConfigResolver (lagging lag w)) abs"
  by unfold_locales
    (simp_all add: ConfigResolver_def resolveByIndex_def resolveDefault_items_def split: sum.split list.split)

lemma lagging_service: "service_effects (main_service (lagging lag w) ns) abs"
proof -
  have "metered_reader (lagging lag w) abs (ConfigResolver (lagging lag w))"
    by (intro metered_reader.intro kube_lib_lagging lagging_resolver)
  then show ?thesis
    by (intro service_effects.intro)
      (simp_all add: metered_reader.MetricsConfigResolver_read_only lagging_registry)
qed

lemmas lagging_endpoints = kube_lib.endpoint_effects [OF kube_lib_lagging lagging_service]

end

sublocale merge_patching \<subseteq> lagged: service_effects "main_service (lagging lag w) ns" abs for lag ns
  by (rule lagging_service)

interpretation mem_lagged: service_effects "main_service (lagging (\<lambda>_. s0) mem_world) ns" mem_abs for s0 ns
  by (rule mem_patching.lagging_service)

section \<open>Lemmas: a cache that stands still\<close>

text \<open>
  Seen from a cache that shows \<open>s0\<close>, the world is one whose resources are those of \<open>s0\<close>: every reader
  meets its contract with respect to them.
\<close>

definition frozen :: "('s \<Rightarrow> cluster) \<Rightarrow> 's \<Rightarrow> 's \<Rightarrow> cluster" where
  "frozen view s0 s = (view s0)\<lparr>cl_metrics := cl_metrics (view s)\<rparr>"

lemma frozen_simps [simp]:
  "cl_pcs (frozen view s0 s) = cl_pcs (view s0)"
  "cl_cgs (frozen view s0 s) = cl_cgs (view s0)"
  "cl_cgbs (frozen view s0 s) = cl_cgbs (view s0)"
  "cl_metrics (frozen view s0 s) = cl_metrics (view s)"
  by (simp_all add: frozen_def)

context resource_reader
begin

lemma frozen_reader:
  assumes "\<And>s. objs (frozen abs s0 s) = objs (abs s0)"
  shows "resource_reader (cached (\<lambda>_. s0) R) (frozen abs s0) objs index not_found"
  by unfold_locales (simp_all add: assms get_found get_missing list_found stored_key)

end

context merge_patching
begin

lemma frozen_world: "kube_reader (lagging (\<lambda>_. s0) w) (frozen abs s0)"
  by (intro kube_reader.intro)
    (simp_all add: pc.frozen_reader cg.frozen_reader cgb.frozen_reader)

lemma frozen_lib: "kube_lib (lagging (\<lambda>_. s0) w) (frozen abs s0)"
  by unfold_locales
    (simp_all add: frozen_def contains_finalizer add_finalizer remove_finalizer find_condition set_condition_find
      set_condition_distinct set_condition_abs now_abs emit_abs)

lemma frozen_registry: "collector_registry (KubernetesCollectorRegistry (lagging (\<lambda>_. s0) w) ns) (frozen abs s0)"
proof
  note real = lagging_registry [of "\<lambda>_. s0" ns]
  show "only_tenants (frozen abs s0 (state_after (Register (KubernetesCollectorRegistry (lagging (\<lambda>_. s0) w) ns) info) s))
      (frozen abs s0 s)" for info s
    using collector_registry.register_frame [OF real, of info s] by (simp add: only_tenants_def frozen_def option.rel_refl)
  show "only_tenants (frozen abs s0 (state_after (Unregister (KubernetesCollectorRegistry (lagging (\<lambda>_. s0) w) ns) c) s))
      (frozen abs s0 s)" for c s
    using collector_registry.unregister_frame [OF real, of c s] by (simp add: only_tenants_def frozen_def option.rel_refl)
qed

lemma frozen_service: "collector_service (main_service (lagging (\<lambda>_. s0) w) ns) (frozen abs s0)"
proof -
  let ?w = "lagging (\<lambda>_. s0) w"
  note resolver = kube_reader.ConfigResolver_contract [OF frozen_world]
  have "metered_resolver ?w (frozen abs s0) (ConfigResolver ?w)"
    by (intro metered_resolver.intro metered_reader.intro frozen_lib resolver config_resolver.axioms(1) [OF resolver])
  then have "config_resolver (MetricsConfigResolver ?w (ConfigResolver ?w)) (frozen abs s0)"
    by (rule metered_resolver.MetricsConfigResolver_contract)
  then show ?thesis
    by (intro collector_service.intro service_effects.intro)
      (simp_all add: config_resolver.axioms(1) frozen_registry)
qed

end

interpretation mem_frozen: collector_service "main_service (lagging (\<lambda>_. s0) mem_world) ns" "frozen mem_abs s0" for s0 ns
  by (rule mem_patching.frozen_service)

section \<open>Lemmas: registration through a cache\<close>

context merge_patching
begin

lemma stale_registration:
  assumes tenant: "tenant = map_get (info_LocalAttributes info) ''tenant''" "tenant \<noteq> ''''"
    and grp: "grp = map_get (info_LocalAttributes info) ''collector_group''"
    and kept: "\<And>k. cl_cgbs (abs s0) k \<noteq> None \<Longrightarrow> cl_cgbs (abs s) k \<noteq> None"
    and reg: "R = registry_Register (lagging (\<lambda>_. s0) w) ns info"
  shows "result_of R s = None \<and> (\<exists>x. registers_at (abs s0) ns tenant grp x \<and>
    (case x of
       None \<Rightarrow> abs (state_after R s) = abs s
     | Some b0 \<Rightarrow> \<exists>cur b' at. cl_cgbs (abs s) (key_of b0) = Some cur \<and>
         abs (state_after R s) = with_cgb (key_of b0) b' (abs s) \<and>
         with_tenants (merge_field (RegisteredTenants (Status b0)) (upsertTenant (RegisteredTenants (Status b0))
           \<lparr>ID = tenant, CollectorID = info_ID info, LastSeenAt = at\<rparr>) (RegisteredTenants (Status cur))) cur b'))"
proof -
  let ?w = "lagging (\<lambda>_. s0) w"
  have code: "R = register_attempts ?w ns tenant grp (info_ID info) (Suc 2)"
    using tenant grp reg by (simp add: registry_Register_def maxPatchRetries_def eval_nat_numeral
      del: register_attempts.simps)
  obtain x where x: "result_of (findBinding ?w ns tenant grp) s = Inr x"
    "registers_at (frozen abs s0 s) ns tenant grp x"
    using kube_reader.findBinding_correct(1) [OF frozen_world tenant(2)] by blast
  have x0: "registers_at (abs s0) ns tenant grp x"
    using x(2) by (simp only: registers_at_def frozen_simps)
  note state = findBinding_lagging [of "\<lambda>_. s0" w ns tenant grp s]
  show ?thesis
  proof (cases x)
    case None
    with x(1) state have "run_state R s = (None, s)"
      unfolding code register_attempts.simps(2) by (simp add: Let_def)
    with x0 None show ?thesis by (auto intro!: exI [of _ None])
  next
    case (Some b0)
    with x0 obtain n where b0: "cl_cgbs (abs s0) (ns, n) = Some b0" by (blast dest: registers_at_stored)
    note key = cgb.stored_key [OF b0]
    with kept b0 obtain cur where cur: "cl_cgbs (abs s) (key_of b0) = Some cur" by fastforce
    let ?s1 = "state_after (Now w) s"
    define t where "t = \<lparr>ID = tenant, CollectorID = info_ID info, LastSeenAt = result_of (Now w) s\<rparr>"
    define ts where "ts = upsertTenant (RegisteredTenants (Status b0)) t"
    define P where "P = client_StatusPatch (CollectorGroupBindings w)
      (b0\<lparr>Status := (Status b0)\<lparr>RegisteredTenants := ts\<rparr>\<rparr>) b0"
    define new where "new = merge_field (map (encode_tenant wire) (RegisteredTenants (Status b0)))
      (map (encode_tenant wire) ts) (RegisteredTenants (Status cur))"
    have enc0: "map (encode_tenant wire) (RegisteredTenants (Status b0)) = RegisteredTenants (Status b0)"
      using encoded_tenants [OF cgb.stored_encoded [OF b0]] .
    have ts': "map (encode_tenant wire) ts = upsertTenant (RegisteredTenants (Status b0))
        \<lparr>ID = tenant, CollectorID = info_ID info, LastSeenAt = wire (result_of (Now w) s)\<rparr>"
      by (simp add: ts_def upsertTenant_encode enc0 t_def encode_tenant_def)
    have "valid_binding_status ((Status b0)\<lparr>RegisteredTenants := map (encode_tenant wire) ts\<rparr>)"
      unfolding ts' by (rule upsertTenant_valid) (simp_all add: cgb.stored_valid [OF b0] tenant(2))
    moreover have "valid_binding_status (Status cur)" by (rule cgb.stored_valid [OF cur])
    ultimately have "valid_binding_status ((Status cur)\<lparr>RegisteredTenants := new\<rparr>)"
      by (simp add: valid_binding_status_def new_def merge_field_def)
    with stale_tenants_applied [OF P_def _ new_def, of ?s1] cur obtain b' where b': "result_of P ?s1 = Inr b'"
      "abs (state_after P ?s1) = with_cgb (key_of b0) b' (abs s)" "with_tenants new cur b'"
      by (auto simp: now_abs)
    have run: "run_state R s = (None, state_after P ?s1)"
      unfolding code register_attempts.simps(2) using x(1) Some state b'(1)
      by (simp add: Let_def t_def [symmetric] ts_def [symmetric] P_def [symmetric])
    show ?thesis
      using x0 Some cur b'(2,3) unfolding run new_def ts' enc0 by (auto intro!: exI [of _ "Some b0"])
  qed
qed

end

lemma kube_world_key: "kube_world w view wire version \<Longrightarrow> cl_cgbs (view s) k = Some b \<Longrightarrow> key_of b = k"
  by (rule resource_reader.stored_key [OF kube_reader.axioms(3) [OF kube_world.axioms(2)]])

section \<open>Properties\<close>

text \<open>
  C8: Served from a cache that shows an earlier state of the cluster, GetConfig answers what the fallback
  chain allows on the resources the cache shows, whatever the cluster holds by then; what it writes
  to the cluster is nothing but tenant entries and metrics.
\<close>

theorem get_config_through_cache:
  assumes "merge_patching w view wire version" and "w0 = lagging (\<lambda>_. s0) w"
  shows "\<exists>r. chain_answers (view s0) ns (map_get (msg_LocalAttributes msg) ''tenant'')
           (map_get (msg_LocalAttributes msg) ''collector_group'') r \<and>
         result_of (GetConfig w0 (main_service w0 ns) msg) s = respond (msg_Hash msg) r \<and>
         (\<exists>c. only_tenants c (view s) \<and>
            same_resources (view (state_after (GetConfig w0 (main_service w0 ns) msg) s)) c)"
proof -
  note world = merge_patching.axioms(1) [OF assms(1)]
  have effects: "\<exists>c. only_tenants c (view s) \<and>
      same_resources (view (state_after (GetConfig w0 (main_service w0 ns) msg) s)) c"
    unfolding assms(2)
    by (rule kube_lib.GetConfig_effects [OF kube_lib.kube_lib_lagging [OF kube_world.axioms(1) [OF world]]
      merge_patching.lagging_service [OF assms(1)]])
  have "same_resources (frozen view s0 s) (view s0)" by (simp add: same_resources_def)
  with collector_service.GetConfig_correct [OF merge_patching.frozen_service [OF assms(1), of s0 ns], of s msg w0]
  obtain r where "chain_answers (view s0) ns (map_get (msg_LocalAttributes msg) ''tenant'')
      (map_get (msg_LocalAttributes msg) ''collector_group'') r"
    "result_of (GetConfig w0 (main_service w0 ns) msg) s = respond (msg_Hash msg) r"
    unfolding assms(2) by (auto simp: chain_answers_cong)
  with effects show ?thesis by blast
qed

theorem get_config_through_cache_witness:
  "\<exists>r. chain_answers (mem_abs sample_served) ''ns'' ''t1'' '''' r \<and>
     result_of (GetConfig (lagging (\<lambda>_. sample_served) mem_world)
       (main_service (lagging (\<lambda>_. sample_served) mem_world) ''ns'') (sample_poll ''t1'' ''old'')) (sample [] [] []) =
     respond ''old'' r"
  using get_config_through_cache [OF merge_patching_mem refl, of sample_served "''ns''" "sample_poll ''t1'' ''old''"
    "sample [] [] []"] by (auto simp: sample_poll_def map_get_def)

text \<open>
  C37: A registration made from a stale cache replaces the tenants of its binding by those the cache showed,
  with its own entry added, and reports success: an entry that another replica added in between is
  gone. The retry on conflict does not help, since a merge patch carries no resource version and
  so does not conflict.
\<close>

theorem stale_registration_loses_entries:
  assumes "merge_patching w view wire version"
    and "tenant = map_get (info_LocalAttributes info) ''tenant''" "tenant \<noteq> ''''"
    and "cl_cgbs (view s0) (ns, n) = Some b0" "TenantRef (Spec b0) = tenant"
    and "\<And>m b. cl_cgbs (view s0) (ns, m) = Some b \<Longrightarrow> TenantRef (Spec b) = tenant \<Longrightarrow> m = n"
    and "\<And>k. cl_cgbs (view s0) k \<noteq> None \<Longrightarrow> cl_cgbs (view s) k \<noteq> None"
    and "tenant \<notin> ID ` set (RegisteredTenants (Status b0))"
    and "R = registry_Register (lagging (\<lambda>_. s0) w) ns info"
  shows "result_of R s = None \<and> (\<exists>b'. cl_cgbs (view (state_after R s)) (ns, n) = Some b' \<and>
    ID ` set (RegisteredTenants (Status b')) = insert tenant (ID ` set (RegisteredTenants (Status b0))))"
proof -
  note world = merge_patching.axioms(1) [OF assms(1)]
  have key: "key_of b0 = (ns, n)" by (rule kube_world_key [OF world assms(4)])
  obtain x where none: "result_of R s = None"
    and x: "registers_at (view s0) ns tenant (map_get (info_LocalAttributes info) ''collector_group'') x"
    and after: "case x of None \<Rightarrow> view (state_after R s) = view s
     | Some b0 \<Rightarrow> \<exists>cur b' at. cl_cgbs (view s) (key_of b0) = Some cur \<and>
         view (state_after R s) = with_cgb (key_of b0) b' (view s) \<and>
         with_tenants (merge_field (RegisteredTenants (Status b0)) (upsertTenant (RegisteredTenants (Status b0))
           \<lparr>ID = tenant, CollectorID = info_ID info, LastSeenAt = at\<rparr>) (RegisteredTenants (Status cur))) cur b'"
    using merge_patching.stale_registration [OF assms(1-3) refl assms(7,9)] by blast
  have "x = Some b0"
    using x assms(4,5,6) unfolding registers_at_def by (metis option.inject)
  with after key obtain b' at cur where b': "cl_cgbs (view (state_after R s)) (ns, n) = Some b'"
    and tenants: "with_tenants (merge_field (RegisteredTenants (Status b0)) (upsertTenant (RegisteredTenants (Status b0))
       \<lparr>ID = tenant, CollectorID = info_ID info, LastSeenAt = at\<rparr>) (RegisteredTenants (Status cur))) cur b'"
    by auto
  let ?ts = "upsertTenant (RegisteredTenants (Status b0)) \<lparr>ID = tenant, CollectorID = info_ID info, LastSeenAt = at\<rparr>"
  have ids: "map ID ?ts = map ID (RegisteredTenants (Status b0)) @ [tenant]"
    using assms(8) by (simp add: upsertTenant_ids)
  then have "?ts \<noteq> RegisteredTenants (Status b0)" by auto
  with tenants have "RegisteredTenants (Status b') = ?ts" by (simp add: with_tenants_def merge_field_def)
  with arg_cong [OF ids, of set] have "ID ` set (RegisteredTenants (Status b')) =
      insert tenant (ID ` set (RegisteredTenants (Status b0)))" by simp
  with none b' show ?thesis by blast
qed

theorem stale_registration_loses_entries_witness:
  "\<exists>b'. cl_cgbs (mem_abs (state_after (registry_Register (lagging (\<lambda>_. sample_registry []) mem_world) ''ns''
      (sample_info ''c1'' ''t1'')) (sample_registry [sample_tenant ''t2'' ''c2'' 5]))) (''ns'', ''bt'') = Some b' \<and>
    ID ` set (RegisteredTenants (Status b')) = {''t1''}"
proof -
  have "\<exists>b'. cl_cgbs (mem_abs (state_after (registry_Register (lagging (\<lambda>_. sample_registry []) mem_world) ''ns''
      (sample_info ''c1'' ''t1'')) (sample_registry [sample_tenant ''t2'' ''c2'' 5]))) (''ns'', ''bt'') = Some b' \<and>
    ID ` set (RegisteredTenants (Status b')) = insert ''t1'' (ID ` set (RegisteredTenants (Status
      (sample_binding ''bt'' '''' ''t1'' ''base'' '''' '''' [] [] None))))"
    by (rule conjunct2 [OF stale_registration_loses_entries [OF merge_patching_mem]])
      (auto simp: sample_registry_def sample_info_def map_get_def split: if_splits)
  then show ?thesis by simp
qed

end
