(* ===== verification/Stale_Controllers.thy ===== *)
theory Stale_Controllers
  imports Cache_Lag Counter_Invariant
begin

text \<open>
  The PipelineConfig and CollectorGroup controllers on a cache that lags behind. Their writes are
  updates, which carry the resource version that was read, and the API server refuses an update
  whose version is not the stored one; so a reconcile that read a stale object changes nothing, and
  one that read the stored object does what it does on current reads.
\<close>

section \<open>Optimistic locking\<close>

definition refuses_stale ::
  "('s, 'e, ('a, 'b) resource) resource_client \<Rightarrow> ('s \<Rightarrow> cluster) \<Rightarrow>
   (cluster \<Rightarrow> object_key \<rightharpoonup> ('a, 'b) resource) \<Rightarrow> bool" where
  "refuses_stale R view objs \<longleftrightarrow>
     (\<forall>s obj. (\<forall>cur. objs (view s) (key_of obj) = Some cur \<longrightarrow>
          ResourceVersion (Meta cur) \<noteq> ResourceVersion (Meta obj)) \<longrightarrow>
        (\<exists>e. result_of (client_Update R obj) s = Inl e) \<and> view (state_after (client_Update R obj) s) = view s \<and>
        (\<exists>e. result_of (client_StatusUpdate R obj) s = Inl e) \<and>
        view (state_after (client_StatusUpdate R obj) s) = view s)"

text \<open>
  A cache shows versions the API server once had: an object it shows under the version that is stored
  is the stored object.
\<close>

definition coherent ::
  "(cluster \<Rightarrow> object_key \<rightharpoonup> ('a, 'b) resource) \<Rightarrow> cluster \<Rightarrow> cluster \<Rightarrow> bool" where
  "coherent objs cache c \<longleftrightarrow>
     (\<forall>k a b. objs cache k = Some a \<and> objs c k = Some b \<and>
        ResourceVersion (Meta a) = ResourceVersion (Meta b) \<longrightarrow> a = b)"

locale optimistic_locking = merge_patching w abs wire version
  for w :: "('s, 'e) world"
    and abs :: "'s \<Rightarrow> cluster"
    and wire :: "Time \<Rightarrow> Time"
    and version :: "'s \<Rightarrow> string" +
  assumes pc_refuses: "refuses_stale (PipelineConfigs w) abs cl_pcs"
    and cg_refuses: "refuses_stale (CollectorGroups w) abs cl_cgs"

interpretation mem_locking: optimistic_locking mem_world mem_abs mem_wire mem_version
  by (intro optimistic_locking.intro optimistic_locking_axioms.intro merge_patching_mem)
    (auto simp: refuses_stale_def mem_world_def mem_client_def mem_abs_def split: option.splits)

lemma optimistic_locking_mem [simp]: "optimistic_locking mem_world mem_abs mem_wire mem_version"
  by (rule mem_locking.optimistic_locking_axioms)

section \<open>Current reads\<close>

lemma cached_writes [simp]:
  "client_Update (cached lag R) = client_Update R"
  "client_StatusUpdate (cached lag R) = client_StatusUpdate R"
  by (simp_all add: cached_def)

text \<open>A cache that does not lag.\<close>

abbreviation current :: "('s, 'e) world \<Rightarrow> ('s, 'e) world" where
  "current w \<equiv> lagging (\<lambda>s. s) w"

context resource_store
begin

lemma current_store: "resource_store (cached (\<lambda>s. s) R) abs objs index not_found put encode valid version"
  by unfold_locales
    (unfold cached_simps cached_writes fst_conv snd_conv,
      (rule refl get_found get_missing list_found stored_key stored_valid stored_encoded status_update
        update_finalizers update_last_finalizer status_patch; assumption)+)

text \<open>
  An object read from a coherent cache is the stored one, or every update of it is refused.
\<close>

lemma cached_object:
  assumes "refuses_stale R abs objs" and "coherent objs (abs s0) (abs s)"
    and read: "result_of (client_Get R ns n) s0 = Inr a"
  obtains (fresh) "result_of (client_Get R ns n) s = Inr a"
  | (stale) "key_of a = (ns, n)"
      "\<And>t obj. abs t = abs s \<Longrightarrow> key_of obj = (ns, n) \<Longrightarrow> ResourceVersion (Meta obj) = ResourceVersion (Meta a) \<Longrightarrow>
        abs (state_after (client_Update R obj) t) = abs s \<and> abs (state_after (client_StatusUpdate R obj) t) = abs s"
proof (cases "objs (abs s) (ns, n) = Some a")
  case True
  then show ?thesis using fresh get_found by blast
next
  case False
  have a: "objs (abs s0) (ns, n) = Some a"
    using read get_found [of s0 ns n] get_missing [of s0 ns n] by (cases "objs (abs s0) (ns, n)") auto
  have "ResourceVersion (Meta cur) \<noteq> ResourceVersion (Meta a)" if "objs (abs s) (ns, n) = Some cur" for cur
    using assms(2) a False that unfolding coherent_def by metis
  then show ?thesis
    using assms(1) by (intro stale stored_key [OF a]) (simp add: refuses_stale_def)
qed

end

context kube_world
begin

lemma current_world: "kube_world (current w) abs wire version"
proof (intro kube_world.intro kube_reader.intro kube_world_axioms.intro kube_lib_lagging wire_floor wire_precision)
qed (simp_all add: pc.current_store cg.current_store cgb.current_store resource_store.axioms(1) [OF pc.current_store]
  resource_store.axioms(1) [OF cg.current_store] resource_store.axioms(1) [OF cgb.current_store])

end

section \<open>Reconciles on a stale cache\<close>

context optimistic_locking
begin

lemma stale_PipelineConfig_Reconcile:
  assumes "coherent cl_pcs (abs (lag s)) (abs s)"
  shows "abs (state_after (PipelineConfig_Reconcile (lagging lag w) req) s) = abs s \<or>
    run_state (PipelineConfig_Reconcile (lagging lag w) req) s = run_state (PipelineConfig_Reconcile (current w) req) s"
proof (cases "result_of (client_Get (PipelineConfigs w) (req_Namespace req) (req_Name req)) (lag s)")
  case (Inl e)
  then show ?thesis by (simp add: PipelineConfig_Reconcile_def)
next
  case (Inr a)
  from pc_refuses assms this show ?thesis
  proof (cases rule: pc.cached_object)
    case fresh
    with Inr show ?thesis by (simp add: PipelineConfig_Reconcile_def)
  next
    case stale
    with Inr show ?thesis by (simp add: PipelineConfig_Reconcile_def set_condition_abs Let_def)
  qed
qed

lemma stale_CollectorGroup_Reconcile:
  assumes "coherent cl_cgs (abs (lag s)) (abs s)"
  shows "abs (state_after (CollectorGroup_Reconcile (lagging lag w) req) s) = abs s \<or>
    run_state (CollectorGroup_Reconcile (lagging lag w) req) s = run_state (CollectorGroup_Reconcile (current w) req) s"
proof (cases "result_of (client_Get (CollectorGroups w) (req_Namespace req) (req_Name req)) (lag s)")
  case (Inl e)
  then show ?thesis by (simp add: CollectorGroup_Reconcile_def)
next
  case (Inr a)
  from cg_refuses assms this show ?thesis
  proof (cases rule: cg.cached_object)
    case fresh
    with Inr show ?thesis by (simp add: CollectorGroup_Reconcile_def)
  next
    case stale
    with Inr show ?thesis by (simp add: CollectorGroup_Reconcile_def)
  qed
qed

end

section \<open>Properties\<close>

text \<open>
  C4: Stale caches do not open the deletion guards. A reconcile of a PipelineConfig or a CollectorGroup
  whose read came from a coherent cache, however old, changes no resource or does exactly what it
  does on current reads; and whatever it removes is bound by no binding of the stored cluster, also
  when the cache still showed a counter of zero.
\<close>

theorem stale_reconciles_are_harmless:
  assumes world: "optimistic_locking w view wire version"
    and "coherent cl_pcs (view (lag s)) (view s)" and "coherent cl_cgs (view (lag s)) (view s)"
    and "counters_ok (view s)" and "few_bindings (view s)"
    and P: "P = PipelineConfig_Reconcile (lagging lag w) req" and C: "C = CollectorGroup_Reconcile (lagging lag w) req"
  shows "(view (state_after P s) = view s \<or> run_state P s = run_state (PipelineConfig_Reconcile (current w) req) s) \<and>
    (view (state_after C s) = view s \<or> run_state C s = run_state (CollectorGroup_Reconcile (current w) req) s) \<and>
    (cl_pcs (view s) (ns, n) \<noteq> None \<and> cl_pcs (view (state_after P s)) (ns, n) = None \<longrightarrow>
       \<not> (\<exists>m b. cl_cgbs (view s) (ns, m) = Some b \<and> BoundPipelineConfigRef (Status b) = n)) \<and>
    (cl_cgs (view s) (ns, n) \<noteq> None \<and> cl_cgs (view (state_after C s)) (ns, n) = None \<longrightarrow>
       \<not> (\<exists>m b. cl_cgbs (view s) (ns, m) = Some b \<and> BoundCollectorGroupRef (Status b) = n))"
proof -
  have kw: "kube_world (current w) view wire version"
    by (rule kube_world.current_world [OF merge_patching.axioms(1) [OF optimistic_locking.axioms(1) [OF world]]])
  have unbound: "bound_keys ref m ns n = {} \<Longrightarrow> \<not> (\<exists>k b. m (ns, k) = Some b \<and> ref (Status b) = n)" for ref m
    by (auto simp: bound_keys_def)
  have pc: "view (state_after P s) = view s \<or> run_state P s = run_state (PipelineConfig_Reconcile (current w) req) s"
    unfolding P by (rule optimistic_locking.stale_PipelineConfig_Reconcile [OF world, of lag s, OF assms(2)])
  have cg: "view (state_after C s) = view s \<or> run_state C s = run_state (CollectorGroup_Reconcile (current w) req) s"
    unfolding C by (rule optimistic_locking.stale_CollectorGroup_Reconcile [OF world, of lag s, OF assms(3)])
  from kube_world.PipelineConfig_Reconcile_safe [OF kw assms(4) [unfolded counters_ok_on] assms(5) UNIV_I, of ns n req] unbound pc
  have "cl_pcs (view s) (ns, n) \<noteq> None \<and> cl_pcs (view (state_after P s)) (ns, n) = None \<longrightarrow>
      \<not> (\<exists>m b. cl_cgbs (view s) (ns, m) = Some b \<and> BoundPipelineConfigRef (Status b) = n)" by metis
  moreover from kube_world.CollectorGroup_Reconcile_safe [OF kw assms(4) [unfolded counters_ok_on] assms(5) UNIV_I, of ns n req] unbound cg
  have "cl_cgs (view s) (ns, n) \<noteq> None \<and> cl_cgs (view (state_after C s)) (ns, n) = None \<longrightarrow>
      \<not> (\<exists>m b. cl_cgbs (view s) (ns, m) = Some b \<and> BoundCollectorGroupRef (Status b) = n)" by metis
  ultimately show ?thesis using pc cg by blast
qed

text \<open>The cache shows an unused PipelineConfig under deletion; since then a binding was bound to it.\<close>

definition sample_unused :: mem where
  "sample_unused = sample [sample_pc ''base'' ''logging'' ''h1'' 0 [PipelineConfigFinalizer] (Some 5)] [] []"

definition sample_in_use :: mem where
  "sample_in_use = sample
     [(sample_pc ''base'' ''logging'' ''h1'' 1 [PipelineConfigFinalizer] (Some 5))
        \<lparr>Meta := (sample_meta ''base'' [PipelineConfigFinalizer] (Some 5))\<lparr>ResourceVersion := ''vv''\<rparr>\<rparr>] []
     [sample_binding ''bt'' '''' ''t1'' ''base'' ''base'' '''' [] [CollectorGroupBindingFinalizer] None]"

lemma sample_in_use_counters: "counters_ok (mem_abs sample_in_use)" "few_bindings (mem_abs sample_in_use)"
proof -
  have "bound_keys BoundPipelineConfigRef (cl_cgbs (mem_abs sample_in_use)) ns n =
      (if ns = ''ns'' \<and> n = ''base'' then {(''ns'', ''bt'')} else {})" if "n \<noteq> ''''" for ns n
    using that by (auto simp: bound_keys_def sample_in_use_def)
  then show "counters_ok (mem_abs sample_in_use)"
    by (auto simp: counters_ok_def sample_in_use_def key_of_def)
  show "few_bindings (mem_abs sample_in_use)" by (simp add: few_bindings_def sample_in_use_def)
qed

theorem stale_reconciles_are_harmless_witness:
  "cl_pcs (mem_abs sample_unused) (''ns'', ''base'') =
     Some (sample_pc ''base'' ''logging'' ''h1'' 0 [PipelineConfigFinalizer] (Some 5)) \<and>
   cl_pcs (mem_abs (state_after (PipelineConfig_Reconcile (lagging (\<lambda>_. sample_unused) mem_world) (sample_req ''base''))
     sample_in_use)) (''ns'', ''base'') \<noteq> None"
proof -
  have "coherent cl_pcs (mem_abs sample_unused) (mem_abs sample_in_use)"
    "coherent cl_cgs (mem_abs sample_unused) (mem_abs sample_in_use)"
    by (auto simp: coherent_def sample_unused_def sample_in_use_def key_of_def sample_meta_def split: if_splits)
  from stale_reconciles_are_harmless [of mem_world mem_abs mem_wire mem_version "\<lambda>_. sample_unused" sample_in_use,
      OF _ this sample_in_use_counters refl refl, of "sample_req ''base''" "''ns''" "''base''"]
  show ?thesis by (auto simp: sample_unused_def sample_in_use_def key_of_def split: if_splits)
qed

end
