(* ===== verification/Fleet_System.thy ===== *)
theory Fleet_System
  imports Stale_Controllers
begin

text \<open>
  The running operator as a transition system: the reconciles of the three controllers, the RPCs of
  the collectors and the edits of users, interleaved in any order. The states that can be reached
  from an empty cluster satisfy the invariant \<open>fleet_except\<close>: the counters are exact, what a binding
  is bound to exists, and no binding is bound without the finalizer that will release it, except
  where a user has interfered.

  Users may do anything. The run keeps a record of the edits that interfere with what the operator
  maintains: a PipelineConfig or CollectorGroup that a user removes while a binding is bound to it,
  which happens when it has no finalizer yet and which no guard of the code prevents, is \<open>lost\<close>; and a
  namespace in which somebody makes any other change that the operator does not expect (to a status, to
  the finalizers of a binding, by creating a binding with finalizers or a resource with a counter,
  and so on) is \<open>tampered\<close> with. Every other edit leaves the record alone: resources are
  created with a fresh status, specs, labels and annotations change, resources are marked for
  deletion, those without finalizers are removed.

  A reconcile of a binding is one step and reads what is stored. One that is interrupted, or that
  works on an old copy of the binding, can leave a counter too high (\<open>rejected_status_write_leaks_count\<close>
  of theory Fault_Scenarios); such a reconcile is a change to its namespace that counts as tampering.
\<close>

section \<open>User edits\<close>

record blame =
  lost_pcs :: "object_key set"
  lost_cgs :: "object_key set"
  tampered :: "string set"

definition no_blame :: blame where
  "no_blame = \<lparr>lost_pcs = {}, lost_cgs = {}, tampered = {}\<rparr>"

definition fresh_binding :: "CollectorGroupBinding \<Rightarrow> bool" where
  "fresh_binding b \<longleftrightarrow>
     Finalizers (Meta b) = [] \<and> BoundPipelineConfigRef (Status b) = '''' \<and> BoundCollectorGroupRef (Status b) = ''''"

text \<open>What the API server guarantees of whatever is stored, and a cluster that differs in one namespace.\<close>

definition plausible :: "cluster \<Rightarrow> bool" where
  "plausible c \<longleftrightarrow> finite (dom (cl_cgbs c)) \<and> few_bindings c \<and>
     (\<forall>ns. cl_pcs c (ns, '''') = None \<and> cl_cgs c (ns, '''') = None)"

definition same_elsewhere :: "string \<Rightarrow> cluster \<Rightarrow> cluster \<Rightarrow> bool" where
  "same_elsewhere ns c c' \<longleftrightarrow>
     (\<forall>k. fst k \<noteq> ns \<longrightarrow> cl_pcs c' k = cl_pcs c k \<and> cl_cgs c' k = cl_cgs c k \<and> cl_cgbs c' k = cl_cgbs c k)"

inductive user_edit :: "blame \<Rightarrow> cluster \<Rightarrow> blame \<Rightarrow> cluster \<Rightarrow> bool" where
  create_binding:
    "cl_cgbs c k = None \<Longrightarrow> fresh_binding b \<Longrightarrow> Suc (card (dom (cl_cgbs c))) < 2 ^ 63 \<Longrightarrow>
       user_edit g c g (with_cgb k b c)"
| edit_binding:
    "cl_cgbs c k = Some b \<Longrightarrow> Status b' = Status b \<Longrightarrow> Finalizers (Meta b') = Finalizers (Meta b) \<Longrightarrow>
       user_edit g c g (with_cgb k b' c)"
| remove_binding:
    "cl_cgbs c k = Some b \<Longrightarrow> Finalizers (Meta b) = [] \<Longrightarrow>
       user_edit g c g (c\<lparr>cl_cgbs := (cl_cgbs c)(k := None)\<rparr>)"
| create_pc:
    "cl_pcs c (ns, n) = None \<Longrightarrow> n \<noteq> '''' \<Longrightarrow> pc_ActiveBindings (Status pc) = 0 \<Longrightarrow>
       user_edit g c g (with_pc (ns, n) pc c)"
| edit_pc:
    "cl_pcs c k = Some pc \<Longrightarrow> Status pc' = Status pc \<Longrightarrow> user_edit g c g (with_pc k pc' c)"
| remove_pc:
    "user_edit g c
       (if bound_keys BoundPipelineConfigRef (cl_cgbs c) ns n = {} then g
        else g\<lparr>lost_pcs := insert (ns, n) (lost_pcs g)\<rparr>)
       (c\<lparr>cl_pcs := (cl_pcs c)((ns, n) := None)\<rparr>)"
| create_cg:
    "cl_cgs c (ns, n) = None \<Longrightarrow> n \<noteq> '''' \<Longrightarrow> cg_ActiveBindings (Status cg) = 0 \<Longrightarrow>
       user_edit g c g (with_cg (ns, n) cg c)"
| edit_cg:
    "cl_cgs c k = Some cg \<Longrightarrow> Status cg' = Status cg \<Longrightarrow> user_edit g c g (with_cg k cg' c)"
| remove_cg:
    "user_edit g c
       (if bound_keys BoundCollectorGroupRef (cl_cgbs c) ns n = {} then g
        else g\<lparr>lost_cgs := insert (ns, n) (lost_cgs g)\<rparr>)
       (c\<lparr>cl_cgs := (cl_cgs c)((ns, n) := None)\<rparr>)"
| tamper:
    "same_elsewhere ns c c' \<Longrightarrow> plausible c' \<Longrightarrow> user_edit g c (g\<lparr>tampered := insert ns (tampered g)\<rparr>) c'"

inductive_cases user_editE: "user_edit g c g' c'"

section \<open>Runs\<close>

text \<open>
  What the operator does: a reconcile of one of its three controllers, an RPC through one of its three
  endpoints, for any namespace it was started with, or a scrape of its resource metrics. Every replica
  serves RPCs, from a cache that may lag behind in any way; the reconciles of PipelineConfigs and
  CollectorGroups read from a coherent cache, which may be old; those of bindings read what is stored.
\<close>

datatype ('s, 'e) fleet_action =
    ReconcileBinding BindingReconciler Request
  | ReconcilePipelineConfig "'s \<Rightarrow> 's" Request
  | ReconcileCollectorGroup "'s \<Rightarrow> 's" Request
  | GetConfigRPC "'s \<Rightarrow> 's" "'e connect_error \<Rightarrow> string" string string GetConfigRequest
  | RegisterRPC "'s \<Rightarrow> 's" "'e connect_error \<Rightarrow> string" string string RegisterCollectorRequest
  | UnregisterRPC "'s \<Rightarrow> 's" "'e connect_error \<Rightarrow> string" string string string
  | Scrape "(string \<times> nat) list \<Rightarrow> (string \<times> nat) list" ResourceCollector

fun perform :: "('s, 'e) world \<Rightarrow> ('s, 'e) fleet_action \<Rightarrow> 's \<Rightarrow> 's" where
  "perform w (ReconcileBinding r req) s = state_after (Binding_Reconcile w r req) s"
| "perform w (ReconcilePipelineConfig lag req) s = state_after (PipelineConfig_Reconcile (lagging lag w) req) s"
| "perform w (ReconcileCollectorGroup lag req) s = state_after (CollectorGroup_Reconcile (lagging lag w) req) s"
| "perform w (GetConfigRPC lag codeString procedure ns msg) s =
     state_after (GetConfig_endpoint (lagging lag w) codeString procedure ns msg) s"
| "perform w (RegisterRPC lag codeString procedure ns msg) s =
     state_after (RegisterCollector_endpoint (lagging lag w) codeString procedure ns msg) s"
| "perform w (UnregisterRPC lag codeString procedure ns collectorID) s =
     state_after (UnregisterCollector_endpoint (lagging lag w) codeString procedure ns collectorID) s"
| "perform w (Scrape range_order rc) s = state_after (Collect range_order w rc) s"

fun cache_ok :: "('s \<Rightarrow> cluster) \<Rightarrow> ('s, 'e) fleet_action \<Rightarrow> 's \<Rightarrow> bool" where
  "cache_ok view (ReconcilePipelineConfig lag req) s = coherent cl_pcs (view (lag s)) (view s)"
| "cache_ok view (ReconcileCollectorGroup lag req) s = coherent cl_cgs (view (lag s)) (view s)"
| "cache_ok view _ s = True"

inductive reachable_state :: "('s, 'e) world \<Rightarrow> ('s \<Rightarrow> cluster) \<Rightarrow> blame \<Rightarrow> 's \<Rightarrow> bool"
  for w :: "('s, 'e) world" and view :: "'s \<Rightarrow> cluster" where
  start: "cl_pcs (view s) = Map.empty \<Longrightarrow> cl_cgs (view s) = Map.empty \<Longrightarrow> cl_cgbs (view s) = Map.empty \<Longrightarrow>
    reachable_state w view no_blame s"
| operator_acts: "reachable_state w view g s \<Longrightarrow> cache_ok view act s \<Longrightarrow> reachable_state w view g (perform w act s)"
| user_acts: "reachable_state w view g s \<Longrightarrow> user_edit g (view s) g' (view s') \<Longrightarrow> reachable_state w view g' s'"

section \<open>The invariant\<close>

definition binding_ok :: "cluster \<Rightarrow> object_key \<Rightarrow> CollectorGroupBinding \<Rightarrow> bool" where
  "binding_ok c k b \<longleftrightarrow>
     set (Finalizers (Meta b)) \<subseteq> {CollectorGroupBindingFinalizer} \<and>
     (BoundPipelineConfigRef (Status b) \<noteq> '''' \<longrightarrow>
        cl_pcs c (fst k, BoundPipelineConfigRef (Status b)) \<noteq> None \<and> Finalizers (Meta b) \<noteq> []) \<and>
     (BoundCollectorGroupRef (Status b) \<noteq> '''' \<longrightarrow>
        cl_cgs c (fst k, BoundCollectorGroupRef (Status b)) \<noteq> None \<and> Finalizers (Meta b) \<noteq> [])"

definition fleet_ok :: "cluster \<Rightarrow> bool" where
  "fleet_ok c \<longleftrightarrow> counters_ok c \<and> few_bindings c \<and> (\<forall>k b. cl_cgbs c k = Some b \<longrightarrow> binding_ok c k b)"

lemma fleet_okD:
  assumes "fleet_ok c"
  shows "counters_ok c" "few_bindings c" "finite (dom (cl_cgbs c))"
    "cl_cgbs c k = Some b \<Longrightarrow> binding_ok c k b"
  using assms unfolding fleet_ok_def counters_ok_def by blast+

text \<open>
  The same, except for what the record of a run blames on users: the counters of lost resources and of
  tampered namespaces, the existence of lost resources, and the bindings of tampered namespaces.
\<close>

definition kept_pcs :: "blame \<Rightarrow> object_key set" where
  "kept_pcs g = {k. k \<notin> lost_pcs g \<and> fst k \<notin> tampered g}"

definition kept_cgs :: "blame \<Rightarrow> object_key set" where
  "kept_cgs g = {k. k \<notin> lost_cgs g \<and> fst k \<notin> tampered g}"

definition binding_except :: "blame \<Rightarrow> cluster \<Rightarrow> object_key \<Rightarrow> CollectorGroupBinding \<Rightarrow> bool" where
  "binding_except g c k b \<longleftrightarrow>
     set (Finalizers (Meta b)) \<subseteq> {CollectorGroupBindingFinalizer} \<and>
     (BoundPipelineConfigRef (Status b) \<noteq> '''' \<longrightarrow> Finalizers (Meta b) \<noteq> [] \<and>
        ((fst k, BoundPipelineConfigRef (Status b)) \<notin> lost_pcs g \<longrightarrow>
           cl_pcs c (fst k, BoundPipelineConfigRef (Status b)) \<noteq> None)) \<and>
     (BoundCollectorGroupRef (Status b) \<noteq> '''' \<longrightarrow> Finalizers (Meta b) \<noteq> [] \<and>
        ((fst k, BoundCollectorGroupRef (Status b)) \<notin> lost_cgs g \<longrightarrow>
           cl_cgs c (fst k, BoundCollectorGroupRef (Status b)) \<noteq> None))"

definition fleet_except :: "blame \<Rightarrow> cluster \<Rightarrow> bool" where
  "fleet_except g c \<longleftrightarrow> counters_on (kept_pcs g) (kept_cgs g) c \<and> few_bindings c \<and>
     (\<forall>k b. cl_cgbs c k = Some b \<longrightarrow> fst k \<notin> tampered g \<longrightarrow> binding_except g c k b)"

lemma fleet_ok_except: "fleet_ok c \<longleftrightarrow> fleet_except no_blame c"
  by (auto simp: fleet_ok_def fleet_except_def counters_ok_on kept_pcs_def kept_cgs_def no_blame_def binding_ok_def
    binding_except_def)

lemma fleet_exceptD:
  assumes "fleet_except g c"
  shows "counters_on (kept_pcs g) (kept_cgs g) c" "few_bindings c" "finite (dom (cl_cgbs c))"
    "cl_cgbs c k = Some b \<Longrightarrow> fst k \<notin> tampered g \<Longrightarrow> binding_except g c k b"
  using assms counters_onD(1) unfolding fleet_except_def by blast+

lemma binding_except_cong:
  assumes "\<And>n. cl_pcs c' (fst k, n) = None \<longleftrightarrow> cl_pcs c (fst k, n) = None"
    and "\<And>n. cl_cgs c' (fst k, n) = None \<longleftrightarrow> cl_cgs c (fst k, n) = None"
  shows "binding_except g c' k b = binding_except g c k b"
  using assms by (simp add: binding_except_def)

text \<open>One binding changes or goes, and the referenced resources stay.\<close>

lemma fleet_except_binding:
  assumes ok: "fleet_except g c" and stored: "cl_cgbs c k \<noteq> None"
    and counters: "counters_on (kept_pcs g) (kept_cgs g) c'"
    and cgbs: "cl_cgbs c' = (cl_cgbs c)(k := x)"
    and pcs: "\<And>k. cl_pcs c' k = None \<longleftrightarrow> cl_pcs c k = None"
    and cgs: "\<And>k. cl_cgs c' k = None \<longleftrightarrow> cl_cgs c k = None"
    and new: "\<And>b'. x = Some b' \<Longrightarrow> fst k \<notin> tampered g \<Longrightarrow> binding_except g c k b'"
  shows "fleet_except g c'"
proof -
  have "dom (cl_cgbs c') \<subseteq> dom (cl_cgbs c)" using stored by (auto simp: cgbs split: if_splits)
  with fleet_exceptD(2,3) [OF ok] have "few_bindings c'"
    unfolding few_bindings_def using card_mono le_less_trans by blast
  moreover have "binding_except g c' k b = binding_except g c k b" for k b
    by (rule binding_except_cong) (rule pcs cgs)+
  ultimately show ?thesis
    using counters new fleet_exceptD(4) [OF ok] by (auto simp: fleet_except_def cgbs split: if_splits)
qed

text \<open>A referenced resource changes without a change of its counter, or goes.\<close>

lemma fleet_except_drop_pc:
  assumes ok: "fleet_except g c"
    and x: "\<forall>pc'. x = Some pc' \<longrightarrow> (\<exists>pc. cl_pcs c (ns, n) = Some pc \<and>
      pc_ActiveBindings (Status pc') = pc_ActiveBindings (Status pc))"
    and unbound: "x = None \<Longrightarrow> cl_pcs c (ns, n) \<noteq> None \<Longrightarrow> (ns, n) \<in> kept_pcs g \<Longrightarrow>
      bound_keys BoundPipelineConfigRef (cl_cgbs c) ns n = {}"
  shows "fleet_except g (c\<lparr>cl_pcs := (cl_pcs c)((ns, n) := x)\<rparr>)"
proof -
  have "binding_except g (c\<lparr>cl_pcs := (cl_pcs c)((ns, n) := x)\<rparr>) k b"
    if b: "cl_cgbs c k = Some b" "fst k \<notin> tampered g" for k b
  proof -
    note kept = fleet_exceptD(4) [OF ok b]
    have "x \<noteq> None" if here: "(fst k, BoundPipelineConfigRef (Status b)) = (ns, n)" "n \<noteq> ''''" "(ns, n) \<notin> lost_pcs g"
    proof
      assume "x = None"
      moreover have "cl_pcs c (ns, n) \<noteq> None" using kept here by (auto simp: binding_except_def)
      moreover have "(ns, n) \<in> kept_pcs g" using here b(2) by (auto simp: kept_pcs_def)
      moreover have "k \<in> bound_keys BoundPipelineConfigRef (cl_cgbs c) ns n"
        using b(1) here by (simp add: bound_keys_def)
      ultimately show False using unbound by blast
    qed
    with kept show ?thesis by (auto simp: binding_except_def)
  qed
  with counters_on_replace(1) [OF fleet_exceptD(1) [OF ok] x] fleet_exceptD(2) [OF ok] show ?thesis
    by (simp add: fleet_except_def few_bindings_def)
qed

lemma fleet_except_drop_cg:
  assumes ok: "fleet_except g c"
    and x: "\<forall>cg'. x = Some cg' \<longrightarrow> (\<exists>cg. cl_cgs c (ns, n) = Some cg \<and>
      cg_ActiveBindings (Status cg') = cg_ActiveBindings (Status cg))"
    and unbound: "x = None \<Longrightarrow> cl_cgs c (ns, n) \<noteq> None \<Longrightarrow> (ns, n) \<in> kept_cgs g \<Longrightarrow>
      bound_keys BoundCollectorGroupRef (cl_cgbs c) ns n = {}"
  shows "fleet_except g (c\<lparr>cl_cgs := (cl_cgs c)((ns, n) := x)\<rparr>)"
proof -
  have "binding_except g (c\<lparr>cl_cgs := (cl_cgs c)((ns, n) := x)\<rparr>) k b"
    if b: "cl_cgbs c k = Some b" "fst k \<notin> tampered g" for k b
  proof -
    note kept = fleet_exceptD(4) [OF ok b]
    have "x \<noteq> None" if here: "(fst k, BoundCollectorGroupRef (Status b)) = (ns, n)" "n \<noteq> ''''" "(ns, n) \<notin> lost_cgs g"
    proof
      assume "x = None"
      moreover have "cl_cgs c (ns, n) \<noteq> None" using kept here by (auto simp: binding_except_def)
      moreover have "(ns, n) \<in> kept_cgs g" using here b(2) by (auto simp: kept_cgs_def)
      moreover have "k \<in> bound_keys BoundCollectorGroupRef (cl_cgbs c) ns n"
        using b(1) here by (simp add: bound_keys_def)
      ultimately show False using unbound by blast
    qed
    with kept show ?thesis by (auto simp: binding_except_def)
  qed
  with counters_on_replace(2) [OF fleet_exceptD(1) [OF ok] x] fleet_exceptD(2) [OF ok] show ?thesis
    by (simp add: fleet_except_def few_bindings_def)
qed

section \<open>The operator keeps the invariant\<close>

lemma tenants_apart_refs:
  "tenants_apart b' b \<Longrightarrow>
     BoundPipelineConfigRef (Status b') = BoundPipelineConfigRef (Status b) \<and>
     BoundCollectorGroupRef (Status b') = BoundCollectorGroupRef (Status b) \<and>
     Finalizers (Meta b') = Finalizers (Meta b)"
  by (cases "Status b"; cases "Status b'"; auto simp: tenants_apart_def dest: same_objectD)

lemma fleet_except_tenants:
  assumes ok: "fleet_except g c" and only: "only_tenants c' c"
  shows "fleet_except g c'"
proof -
  have eq: "cl_pcs c' = cl_pcs c" "cl_cgs c' = cl_cgs c"
    and rel: "rel_option tenants_apart (cl_cgbs c' k) (cl_cgbs c k)" for k
    using only unfolding only_tenants_def by blast+
  have dom: "dom (cl_cgbs c') = dom (cl_cgbs c)"
  proof (rule set_eqI)
    fix k show "k \<in> dom (cl_cgbs c') \<longleftrightarrow> k \<in> dom (cl_cgbs c)"
      using rel [of k] by (cases rule: option.rel_cases) auto
  qed
  have was: "\<exists>b. cl_cgbs c k = Some b \<and> tenants_apart b' b" if "cl_cgbs c' k = Some b'" for k b'
    using rel [of k] that by (cases rule: option.rel_cases) auto
  have keys: "bound_keys ref (cl_cgbs c') ns n = bound_keys ref (cl_cgbs c) ns n"
    if "\<And>b' b. tenants_apart b' b \<Longrightarrow> ref (Status b') = ref (Status b)" for ref ns n
  proof (rule set_eqI)
    fix k show "k \<in> bound_keys ref (cl_cgbs c') ns n \<longleftrightarrow> k \<in> bound_keys ref (cl_cgbs c) ns n"
      using rel [of k] by (cases rule: option.rel_cases) (auto simp: bound_keys_def that)
  qed
  have "counters_on (kept_pcs g) (kept_cgs g) c'" using fleet_exceptD(1) [OF ok]
    by (simp add: counters_on_def eq dom keys tenants_apart_refs)
  moreover have "binding_except g c' k b'" if "cl_cgbs c' k = Some b'" "fst k \<notin> tampered g" for k b'
  proof -
    from was [OF that(1)] obtain b where b: "cl_cgbs c k = Some b" "tenants_apart b' b" by blast
    with fleet_exceptD(4) [OF ok b(1) that(2)] show ?thesis
      by (simp add: binding_except_def eq tenants_apart_refs [OF b(2)])
  qed
  ultimately show ?thesis
    using fleet_exceptD(2) [OF ok] by (simp add: fleet_except_def few_bindings_def dom)
qed

lemma fleet_except_resources: "same_resources c c' \<Longrightarrow> fleet_except g c = fleet_except g c'"
  by (simp add: same_resources_def fleet_except_def counters_on_def few_bindings_def binding_except_def)

lemma fleet_except_rpc:
  "fleet_except g c \<Longrightarrow> \<exists>c1. only_tenants c1 c \<and> same_resources c' c1 \<Longrightarrow> fleet_except g c'"
  using fleet_except_tenants fleet_except_resources by blast

lemma keeps_bound_except:
  "keeps_bound c (fst k) b b' \<Longrightarrow> binding_except g c k b \<Longrightarrow> binding_except g c k b'"
  unfolding keeps_bound_def binding_except_def by auto

context kube_world
begin

lemma Binding_Reconcile_except:
  assumes ok: "fleet_except g (abs s)"
  shows "fleet_except g (abs (state_after (Binding_Reconcile w r req) s))"
proof -
  let ?k = "(req_Namespace req, req_Name req)" and ?s' = "state_after (Binding_Reconcile w r req) s"
  have own: "binding_except g (abs s) ?k b" if "cl_cgbs (abs s) ?k = Some b" "fst ?k \<notin> tampered g" for b
    by (rule fleet_exceptD(4) [OF ok that])
  have "(\<forall>k \<in> kept_pcs g \<union> kept_cgs g. fst k \<noteq> req_Namespace req) \<or>
      (\<forall>b. cl_cgbs (abs s) ?k = Some b \<longrightarrow> \<not> IsZero (DeletionTimestamp (Meta b)) \<longrightarrow>
        set (Finalizers (Meta b)) \<subseteq> {CollectorGroupBindingFinalizer})"
    using own by (cases "req_Namespace req \<in> tampered g") (auto simp: kept_pcs_def kept_cgs_def binding_except_def)
  from Binding_Reconcile_counters_on [OF fleet_exceptD(1) [OF ok] this]
  have counters: "counters_on (kept_pcs g) (kept_cgs g) (abs ?s')" .
  show ?thesis
    using counters_onD(2) [OF fleet_exceptD(1) [OF ok]] refl refl
  proof (cases rule: Binding_Reconcile_step [of s _ req _ r])
    case gone
    with ok show ?thesis by simp
  next
    case (moved b x rp rg pcs' cgs' l)
    have "binding_except g (abs s) ?k b'" if "x = Some b'" "fst ?k \<notin> tampered g" for b'
      using own [OF moved(1) that(2)] moved(6) that(1) keeps_bound_except [of "abs s" ?k b b' g]
      by (auto simp: binding_except_def)
    then show ?thesis
      by (intro fleet_except_binding [OF ok _ counters, of ?k x])
        (simp_all add: moved(1,2) shiftedD(1) [OF moved(3)] shiftedD(1) [OF moved(4)])
  qed
qed

lemma Binding_Reconcile_fleet:
  "fleet_ok (abs s) \<Longrightarrow> fleet_ok (abs (state_after (Binding_Reconcile w r req) s))"
  unfolding fleet_ok_except by (rule Binding_Reconcile_except)

lemma PipelineConfig_Reconcile_except:
  assumes ok: "fleet_except g (abs s)"
  shows "fleet_except g (abs (state_after (PipelineConfig_Reconcile w req) s))"
proof -
  let ?s' = "state_after (PipelineConfig_Reconcile w req) s" and ?k = "(req_Namespace req, req_Name req)"
  obtain x where
    *: "abs ?s' = (abs s)\<lparr>cl_pcs := (cl_pcs (abs s))(?k := x)\<rparr>" and
    **: "\<forall>pc'. x = Some pc' \<longrightarrow> (\<exists>pc. cl_pcs (abs s) ?k = Some pc \<and>
      pc_ActiveBindings (Status pc') = pc_ActiveBindings (Status pc))"
    using PipelineConfig_Reconcile_frame [of req s] by - (elim exE conjE, rule that, assumption+)
  show ?thesis
    unfolding *
  proof (rule fleet_except_drop_pc [OF ok **])
    assume "x = None" "cl_pcs (abs s) ?k \<noteq> None" "?k \<in> kept_pcs g"
    with * show "bound_keys BoundPipelineConfigRef (cl_cgbs (abs s)) (req_Namespace req) (req_Name req) = {}"
      by (intro PipelineConfig_Reconcile_safe [OF fleet_exceptD(1,2) [OF ok], of _ _ req]) simp_all
  qed
qed

lemma CollectorGroup_Reconcile_except:
  assumes ok: "fleet_except g (abs s)"
  shows "fleet_except g (abs (state_after (CollectorGroup_Reconcile w req) s))"
proof -
  let ?s' = "state_after (CollectorGroup_Reconcile w req) s" and ?k = "(req_Namespace req, req_Name req)"
  obtain x where
    *: "abs ?s' = (abs s)\<lparr>cl_cgs := (cl_cgs (abs s))(?k := x)\<rparr>" and
    **: "\<forall>cg'. x = Some cg' \<longrightarrow> (\<exists>cg. cl_cgs (abs s) ?k = Some cg \<and>
      cg_ActiveBindings (Status cg') = cg_ActiveBindings (Status cg))"
    using CollectorGroup_Reconcile_frame [of req s] by - (elim exE conjE, rule that, assumption+)
  show ?thesis
    unfolding *
  proof (rule fleet_except_drop_cg [OF ok **])
    assume "x = None" "cl_cgs (abs s) ?k \<noteq> None" "?k \<in> kept_cgs g"
    with * show "bound_keys BoundCollectorGroupRef (cl_cgbs (abs s)) (req_Namespace req) (req_Name req) = {}"
      by (intro CollectorGroup_Reconcile_safe [OF fleet_exceptD(1,2) [OF ok], of _ _ req]) simp_all
  qed
qed

end

context optimistic_locking
begin

lemma perform_except:
  assumes ok: "fleet_except g (abs s)" and cache: "cache_ok abs act s"
  shows "fleet_except g (abs (perform w act s))"
proof (cases act)
  case (ReconcileBinding r req)
  with Binding_Reconcile_except [OF ok] show ?thesis by simp
next
  case (ReconcilePipelineConfig lag req)
  with cache have "coherent cl_pcs (abs (lag s)) (abs s)" by simp
  from stale_PipelineConfig_Reconcile [of lag s, OF this, of req]
    kube_world.PipelineConfig_Reconcile_except [OF current_world ok, of req] ok
  show ?thesis using ReconcilePipelineConfig by auto
next
  case (ReconcileCollectorGroup lag req)
  with cache have "coherent cl_cgs (abs (lag s)) (abs s)" by simp
  from stale_CollectorGroup_Reconcile [of lag s, OF this, of req]
    kube_world.CollectorGroup_Reconcile_except [OF current_world ok, of req] ok
  show ?thesis using ReconcileCollectorGroup by auto
next
  case (GetConfigRPC lag codeString procedure ns msg)
  with fleet_except_rpc [OF ok lagging_endpoints(1)] show ?thesis by simp
next
  case (RegisterRPC lag codeString procedure ns msg)
  with fleet_except_rpc [OF ok lagging_endpoints(2)] show ?thesis by simp
next
  case (UnregisterRPC lag codeString procedure ns collectorID)
  with fleet_except_rpc [OF ok lagging_endpoints(3)] show ?thesis by simp
next
  case (Scrape range_order rc)
  have "abs (state_after (Collect range_order w rc) s) = abs s"
    by (rule Collect_gauges [OF refl]) (assumption)
  with ok Scrape show ?thesis by simp
qed

end

section \<open>Users keep the invariant\<close>

text \<open>More blame, less to keep.\<close>

lemma fleet_except_mono:
  assumes ok: "fleet_except g c" and "lost_pcs g \<subseteq> lost_pcs g'" "lost_cgs g \<subseteq> lost_cgs g'" "tampered g \<subseteq> tampered g'"
  shows "fleet_except g' c"
proof -
  have "kept_pcs g' \<subseteq> kept_pcs g" "kept_cgs g' \<subseteq> kept_cgs g"
    using assms(2-) by (auto simp: kept_pcs_def kept_cgs_def)
  then have "counters_on (kept_pcs g') (kept_cgs g') c"
    using fleet_exceptD(1) [OF ok] unfolding counters_on_def by blast
  moreover have "binding_except g' c k b" if "cl_cgbs c k = Some b" "fst k \<notin> tampered g'" for k b
    using fleet_exceptD(4) [OF ok that(1)] that(2) assms(2-) by (auto simp: binding_except_def)
  ultimately show ?thesis using fleet_exceptD(2) [OF ok] by (simp add: fleet_except_def)
qed

lemma fleet_except_create_binding:
  assumes ok: "fleet_except g c" and "cl_cgbs c k = None" "fresh_binding b" "Suc (card (dom (cl_cgbs c))) < 2 ^ 63"
  shows "fleet_except g (with_cgb k b c)"
proof -
  have "counters_on (kept_pcs g) (kept_cgs g) (with_cgb k b c)"
    using assms by (intro counters_on_same_refs [OF fleet_exceptD(1) [OF ok]]) (simp_all add: fresh_binding_def)
  moreover have "binding_except g (with_cgb k b c) k' b'"
    if "cl_cgbs (with_cgb k b c) k' = Some b'" "fst k' \<notin> tampered g" for k' b'
    using that fleet_exceptD(4) [OF ok, of k'] assms(3)
    by (auto simp: binding_except_def fresh_binding_def split: if_splits)
  moreover have "few_bindings (with_cgb k b c)"
    using assms(2,4) fleet_exceptD(3) [OF ok] by (simp add: few_bindings_def card_insert_if)
  ultimately show ?thesis by (simp add: fleet_except_def)
qed

lemma fleet_except_edit_binding:
  assumes ok: "fleet_except g c" and stored: "cl_cgbs c k = Some b"
    and "Status b' = Status b" "Finalizers (Meta b') = Finalizers (Meta b)"
  shows "fleet_except g (with_cgb k b' c)"
proof -
  have "counters_on (kept_pcs g) (kept_cgs g) (with_cgb k b' c)"
    using stored assms(3) by (intro counters_on_same_refs [OF fleet_exceptD(1) [OF ok]]) simp_all
  moreover have "binding_except g c k b'" if "fst k \<notin> tampered g"
    using fleet_exceptD(4) [OF ok stored that] assms(3,4) by (simp add: binding_except_def)
  ultimately show ?thesis
    by (intro fleet_except_binding [OF ok, of k _ "Some b'"]) (simp_all add: stored)
qed

text \<open>
  A binding without finalizers is not bound, unless its namespace was tampered with; then no counter of
  the namespace is promised.
\<close>

lemma fleet_except_remove_binding:
  assumes ok: "fleet_except g c" and stored: "cl_cgbs c k = Some b" and "Finalizers (Meta b) = []"
  shows "fleet_except g (c\<lparr>cl_cgbs := (cl_cgbs c)(k := None)\<rparr>)"
proof -
  obtain ns nm where k: "k = (ns, nm)" by (cases k)
  have "ref_delta ns (ref_of ref (cl_cgbs c (ns, nm))) (ref_of ref None) k' = 0"
    if "fst k' \<notin> tampered g" "ref \<in> {BoundPipelineConfigRef, BoundCollectorGroupRef}" for k' ref
  proof (cases "fst k' = ns")
    case True
    with fleet_exceptD(4) [OF ok stored] that(1) assms(3) k
    have "BoundPipelineConfigRef (Status b) = ''''" "BoundCollectorGroupRef (Status b) = ''''"
      by (auto simp: binding_except_def)
    with that(2) stored k show ?thesis by auto
  qed (simp add: ref_delta_elsewhere)
  then have "counters_on (kept_pcs g) (kept_cgs g) (c\<lparr>cl_pcs := cl_pcs c, cl_cgs := cl_cgs c,
      cl_cgbs := (cl_cgbs c)((ns, nm) := None), cl_metrics := cl_metrics c\<rparr>)"
    by (intro counters_on_move [OF fleet_exceptD(1) [OF ok] shifted_refl_pc _ shifted_refl_cg])
      (simp_all add: kept_pcs_def kept_cgs_def)
  then show ?thesis
    using stored by (intro fleet_except_binding [OF ok, of k _ None]) (simp_all add: k)
qed

text \<open>Nothing is bound to a resource that does not exist, so a new one starts with an exact counter.\<close>

lemma nothing_bound:
  assumes ok: "fleet_except g c" and "n \<noteq> ''''"
  shows "(ns, n) \<in> kept_pcs g \<Longrightarrow> cl_pcs c (ns, n) = None \<Longrightarrow>
      bound_keys BoundPipelineConfigRef (cl_cgbs c) ns n = {}"
    and "(ns, n) \<in> kept_cgs g \<Longrightarrow> cl_cgs c (ns, n) = None \<Longrightarrow>
      bound_keys BoundCollectorGroupRef (cl_cgbs c) ns n = {}"
proof -
  have refs: "BoundPipelineConfigRef (Status b) = n \<Longrightarrow> (fst k, n) \<notin> lost_pcs g \<Longrightarrow> cl_pcs c (fst k, n) \<noteq> None"
    "BoundCollectorGroupRef (Status b) = n \<Longrightarrow> (fst k, n) \<notin> lost_cgs g \<Longrightarrow> cl_cgs c (fst k, n) \<noteq> None"
    if "cl_cgbs c k = Some b" "fst k \<notin> tampered g" for k b
    using fleet_exceptD(4) [OF ok that] assms(2) by (auto simp: binding_except_def)
  show "(ns, n) \<in> kept_pcs g \<Longrightarrow> cl_pcs c (ns, n) = None \<Longrightarrow>
      bound_keys BoundPipelineConfigRef (cl_cgbs c) ns n = {}"
    and "(ns, n) \<in> kept_cgs g \<Longrightarrow> cl_cgs c (ns, n) = None \<Longrightarrow>
      bound_keys BoundCollectorGroupRef (cl_cgbs c) ns n = {}"
    unfolding bound_keys_def kept_pcs_def kept_cgs_def using refs by fastforce+
qed

lemma fleet_except_create:
  assumes ok: "fleet_except g c" and n: "n \<noteq> ''''"
  shows "cl_pcs c (ns, n) = None \<Longrightarrow> pc_ActiveBindings (Status pc) = 0 \<Longrightarrow> fleet_except g (with_pc (ns, n) pc c)"
    and "cl_cgs c (ns, n) = None \<Longrightarrow> cg_ActiveBindings (Status cg) = 0 \<Longrightarrow> fleet_except g (with_cg (ns, n) cg c)"
proof -
  have kept: "binding_except g c k b \<Longrightarrow> binding_except g (with_pc k' pc c) k b"
    "binding_except g c k b \<Longrightarrow> binding_except g (with_cg k' cg c) k b"
    for k k' b by (auto simp: binding_except_def)
  show "cl_pcs c (ns, n) = None \<Longrightarrow> pc_ActiveBindings (Status pc) = 0 \<Longrightarrow> fleet_except g (with_pc (ns, n) pc c)"
    using fleet_exceptD [OF ok] n nothing_bound(1) [OF ok n, of ns] kept(1)
    by (simp add: fleet_except_def counters_on_def few_bindings_def)
  show "cl_cgs c (ns, n) = None \<Longrightarrow> cg_ActiveBindings (Status cg) = 0 \<Longrightarrow> fleet_except g (with_cg (ns, n) cg c)"
    using fleet_exceptD [OF ok] n nothing_bound(2) [OF ok n, of ns] kept(2)
    by (simp add: fleet_except_def counters_on_def few_bindings_def)
qed

lemma fleet_except_remove_pc:
  assumes ok: "fleet_except g c"
    and g': "g' = (if bound_keys BoundPipelineConfigRef (cl_cgbs c) ns n = {} then g
      else g\<lparr>lost_pcs := insert (ns, n) (lost_pcs g)\<rparr>)"
  shows "fleet_except g' (c\<lparr>cl_pcs := (cl_pcs c)((ns, n) := None)\<rparr>)"
proof (rule fleet_except_drop_pc)
  show "fleet_except g' c" by (rule fleet_except_mono [OF ok]) (auto simp: g')
  show "bound_keys BoundPipelineConfigRef (cl_cgbs c) ns n = {}" if "(ns, n) \<in> kept_pcs g'"
    using that by (simp add: g' kept_pcs_def split: if_splits)
qed simp

lemma fleet_except_remove_cg:
  assumes ok: "fleet_except g c"
    and g': "g' = (if bound_keys BoundCollectorGroupRef (cl_cgbs c) ns n = {} then g
      else g\<lparr>lost_cgs := insert (ns, n) (lost_cgs g)\<rparr>)"
  shows "fleet_except g' (c\<lparr>cl_cgs := (cl_cgs c)((ns, n) := None)\<rparr>)"
proof (rule fleet_except_drop_cg)
  show "fleet_except g' c" by (rule fleet_except_mono [OF ok]) (auto simp: g')
  show "bound_keys BoundCollectorGroupRef (cl_cgbs c) ns n = {}" if "(ns, n) \<in> kept_cgs g'"
    using that by (simp add: g' kept_cgs_def split: if_splits)
qed simp

lemma bound_keys_elsewhere:
  "same_elsewhere ns c c' \<Longrightarrow> ns' \<noteq> ns \<Longrightarrow> bound_keys ref (cl_cgbs c') ns' n = bound_keys ref (cl_cgbs c) ns' n"
  by (auto simp: bound_keys_def same_elsewhere_def)

lemma fleet_except_tamper:
  assumes ok: "fleet_except g c" and same: "same_elsewhere ns c c'" and fine: "plausible c'"
  shows "fleet_except (g\<lparr>tampered := insert ns (tampered g)\<rparr>) c'" (is "fleet_except ?g _")
proof -
  have "fleet_except ?g c" by (rule fleet_except_mono [OF ok]) auto
  note ok' = fleet_exceptD [OF this]
  have away: "fst k \<notin> tampered ?g \<Longrightarrow> cl_pcs c' k = cl_pcs c k \<and> cl_cgs c' k = cl_cgs c k \<and> cl_cgbs c' k = cl_cgbs c k" for k
    using same by (cases k) (simp add: same_elsewhere_def)
  have keys: "ns' \<noteq> ns \<Longrightarrow> bound_keys ref (cl_cgbs c') ns' n = bound_keys ref (cl_cgbs c) ns' n" for ref ns' n
    by (rule bound_keys_elsewhere [OF same])
  have "counters_on (kept_pcs ?g) (kept_cgs ?g) c'"
    using counters_onD(4,5) [OF ok'(1)] away keys fine
    by (auto simp: counters_on_def plausible_def kept_pcs_def kept_cgs_def)
  moreover have "binding_except ?g c' k b" if "cl_cgbs c' k = Some b" "fst k \<notin> tampered ?g" for k b
  proof -
    have "binding_except ?g c k b" using ok'(4) that away by metis
    moreover have "cl_pcs c' (fst k, n) = cl_pcs c (fst k, n)" "cl_cgs c' (fst k, n) = cl_cgs c (fst k, n)" for n
      using away [of "(fst k, n)"] that(2) by simp_all
    ultimately show ?thesis by (simp add: binding_except_cong [of c' k c])
  qed
  ultimately show ?thesis using fine by (simp add: fleet_except_def plausible_def)
qed

lemma user_edit_except: "user_edit g c g' c' \<Longrightarrow> fleet_except g c \<Longrightarrow> fleet_except g' c'"
proof (induction rule: user_edit.induct)
  case (create_binding c k b g)
  then show ?case by (simp add: fleet_except_create_binding)
next
  case (edit_binding c k b b' g)
  then show ?case by (simp add: fleet_except_edit_binding)
next
  case (remove_binding c k b g)
  then show ?case by (simp add: fleet_except_remove_binding)
next
  case (create_pc c ns n pc g)
  then show ?case by (simp add: fleet_except_create(1))
next
  case (edit_pc c k pc pc' g)
  then show ?case using fleet_except_drop_pc [of g c "Some pc'" "fst k" "snd k"] by simp
next
  case (remove_pc g c ns n)
  then show ?case by (rule fleet_except_remove_pc [OF _ refl])
next
  case (create_cg c ns n cg g)
  then show ?case by (simp add: fleet_except_create(2))
next
  case (edit_cg c k cg cg' g)
  then show ?case using fleet_except_drop_cg [of g c "Some cg'" "fst k" "snd k"] by simp
next
  case (remove_cg g c ns n)
  then show ?case by (rule fleet_except_remove_cg [OF _ refl])
next
  case (tamper ns c c' g)
  then show ?case by (simp add: fleet_except_tamper)
qed

lemma fleet_except_empty:
  "cl_pcs c = Map.empty \<Longrightarrow> cl_cgs c = Map.empty \<Longrightarrow> cl_cgbs c = Map.empty \<Longrightarrow> fleet_except g c"
  by (simp add: fleet_except_def counters_on_def few_bindings_def)

context optimistic_locking
begin

lemma reachable_except: "reachable_state w abs g s \<Longrightarrow> fleet_except g (abs s)"
proof (induction rule: reachable_state.induct)
  case (start s)
  then show ?case by (rule fleet_except_empty)
next
  case (operator_acts g s act)
  then show ?case by (simp add: perform_except)
next
  case (user_acts g s g' s')
  then show ?case by (simp add: user_edit_except)
qed

end

section \<open>Properties\<close>

text \<open>
  C1: In every state the operator and its users can reach from an empty cluster, in whatever order
  reconciles, RPCs and edits are interleaved and however the caches lag that serve the RPCs and the
  reconciles of PipelineConfigs and CollectorGroups, the \<open>activeBindings\<close> counter of every PipelineConfig
  and CollectorGroup is the number of bindings bound to it, every reference a binding is bound to
  exists, and every bound binding carries the finalizer through which it will be released, except: the
  counter and the existence of a resource that a user removed while a binding was bound to it (\<open>lost\<close>),
  and everything in a namespace in which somebody changed a status, the finalizers of a binding or
  anything else that is the operator's (\<open>tampered\<close>). What is disturbed in one namespace never reaches
  another one. A reconcile of a binding is one step that reads what is stored and whose writes
  are accepted; the cluster holds fewer than \<open>2 ^ 63\<close> bindings.
\<close>

theorem reachable_counters_exact:
  assumes "optimistic_locking w view wire version" and "reachable_state w view g s"
  shows "(\<forall>ns n pc. cl_pcs (view s) (ns, n) = Some pc \<longrightarrow> (ns, n) \<notin> lost_pcs g \<longrightarrow> ns \<notin> tampered g \<longrightarrow>
      sint (pc_ActiveBindings (Status pc)) =
        int (card {m. \<exists>b. cl_cgbs (view s) (ns, m) = Some b \<and> BoundPipelineConfigRef (Status b) = n})) \<and>
    (\<forall>ns n cg. cl_cgs (view s) (ns, n) = Some cg \<longrightarrow> (ns, n) \<notin> lost_cgs g \<longrightarrow> ns \<notin> tampered g \<longrightarrow>
      sint (cg_ActiveBindings (Status cg)) =
        int (card {m. \<exists>b. cl_cgbs (view s) (ns, m) = Some b \<and> BoundCollectorGroupRef (Status b) = n})) \<and>
    (\<forall>k b. cl_cgbs (view s) k = Some b \<longrightarrow> fst k \<notin> tampered g \<longrightarrow> binding_except g (view s) k b)"
proof -
  have ok: "fleet_except g (view s)" by (rule optimistic_locking.reachable_except [OF assms])
  have count: "sint (bound_count ref (cl_cgbs (view s)) ns n :: int64) =
      int (card {m. \<exists>b. cl_cgbs (view s) (ns, m) = Some b \<and> ref (Status b) = n})" for ref ns n
  proof -
    have "bound_keys ref (cl_cgbs (view s)) ns n =
        Pair ns ` {m. \<exists>b. cl_cgbs (view s) (ns, m) = Some b \<and> ref (Status b) = n}"
      by (auto simp: bound_keys_def)
    moreover have "card (bound_keys ref (cl_cgbs (view s)) ns n) \<le> card (dom (cl_cgbs (view s)))"
      using fleet_exceptD(3) [OF ok] by (rule card_mono) (auto simp: bound_keys_def)
    ultimately show ?thesis
      using fleet_exceptD(2) [OF ok] by (simp add: few_bindings_def sint_of_nat_small card_image inj_on_def)
  qed
  show ?thesis
    using fleet_exceptD(1,4) [OF ok] count by (simp add: counters_on_def kept_pcs_def kept_cgs_def)
qed

text \<open>
  A run in which a stranger leaves a resource with a wrong counter in another namespace; then a
  configuration and a binding are created and the binding is reconciled twice.
\<close>

definition odd_pc :: PipelineConfig where
  "odd_pc = (sample_pc ''odd'' ''logging'' '''' 7 [] None)
     \<lparr>Meta := (Meta (sample_pc ''odd'' ''logging'' '''' 7 [] None))\<lparr>Namespace := ''other''\<rparr>\<rparr>"

definition sample_run :: "mem list" where
  "sample_run =
     (let pc = sample_pc ''base'' ''logging'' '''' 0 [] None;
          b = sample_binding ''bt'' '''' ''t1'' ''base'' '''' '''' [] [] None;
          act = ReconcileBinding \<lparr>CollectorTTL = 0, MetricsEnabled = False\<rparr> (sample_req ''bt'');
          s3 = sample [pc, odd_pc] [] [b];
          s4 = perform mem_world act s3
      in [sample [] [] [], sample [odd_pc] [] [], sample [pc, odd_pc] [] [], s3, s4, perform mem_world act s4])"

definition sample_blame :: blame where
  "sample_blame = no_blame\<lparr>tampered := {''other''}\<rparr>"

lemma sample_run_reachable: "reachable_state mem_world mem_abs sample_blame (sample_run ! 5)"
proof -
  let ?pc = "sample_pc ''base'' ''logging'' '''' 0 [] None"
  let ?b = "sample_binding ''bt'' '''' ''t1'' ''base'' '''' '''' [] [] None"
  have s0: "reachable_state mem_world mem_abs no_blame (sample [] [] [])" by (rule reachable_state.start) simp_all
  have "user_edit no_blame (mem_abs (sample [] [] [])) sample_blame (mem_abs (sample [odd_pc] [] []))"
    using user_edit.tamper [of "''other''" "mem_abs (sample [] [] [])" "mem_abs (sample [odd_pc] [] [])" no_blame]
    by (simp add: same_elsewhere_def plausible_def few_bindings_def sample_blame_def no_blame_def odd_pc_def
      key_of_def)
  with s0 have s1: "reachable_state mem_world mem_abs sample_blame (sample [odd_pc] [] [])"
    by (rule reachable_state.user_acts)
  have "user_edit g (mem_abs (sample [odd_pc] [] [])) g (mem_abs (sample [?pc, odd_pc] [] []))" for g
    using user_edit.create_pc [of "mem_abs (sample [odd_pc] [] [])" "''ns''" "''base''" ?pc]
    by (simp add: mem_abs_def sample_def odd_pc_def key_of_def)
  with s1 have s2: "reachable_state mem_world mem_abs sample_blame (sample [?pc, odd_pc] [] [])"
    by (rule reachable_state.user_acts)
  have "user_edit g (mem_abs (sample [?pc, odd_pc] [] [])) g (mem_abs (sample [?pc, odd_pc] [] [?b]))" for g
    using user_edit.create_binding [of "mem_abs (sample [?pc, odd_pc] [] [])" "(''ns'', ''bt'')" ?b]
    by (simp add: mem_abs_def sample_def fresh_binding_def)
  with s2 have "reachable_state mem_world mem_abs sample_blame (sample [?pc, odd_pc] [] [?b])"
    by (rule reachable_state.user_acts)
  then show ?thesis by (simp add: sample_run_def Let_def reachable_state.operator_acts del: perform.simps)
qed

theorem reachable_counters_exact_witness:
  "\<exists>pc. cl_pcs (mem_abs (sample_run ! 5)) (''ns'', ''base'') = Some pc \<and>
     sint (pc_ActiveBindings (Status pc)) =
       int (card {m. \<exists>b. cl_cgbs (mem_abs (sample_run ! 5)) (''ns'', m) = Some b \<and>
         BoundPipelineConfigRef (Status b) = ''base''})"
proof -
  have "cl_pcs (mem_abs (sample_run ! 5)) (''ns'', ''base'') \<noteq> None" by code_simp
  with reachable_counters_exact [OF optimistic_locking_mem sample_run_reachable] show ?thesis
    by (auto simp: sample_blame_def no_blame_def)
qed

end
