(* ===== verification/Lifecycle.thy ===== *)
theory Lifecycle
  imports Fleet_System
begin

text \<open>
  What the controllers achieve over several reconciles: a new binding becomes active and stays settled,
  and a deletion that is blocked by bindings completes once the bindings are deleted, so the guards
  and finalizers never deadlock.
\<close>

section \<open>Definitions\<close>

text \<open>The reconciles of a list of bindings of one namespace, in order.\<close>

definition reconcile_bindings ::
  "('s, 'e) world \<Rightarrow> BindingReconciler \<Rightarrow> string \<Rightarrow> string list \<Rightarrow> 's \<Rightarrow> 's" where
  "reconcile_bindings w r ns names s =
     fold (\<lambda>m. state_after (Binding_Reconcile w r \<lparr>req_Namespace = ns, req_Name = m\<rparr>)) names s"

definition deleting :: "('a, 'b) resource \<Rightarrow> bool" where
  "deleting obj \<longleftrightarrow> \<not> IsZero (DeletionTimestamp (Meta obj))"

section \<open>Lemmas\<close>

text \<open>Resources that differ in their counters at most.\<close>

definition recounted :: "(object_key \<rightharpoonup> ('a, 'b) resource) \<Rightarrow> (object_key \<rightharpoonup> ('a, 'b) resource) \<Rightarrow> bool" where
  "recounted m' m \<longleftrightarrow> (\<forall>k. rel_option same_object (m' k) (m k))"

lemma recounted_refl [simp]: "recounted m m"
  by (simp add: recounted_def same_object_def option.rel_refl)

lemma recounted_trans: "recounted m2 m1 \<Longrightarrow> recounted m1 m \<Longrightarrow> recounted m2 m"
  unfolding recounted_def
  by (metis (no_types, lifting) option.rel_cases option.rel_inject(2) option.rel_intros(1) same_object_trans
    option.rel_sel option.distinct(1))

lemma shifted_recounted: "shifted upd d m m' \<Longrightarrow> recounted m' m"
  unfolding recounted_def
proof
  fix k assume sh: "shifted upd d m m'"
  show "rel_option same_object (m' k) (m k)"
    using shiftedD(1) [OF sh, of k] shiftedD(2) [OF sh, of k] by (cases "m' k"; cases "m k") auto
qed

lemma recountedD: "recounted m' m \<Longrightarrow> m k = Some obj \<Longrightarrow> \<exists>obj'. m' k = Some obj' \<and> same_object obj' obj"
  unfolding recounted_def by (metis option.rel_cases option.distinct(1) option.inject)

context kube_world
begin

text \<open>A pass over bindings under deletion removes them all and touches nothing else but counters.\<close>

lemma reconcile_bindings_removes:
  assumes "fleet_ok (abs s)"
    and "\<And>m b. m \<in> set names \<Longrightarrow> cl_cgbs (abs s) (ns, m) = Some b \<Longrightarrow> deleting b"
    and "s' = reconcile_bindings w r ns names s"
  shows "fleet_ok (abs s') \<and>
    cl_cgbs (abs s') = (cl_cgbs (abs s)) |` (- (Pair ns ` set names)) \<and>
    recounted (cl_pcs (abs s')) (cl_pcs (abs s)) \<and> recounted (cl_cgs (abs s')) (cl_cgs (abs s))"
  using assms
proof (induction names arbitrary: s)
  case Nil
  then show ?case by (simp add: reconcile_bindings_def)
next
  case (Cons m names)
  let ?req = "\<lparr>req_Namespace = ns, req_Name = m\<rparr>"
  define s1 where "s1 = state_after (Binding_Reconcile w r ?req) s"
  have ok1: "fleet_ok (abs s1)" unfolding s1_def by (rule Binding_Reconcile_fleet [OF Cons.prems(1)])
  have s1: "cl_cgbs (abs s1) = (cl_cgbs (abs s))((ns, m) := None) \<and>
      recounted (cl_pcs (abs s1)) (cl_pcs (abs s)) \<and> recounted (cl_cgs (abs s1)) (cl_cgs (abs s))"
  proof (cases "cl_cgbs (abs s) (ns, m)")
    case None
    with reconcile_gone(2) [of s ?req r] show ?thesis by (simp add: s1_def fun_upd_idem)
  next
    case (Some b)
    with Cons.prems(2) [of m b] have del: "\<not> IsZero (DeletionTimestamp (Meta b))" by (simp add: deleting_def)
    have only: "set (Finalizers (Meta b)) \<subseteq> {CollectorGroupBindingFinalizer}"
      using fleet_okD(4) [OF Cons.prems(1) Some] by (simp add: binding_ok_def)
    from reconcile_deletion [of s ?req b r] Some del only obtain pcs' cgs' where
      "abs s1 = (abs s)\<lparr>cl_pcs := pcs', cl_cgs := cgs', cl_cgbs := (cl_cgbs (abs s))((ns, m) := None)\<rparr>"
      "shifted_pc (ref_delta ns (BoundPipelineConfigRef (Status b)) '''') (cl_pcs (abs s)) pcs'"
      "shifted_cg (ref_delta ns (BoundCollectorGroupRef (Status b)) '''') (cl_cgs (abs s)) cgs'"
      by (auto simp: s1_def)
    then show ?thesis by (simp add: shifted_recounted)
  qed
  have "deleting b" if "m' \<in> set names" "cl_cgbs (abs s1) (ns, m') = Some b" for m' b
    using that Cons.prems(2) s1 by (auto split: if_splits)
  moreover have "s' = reconcile_bindings w r ns names s1"
    using Cons.prems(3) by (simp add: reconcile_bindings_def s1_def)
  ultimately have "fleet_ok (abs s') \<and> cl_cgbs (abs s') = (cl_cgbs (abs s1)) |` (- (Pair ns ` set names)) \<and>
      recounted (cl_pcs (abs s')) (cl_pcs (abs s1)) \<and> recounted (cl_cgs (abs s')) (cl_cgs (abs s1))"
    by (intro Cons.IH ok1)
  with s1 show ?case
    by (auto simp: restrict_map_def fun_eq_iff intro: recounted_trans)
qed

lemma released_counter:
  assumes "fleet_ok (abs s)" and "bound_keys BoundPipelineConfigRef (cl_cgbs (abs s)) ns n = {}"
    and "cl_pcs (abs s) (ns, n) = Some pc"
  shows "pc_ActiveBindings (Status pc) = 0"
  using fleet_okD(1) [OF assms(1)] assms(2,3) by (simp add: counters_ok_def)

text \<open>A binding that is bound to what its spec refers to moves no counter.\<close>

lemma shifted_zero:
  assumes "shifted upd (\<lambda>_. 0) m m'" and "\<And>st. upd (\<lambda>n. n) st = st"
  shows "map_option Status (m' k) = map_option Status (m k)"
proof (cases "m' k")
  case None
  with shiftedD(1) [OF assms(1), of k] show ?thesis by simp
next
  case (Some obj')
  with shiftedD(2) [OF assms(1) Some] assms(2) show ?thesis by auto
qed

lemma settled_reconcile:
  assumes stored: "cl_cgbs (abs s) (req_Namespace req, req_Name req) = Some b"
    and live: "IsZero (DeletionTimestamp (Meta b))"
    and finalizer: "CollectorGroupBindingFinalizer \<in> set (Finalizers (Meta b))"
    and config: "cl_pcs (abs s) (req_Namespace req, PipelineConfigRef (Spec b)) = Some pc" "PipelineConfigRef (Spec b) \<noteq> ''''"
    and grp: "CollectorGroupRef (Spec b) \<noteq> '''' \<Longrightarrow>
      cl_cgs (abs s) (req_Namespace req, CollectorGroupRef (Spec b)) \<noteq> None"
    and bound: "BoundPipelineConfigRef (Status b) = PipelineConfigRef (Spec b)"
      "BoundCollectorGroupRef (Status b) = CollectorGroupRef (Spec b)"
    and s': "s' = state_after (Binding_Reconcile w r req) s"
  shows "map_option Status (cl_pcs (abs s') k) = map_option Status (cl_pcs (abs s) k)"
    and "map_option Status (cl_cgs (abs s') k) = map_option Status (cl_cgs (abs s) k)"
proof -
  from reconcile_bound [OF stored live finalizer config grp refl, of r] obtain pcs' cgs' where
    "cl_pcs (abs s') = pcs'" "cl_cgs (abs s') = cgs'"
    "shifted_pc (\<lambda>_. 0) (cl_pcs (abs s)) pcs'" "shifted_cg (\<lambda>_. 0) (cl_cgs (abs s)) cgs'"
    unfolding bound s' ref_delta_same by auto
  then show "map_option Status (cl_pcs (abs s') k) = map_option Status (cl_pcs (abs s) k)"
    and "map_option Status (cl_cgs (abs s') k) = map_option Status (cl_cgs (abs s) k)"
    by (simp_all add: shifted_zero)
qed

text \<open>One reconcile that finds the finalizer in place binds; the references stay resolvable.\<close>

lemma reconcile_binds_once:
  assumes stored: "cl_cgbs (abs s) (req_Namespace req, req_Name req) = Some b"
    and live: "IsZero (DeletionTimestamp (Meta b))"
    and finalizer: "CollectorGroupBindingFinalizer \<in> set (Finalizers (Meta b))"
    and config: "cl_pcs (abs s) (req_Namespace req, PipelineConfigRef (Spec b)) = Some pc" "PipelineConfigRef (Spec b) \<noteq> ''''"
    and grp: "CollectorGroupRef (Spec b) \<noteq> '''' \<Longrightarrow>
      cl_cgs (abs s) (req_Namespace req, CollectorGroupRef (Spec b)) \<noteq> None"
    and s': "s' = state_after (Binding_Reconcile w r req) s"
  obtains b' pc' now where "cl_cgbs (abs s') (req_Namespace req, req_Name req) = Some b'" "reconciled r now b pc b'"
    "cl_pcs (abs s') (req_Namespace req, PipelineConfigRef (Spec b)) = Some pc'"
    "ContentHash (Status pc') = ContentHash (Status pc)"
    "CollectorGroupRef (Spec b) \<noteq> '''' \<longrightarrow> cl_cgs (abs s') (req_Namespace req, CollectorGroupRef (Spec b)) \<noteq> None"
proof -
  from reconcile_bound [OF stored live finalizer config grp refl, of r] obtain b' pcs' cgs' now where *:
    "reconciled r now b pc b'"
    "abs s' = (abs s)\<lparr>cl_pcs := pcs', cl_cgs := cgs',
       cl_cgbs := (cl_cgbs (abs s))((req_Namespace req, req_Name req) \<mapsto> b'),
       cl_metrics := cl_metrics (abs s) @ evicted_log r now b\<rparr>"
    "shifted_pc (ref_delta (req_Namespace req) (BoundPipelineConfigRef (Status b)) (PipelineConfigRef (Spec b)))
      (cl_pcs (abs s)) pcs'"
    "shifted_cg (ref_delta (req_Namespace req) (BoundCollectorGroupRef (Status b)) (CollectorGroupRef (Spec b)))
      (cl_cgs (abs s)) cgs'" unfolding s' by blast
  from shiftedD(1) [OF *(3)] config(1) obtain pc' where
    pc': "pcs' (req_Namespace req, PipelineConfigRef (Spec b)) = Some pc'" by fastforce
  with shiftedD(2) [OF *(3) pc'] config(1) have "ContentHash (Status pc') = ContentHash (Status pc)" by auto
  with * pc' grp shiftedD(1) [OF *(4)] that show ?thesis by simp
qed

lemma two_reconciles_bind:
  assumes stored: "cl_cgbs (abs s) (req_Namespace req, req_Name req) = Some b"
    and live: "IsZero (DeletionTimestamp (Meta b))"
    and config: "cl_pcs (abs s) (req_Namespace req, PipelineConfigRef (Spec b)) = Some pc" "PipelineConfigRef (Spec b) \<noteq> ''''"
    and grp: "CollectorGroupRef (Spec b) \<noteq> '''' \<Longrightarrow>
      cl_cgs (abs s) (req_Namespace req, CollectorGroupRef (Spec b)) \<noteq> None"
    and s': "s' = state_after (Binding_Reconcile w r req \<bind> (\<lambda>_. Binding_Reconcile w r req)) s"
  obtains b1 b' pc1 pc' now where "Spec b1 = Spec b" "ContentHash (Status pc1) = ContentHash (Status pc)"
    "cl_cgbs (abs s') (req_Namespace req, req_Name req) = Some b'" "reconciled r now b1 pc1 b'"
    "IsZero (DeletionTimestamp (Meta b1))" "CollectorGroupBindingFinalizer \<in> set (Finalizers (Meta b1))"
    "cl_pcs (abs s') (req_Namespace req, PipelineConfigRef (Spec b)) = Some pc'"
    "CollectorGroupRef (Spec b) \<noteq> '''' \<longrightarrow> cl_cgs (abs s') (req_Namespace req, CollectorGroupRef (Spec b)) \<noteq> None"
proof -
  define s1 where "s1 = state_after (Binding_Reconcile w r req) s"
  have "\<exists>b1 pc1. cl_cgbs (abs s1) (req_Namespace req, req_Name req) = Some b1 \<and> Spec b1 = Spec b \<and>
    IsZero (DeletionTimestamp (Meta b1)) \<and> CollectorGroupBindingFinalizer \<in> set (Finalizers (Meta b1)) \<and>
    cl_pcs (abs s1) (req_Namespace req, PipelineConfigRef (Spec b)) = Some pc1 \<and>
    ContentHash (Status pc1) = ContentHash (Status pc) \<and>
    (CollectorGroupRef (Spec b) \<noteq> '''' \<longrightarrow> cl_cgs (abs s1) (req_Namespace req, CollectorGroupRef (Spec b)) \<noteq> None)"
  proof (cases "CollectorGroupBindingFinalizer \<in> set (Finalizers (Meta b))")
    case True
    obtain b1 pc1 now where "cl_cgbs (abs s1) (req_Namespace req, req_Name req) = Some b1" "reconciled r now b pc b1"
      "cl_pcs (abs s1) (req_Namespace req, PipelineConfigRef (Spec b)) = Some pc1"
      "ContentHash (Status pc1) = ContentHash (Status pc)"
      "CollectorGroupRef (Spec b) \<noteq> '''' \<longrightarrow> cl_cgs (abs s1) (req_Namespace req, CollectorGroupRef (Spec b)) \<noteq> None"
      by (rule reconcile_binds_once [OF stored live True config grp s1_def])
    moreover from this(2) have "same_object b1 b" by (simp add: reconciled_def)
    ultimately show ?thesis using live True same_objectD [of b1 b] by (intro exI [of _ b1] exI [of _ pc1]) simp
  next
    case False
    from reconcile_first [OF stored live False, of r] obtain b1 where
      "abs s1 = with_cgb (req_Namespace req, req_Name req) b1 (abs s)" "Spec b1 = Spec b"
      "DeletionTimestamp (Meta b1) = DeletionTimestamp (Meta b)"
      "set (Finalizers (Meta b1)) = insert CollectorGroupBindingFinalizer (set (Finalizers (Meta b)))"
      unfolding s1_def by blast
    then show ?thesis using live config(1) grp by (intro exI [of _ b1] exI [of _ pc]) simp
  qed
  then obtain b1 pc1 where b1: "cl_cgbs (abs s1) (req_Namespace req, req_Name req) = Some b1" "Spec b1 = Spec b"
    "IsZero (DeletionTimestamp (Meta b1))" "CollectorGroupBindingFinalizer \<in> set (Finalizers (Meta b1))"
    and pc1: "cl_pcs (abs s1) (req_Namespace req, PipelineConfigRef (Spec b1)) = Some pc1"
      "ContentHash (Status pc1) = ContentHash (Status pc)" "PipelineConfigRef (Spec b1) \<noteq> ''''"
    and cg1: "CollectorGroupRef (Spec b1) \<noteq> '''' \<longrightarrow> cl_cgs (abs s1) (req_Namespace req, CollectorGroupRef (Spec b1)) \<noteq> None"
    using config(2) by auto
  have s': "s' = state_after (Binding_Reconcile w r req) s1" by (simp add: s' s1_def)
  obtain b' pc' now where "cl_cgbs (abs s') (req_Namespace req, req_Name req) = Some b'" "reconciled r now b1 pc1 b'"
    "cl_pcs (abs s') (req_Namespace req, PipelineConfigRef (Spec b1)) = Some pc'"
    "CollectorGroupRef (Spec b1) \<noteq> '''' \<longrightarrow> cl_cgs (abs s') (req_Namespace req, CollectorGroupRef (Spec b1)) \<noteq> None"
    by (rule reconcile_binds_once [OF b1(1,3,4) pc1(1,3) cg1 [rule_format] s'])
  with that b1 pc1(2) show ?thesis by simp
qed

end

section \<open>Properties\<close>

text \<open>
  C5: A PipelineConfig under deletion that is held by its bindings goes away once those bindings are
  deleted: one pass of reconciles over them, in any order, followed by one reconcile of the
  PipelineConfig, removes it. The finalizers and counters never deadlock a deletion. The starting state
  is one in which the invariant \<open>fleet_ok\<close> holds (exact counters, existing bound references, bound
  bindings with their finalizer), and neither the bindings nor the PipelineConfig carry a finalizer
  of somebody else.
\<close>

theorem blocked_deletion_completes:
  assumes "kube_world w view wire version" and "fleet_ok (view s)"
    and "cl_pcs (view s) (ns, n) = Some pc" "deleting pc" "set (Finalizers (Meta pc)) \<subseteq> {PipelineConfigFinalizer}"
    and "\<And>m b. cl_cgbs (view s) (ns, m) = Some b \<Longrightarrow> BoundPipelineConfigRef (Status b) = n \<Longrightarrow> m \<in> set names"
    and "\<And>m b. m \<in> set names \<Longrightarrow> cl_cgbs (view s) (ns, m) = Some b \<Longrightarrow> deleting b"
    and "s' = state_after (PipelineConfig_Reconcile w \<lparr>req_Namespace = ns, req_Name = n\<rparr>)
      (reconcile_bindings w r ns names s)"
  shows "cl_pcs (view s') (ns, n) = None \<and> (\<forall>m \<in> set names. cl_cgbs (view s') (ns, m) = None)"
proof -
  let ?req = "\<lparr>req_Namespace = ns, req_Name = n\<rparr>"
  define s1 where "s1 = reconcile_bindings w r ns names s"
  have "fleet_ok (view s1) \<and> cl_cgbs (view s1) = cl_cgbs (view s) |` (- (Pair ns ` set names)) \<and>
      recounted (cl_pcs (view s1)) (cl_pcs (view s)) \<and> recounted (cl_cgs (view s1)) (cl_cgs (view s))"
    by (rule kube_world.reconcile_bindings_removes [OF assms(1,2) _ s1_def]) (rule assms(7))
  then have ok: "fleet_ok (view s1)" and cgbs: "cl_cgbs (view s1) = cl_cgbs (view s) |` (- (Pair ns ` set names))"
    and pcs: "recounted (cl_pcs (view s1)) (cl_pcs (view s))" by blast+
  from recountedD [OF pcs assms(3)] obtain pc1 where pc1: "cl_pcs (view s1) (ns, n) = Some pc1"
    and same: "same_object pc1 pc" by blast
  have "bound_keys BoundPipelineConfigRef (cl_cgbs (view s1)) ns n = {}"
    using assms(6) unfolding bound_keys_def cgbs by (auto simp: restrict_map_def split: if_splits)
  with kube_world.released_counter [OF assms(1) ok _ pc1] have zero: "pc_ActiveBindings (Status pc1) = 0" by blast
  have gone: "view s' = (view s1)\<lparr>cl_pcs := (cl_pcs (view s1))((ns, n) := None)\<rparr>"
    using kube_world.PipelineConfig_deletion [OF assms(1), of s1 ?req pc1] pc1 zero same_objectD [OF same]
      assms(4,5) unfolding assms(8) s1_def [symmetric] by (simp add: deleting_def)
  show ?thesis unfolding gone by (simp add: cgbs)
qed

definition sample_blocked :: mem where
  "sample_blocked = sample [sample_pc ''base'' ''logging'' ''h1'' 1 [PipelineConfigFinalizer] (Some 5)] []
     [sample_binding ''bt'' '''' ''t1'' ''base'' ''base'' '''' [] [CollectorGroupBindingFinalizer] (Some 5)]"

lemma sample_blocked_ok: "fleet_ok (mem_abs sample_blocked)"
proof -
  have view: "cl_cgbs (mem_abs sample_blocked) = [(''ns'', ''bt'') \<mapsto>
      sample_binding ''bt'' '''' ''t1'' ''base'' ''base'' '''' [] [CollectorGroupBindingFinalizer] (Some 5)]"
    by (simp add: sample_blocked_def)
  have "bound_keys BoundPipelineConfigRef (cl_cgbs (mem_abs sample_blocked)) ''ns'' ''base'' = {(''ns'', ''bt'')}"
    unfolding view bound_keys_def by (auto split: if_splits)
  then have "counters_ok (mem_abs sample_blocked)"
    by (auto simp: counters_ok_def sample_blocked_def split: if_splits)
  then show ?thesis
    by (auto simp: fleet_ok_def few_bindings_def binding_ok_def sample_blocked_def split: if_splits)
qed

theorem blocked_deletion_completes_witness:
  "cl_pcs (mem_abs (state_after (PipelineConfig_Reconcile mem_world \<lparr>req_Namespace = ''ns'', req_Name = ''base''\<rparr>)
     (reconcile_bindings mem_world \<lparr>CollectorTTL = 0, MetricsEnabled = True\<rparr> ''ns'' [''bt''] sample_blocked)))
     (''ns'', ''base'') = None"
  by (rule conjunct1 [OF blocked_deletion_completes [OF kube_world_mem sample_blocked_ok _ _ _ _ _ refl]])
    (auto simp: sample_blocked_def deleting_def IsZero_def zero_time_def split: if_splits)

text \<open>
  C7: Two reconciles take a live binding with resolvable references from any stored state to Active, bound
  to what its spec refers to, with the hash of its PipelineConfig; a further one moves no counter.
\<close>

theorem binding_becomes_active:
  assumes "kube_world w view wire version"
    and "cl_cgbs (view s) (req_Namespace req, req_Name req) = Some b"
    and "IsZero (DeletionTimestamp (Meta b))"
    and "cl_pcs (view s) (req_Namespace req, PipelineConfigRef (Spec b)) = Some pc" "PipelineConfigRef (Spec b) \<noteq> ''''"
    and "CollectorGroupRef (Spec b) \<noteq> '''' \<Longrightarrow>
      cl_cgs (view s) (req_Namespace req, CollectorGroupRef (Spec b)) \<noteq> None"
    and "s' = state_after (Binding_Reconcile w r req \<bind> (\<lambda>_. Binding_Reconcile w r req)) s"
    and "s'' = state_after (Binding_Reconcile w r req) s'"
  shows "(\<exists>b'. cl_cgbs (view s') (req_Namespace req, req_Name req) = Some b' \<and> Spec b' = Spec b \<and>
      Phase (Status b') = BindingPhaseActive \<and> ConfigHash (Status b') = ContentHash (Status pc) \<and>
      BoundPipelineConfigRef (Status b') = PipelineConfigRef (Spec b) \<and>
      BoundCollectorGroupRef (Status b') = CollectorGroupRef (Spec b)) \<and>
    (\<forall>k. map_option Status (cl_pcs (view s'') k) = map_option Status (cl_pcs (view s') k) \<and>
      map_option Status (cl_cgs (view s'') k) = map_option Status (cl_cgs (view s') k))"
proof -
  obtain b1 b' pc1 pc' now where b1: "Spec b1 = Spec b" "ContentHash (Status pc1) = ContentHash (Status pc)"
    and b': "cl_cgbs (view s') (req_Namespace req, req_Name req) = Some b'" "reconciled r now b1 pc1 b'"
    and old: "IsZero (DeletionTimestamp (Meta b1))" "CollectorGroupBindingFinalizer \<in> set (Finalizers (Meta b1))"
    and pc': "cl_pcs (view s') (req_Namespace req, PipelineConfigRef (Spec b)) = Some pc'"
    and cg': "CollectorGroupRef (Spec b) \<noteq> '''' \<longrightarrow> cl_cgs (view s') (req_Namespace req, CollectorGroupRef (Spec b)) \<noteq> None"
    by (rule kube_world.two_reconciles_bind [OF assms(1-7)])
  have same: "Spec b' = Spec b" "DeletionTimestamp (Meta b') = DeletionTimestamp (Meta b1)"
    "Finalizers (Meta b') = Finalizers (Meta b1)"
    using same_objectD [of b' b1] b'(2) b1(1) by (simp_all add: reconciled_def)
  have bound: "BoundPipelineConfigRef (Status b') = PipelineConfigRef (Spec b')"
    "BoundCollectorGroupRef (Status b') = CollectorGroupRef (Spec b')"
    using b'(2) b1(1) same(1) by (simp_all add: reconciled_def)
  have "map_option Status (cl_pcs (view s'') k) = map_option Status (cl_pcs (view s') k) \<and>
      map_option Status (cl_cgs (view s'') k) = map_option Status (cl_cgs (view s') k)" for k
    using kube_world.settled_reconcile [OF assms(1) b'(1) _ _ _ _ _ bound assms(8), of pc'] old same pc' cg' assms(5)
    by simp
  with b' b1 bound same(1) show ?thesis by (auto simp: reconciled_def)
qed

definition sample_new :: mem where
  "sample_new = sample [sample_pc ''base'' ''logging'' ''h1'' 0 [] None] []
     [sample_binding ''bt'' '''' ''t1'' ''base'' '''' '''' [] [] None]"

theorem binding_becomes_active_witness:
  "\<exists>b'. cl_cgbs (mem_abs (state_after
       (Binding_Reconcile mem_world \<lparr>CollectorTTL = 0, MetricsEnabled = True\<rparr> (sample_req ''bt'') \<bind>
         (\<lambda>_. Binding_Reconcile mem_world \<lparr>CollectorTTL = 0, MetricsEnabled = True\<rparr> (sample_req ''bt'')))
       sample_new)) (''ns'', ''bt'') = Some b' \<and> Phase (Status b') = BindingPhaseActive \<and>
     BoundPipelineConfigRef (Status b') = ''base''"
  using binding_becomes_active [OF kube_world_mem _ _ _ _ _ refl refl, of sample_new "sample_req ''bt''"
    "sample_binding ''bt'' '''' ''t1'' ''base'' '''' '''' [] [] None"
    "sample_pc ''base'' ''logging'' ''h1'' 0 [] None" "\<lparr>CollectorTTL = 0, MetricsEnabled = True\<rparr>"]
  by (auto simp: sample_new_def)

end
