(* ===== verification/Fault_Scenarios.thy ===== *)
theory Fault_Scenarios
  imports Binding_Properties Collector_Service
begin

text \<open>
  Situations outside the assumptions of the invariant, in which the code does not keep what it
  promises: a write of the binding's status that fails after the counters were moved, a binding held
  by a finalizer of another controller, a PipelineConfig that is emptied after it was hashed, and one
  that is removed while it is bound and created again.
\<close>

section \<open>A status write that fails\<close>

text \<open>
  The world in which updates of a binding's status are rejected, as they are when a heartbeat has
  changed the binding since it was read; everything else is as in \<open>w\<close>.
\<close>

definition rejecting :: "'e \<Rightarrow> ('s, 'e) world \<Rightarrow> ('s, 'e) world" where
  "rejecting e w = w\<lparr>CollectorGroupBindings :=
     (CollectorGroupBindings w)\<lparr>client_StatusUpdate := (\<lambda>_. State_Monad.return (Inl e))\<rparr>\<rparr>"

lemma rejecting_simps [simp]:
  "PipelineConfigs (rejecting e w) = PipelineConfigs w"
  "CollectorGroups (rejecting e w) = CollectorGroups w"
  "client_Get (CollectorGroupBindings (rejecting e w)) = client_Get (CollectorGroupBindings w)"
  "client_StatusUpdate (CollectorGroupBindings (rejecting e w)) b = State_Monad.return (Inl e)"
  "Now (rejecting e w) = Now w"
  "Emit (rejecting e w) = Emit w"
  "SetStatusCondition (rejecting e w) = SetStatusCondition w"
  "FindStatusCondition (rejecting e w) = FindStatusCondition w"
  "ContainsFinalizer (rejecting e w) = ContainsFinalizer w"
  by (simp_all add: rejecting_def)

lemma rejecting_counters: "manageCounters (rejecting e w) b = manageCounters w b"
  unfolding manageCounters_def decrementPipelineConfigActiveBindings_def
    incrementPipelineConfigActiveBindings_def decrementCollectorGroupActiveBindings_def
    incrementCollectorGroupActiveBindings_def getPipelineConfig_def getCollectorGroup_def
    rejecting_simps by (rule refl)

lemma rejecting_validate:
  assumes "result_of (validateRefs w b) s = (b', Inr pc)"
  shows "run_state (validateRefs (rejecting e w) b) s = run_state (validateRefs w b) s"
  using assms
  by (auto simp: validateRefs_def getPipelineConfig_def getCollectorGroup_def Let_def
    split: sum.splits option.splits if_splits)

lemma rejecting_publish:
  assumes "\<And>s. view (state_after (Now w) s) = view s"
    and "\<And>c s. view (state_after (Emit w c) s) = (view s)\<lparr>cl_metrics := cl_metrics (view s) @ [c]\<rparr>"
  shows "result_of (evictAndPublish (rejecting e w) r b pc) s = (empty_Result, Some e) \<and>
    (\<exists>l. view (state_after (evictAndPublish (rejecting e w) r b pc) s) = (view s)\<lparr>cl_metrics := l\<rparr>)"
proof -
  have ev: "view (state_after (evictStaleTenants (rejecting e w) r b) s) = view s"
    using run_evict(2) [of "rejecting e w" r b s] assms(1) by simp
  have "\<exists>l. view (state_after (countEvicted (rejecting e w) r n) t) = (view t)\<lparr>cl_metrics := l\<rparr>" for n t
    using assms(2) by (cases "0 < n \<and> MetricsEnabled r") (auto simp: countEvicted_def intro: exI [of _ "cl_metrics (view t)"])
  then obtain l where "view (state_after (countEvicted (rejecting e w) r
      (snd (result_of (evictStaleTenants (rejecting e w) r b) s))) (state_after (evictStaleTenants (rejecting e w) r b) s))
      = (view s)\<lparr>cl_metrics := l\<rparr>" using ev by metis
  then show ?thesis
    by (auto simp: evictAndPublish_def split_beta Let_def assms(1))
qed

context kube_world
begin

lemma rejected_reconcile:
  assumes stored: "cl_cgbs (abs s) (req_Namespace req, req_Name req) = Some b"
    and live: "IsZero (DeletionTimestamp (Meta b))"
    and finalizer: "CollectorGroupBindingFinalizer \<in> set (Finalizers (Meta b))"
    and config: "cl_pcs (abs s) (req_Namespace req, PipelineConfigRef (Spec b)) = Some pc"
    and config_name: "PipelineConfigRef (Spec b) \<noteq> ''''"
    and group: "CollectorGroupRef (Spec b) \<noteq> '''' \<Longrightarrow>
      cl_cgs (abs s) (req_Namespace req, CollectorGroupRef (Spec b)) \<noteq> None"
  shows "\<exists>pcs' cgs' l. result_of (Binding_Reconcile (rejecting e w) r req) s = (empty_Result, Some e) \<and>
    abs (state_after (Binding_Reconcile (rejecting e w) r req) s) =
      (abs s)\<lparr>cl_pcs := pcs', cl_cgs := cgs', cl_metrics := l\<rparr> \<and>
    shifted_pc (ref_delta (req_Namespace req) (BoundPipelineConfigRef (Status b)) (PipelineConfigRef (Spec b)))
      (cl_pcs (abs s)) pcs'"
proof -
  let ?get = "client_Get (CollectorGroupBindings w) (req_Namespace req) (req_Name req)"
  have ns: "Namespace (Meta b) = req_Namespace req" using cgb.stored_key [OF stored] by (simp add: key_of_def)
  define s1 where "s1 = state_after ?get s"
  have s1: "abs s1 = abs s" by (simp add: s1_def abs_laws)
  obtain cs where v: "result_of (validateRefs w b) s1 = (b\<lparr>Status := (Status b)\<lparr>Conditions := cs\<rparr>\<rparr>, Inr pc)"
    "abs (state_after (validateRefs w b) s1) = abs s"
    using validateRefs_ok [of s1 b pc] config group by (auto simp: s1 ns)
  define b1 where "b1 = b\<lparr>Status := (Status b)\<lparr>Conditions := cs\<rparr>\<rparr>"
  define s2 where "s2 = state_after (validateRefs w b) s1"
  obtain pcs' cgs' where c: "result_of (manageCounters w b1) s2 = None"
    "abs (state_after (manageCounters w b1) s2) = (abs s)\<lparr>cl_pcs := pcs', cl_cgs := cgs'\<rparr>"
    "shifted_pc (ref_delta (req_Namespace req) (BoundPipelineConfigRef (Status b)) (PipelineConfigRef (Spec b)))
      (cl_pcs (abs s)) pcs'"
    using manageCounters_effect [of s2 b1] config config_name group v(2) ns by (auto simp: b1_def s2_def)
  define s3 where "s3 = state_after (manageCounters w b1) s2"
  have "run_state (Binding_Reconcile (rejecting e w) r req) s = run_state (evictAndPublish (rejecting e w) r b1 pc) s3"
    using live finalizer v(1) c(1) cgb.get_found [OF stored]
    by (simp add: Binding_Reconcile_def contains_finalizer rejecting_validate [OF v(1)] rejecting_counters
      s1_def [symmetric] s2_def [symmetric] s3_def [symmetric] b1_def [symmetric])
  with rejecting_publish [of abs w e r b1 pc s3] now_abs emit_abs c(2,3) show ?thesis
    by (auto simp: s3_def)
qed

end

text \<open>
  C36: A reconcile of a new binding whose final status write is rejected has already taken the counter
  of the PipelineConfig and leaves it taken, while the binding still says it is bound to nothing: the
  counter is one too high, and each retry that fails the same way raises it again.
\<close>

theorem rejected_status_write_leaks_count:
  assumes world: "kube_world w view wire version" and ok: "counters_ok (view s)"
    and stored: "cl_cgbs (view s) (req_Namespace req, req_Name req) = Some b"
    and live: "IsZero (DeletionTimestamp (Meta b))"
    and finalizer: "CollectorGroupBindingFinalizer \<in> set (Finalizers (Meta b))"
    and unbound: "BoundPipelineConfigRef (Status b) = ''''"
    and config: "cl_pcs (view s) (req_Namespace req, PipelineConfigRef (Spec b)) = Some pc"
    and grp: "CollectorGroupRef (Spec b) \<noteq> '''' \<Longrightarrow>
      cl_cgs (view s) (req_Namespace req, CollectorGroupRef (Spec b)) \<noteq> None"
    and s': "s' = state_after (Binding_Reconcile (rejecting e w) r req) s"
  shows "result_of (Binding_Reconcile (rejecting e w) r req) s = (empty_Result, Some e) \<and>
    cl_cgbs (view s') = cl_cgbs (view s) \<and>
    (\<exists>pc'. cl_pcs (view s') (req_Namespace req, PipelineConfigRef (Spec b)) = Some pc' \<and>
       pc_ActiveBindings (Status pc') =
         bound_count BoundPipelineConfigRef (cl_cgbs (view s')) (req_Namespace req) (PipelineConfigRef (Spec b)) + 1)"
proof -
  have name: "PipelineConfigRef (Spec b) \<noteq> ''''" using config ok by (auto simp: counters_ok_def)
  from kube_world.rejected_reconcile [OF world stored live finalizer config name grp, of e r]
  obtain pcs' cgs' l where *: "result_of (Binding_Reconcile (rejecting e w) r req) s = (empty_Result, Some e)"
    "view s' = (view s)\<lparr>cl_pcs := pcs', cl_cgs := cgs', cl_metrics := l\<rparr>"
    "shifted_pc (ref_delta (req_Namespace req) '''' (PipelineConfigRef (Spec b))) (cl_pcs (view s)) pcs'"
    unfolding s' using unbound by auto
  from config obtain pc' where pc': "pcs' (req_Namespace req, PipelineConfigRef (Spec b)) = Some pc'"
    using shiftedD(1) [OF *(3)] by (metis option.distinct(1) option.exhaust)
  from shiftedD(2) [OF *(3) pc'] config name have
    "pc_ActiveBindings (Status pc') = pc_ActiveBindings (Status pc) + 1"
    by (auto simp: ref_delta_def delta_def)
  with config ok * pc' show ?thesis by (simp add: counters_ok_def)
qed

theorem rejected_status_write_leaks_count_witness:
  "\<exists>pc'. cl_pcs (mem_abs (state_after (Binding_Reconcile (rejecting ConflictError mem_world) sample_five_minutes
      (sample_req ''bg'')) sample_cluster)) (''ns'', ''base'') = Some pc' \<and>
    cl_cgbs (mem_abs (state_after (Binding_Reconcile (rejecting ConflictError mem_world) sample_five_minutes
      (sample_req ''bg'')) sample_cluster)) = cl_cgbs (mem_abs sample_cluster)"
  using rejected_status_write_leaks_count [of mem_world mem_abs mem_wire mem_version sample_cluster "sample_req ''bg''"
      sample_unbound "sample_pc ''base'' ''logging'' ''h1'' 0 [PipelineConfigFinalizer] None" _ ConflictError
      sample_five_minutes, OF kube_world_mem sample_cluster_counters _ _ _ _ _ _ refl]
  by auto

section \<open>A finalizer of another controller\<close>

text \<open>
  C38: A binding under deletion that another finalizer keeps in the cluster releases its PipelineConfig
  at every reconcile: two reconciles lower the counter by two, although one binding was bound.
\<close>

theorem foreign_finalizer_releases_twice:
  assumes world: "kube_world w view wire version"
    and stored: "cl_cgbs (view s) (req_Namespace req, req_Name req) = Some b"
    and deleted: "\<not> IsZero (DeletionTimestamp (Meta b))"
    and foreign: "f \<in> set (Finalizers (Meta b))" "f \<noteq> CollectorGroupBindingFinalizer"
    and bound: "n = BoundPipelineConfigRef (Status b)" "n \<noteq> ''''"
    and config: "cl_pcs (view s) (req_Namespace req, n) = Some pc"
    and s': "s' = state_after (Binding_Reconcile w r req \<bind> (\<lambda>_. Binding_Reconcile w r req)) s"
  shows "\<exists>pc'. cl_pcs (view s') (req_Namespace req, n) = Some pc' \<and>
    pc_ActiveBindings (Status pc') = pc_ActiveBindings (Status pc) - 2"
proof -
  have step: "\<exists>b' pc'. cl_cgbs (view (state_after (Binding_Reconcile w r req) t)) (req_Namespace req, req_Name req) = Some b' \<and>
      cl_pcs (view (state_after (Binding_Reconcile w r req) t)) (req_Namespace req, n) = Some pc' \<and>
      Status b' = Status b0 \<and> DeletionTimestamp (Meta b') = DeletionTimestamp (Meta b0) \<and> f \<in> set (Finalizers (Meta b')) \<and>
      pc_ActiveBindings (Status pc') = pc_ActiveBindings (Status pc0) - 1"
    if t: "cl_cgbs (view t) (req_Namespace req, req_Name req) = Some b0" "\<not> IsZero (DeletionTimestamp (Meta b0))"
      "f \<in> set (Finalizers (Meta b0))" "n = BoundPipelineConfigRef (Status b0)"
      "cl_pcs (view t) (req_Namespace req, n) = Some pc0" for t b0 pc0
  proof -
    have "\<not> set (Finalizers (Meta b0)) \<subseteq> {CollectorGroupBindingFinalizer}" using t(3) foreign(2) by auto
    with kube_world.reconcile_deletion [OF world t(1,2), of r] obtain pcs' cgs' b' where *:
      "view (state_after (Binding_Reconcile w r req) t) =
        (view t)\<lparr>cl_pcs := pcs', cl_cgs := cgs',
                cl_cgbs := (cl_cgbs (view t))((req_Namespace req, req_Name req) := Some b')\<rparr>"
      "shifted_pc (ref_delta (req_Namespace req) n '''') (cl_pcs (view t)) pcs'"
      "Status b' = Status b0" "DeletionTimestamp (Meta b') = DeletionTimestamp (Meta b0)"
      "set (Finalizers (Meta b')) = set (Finalizers (Meta b0)) - {CollectorGroupBindingFinalizer}"
      using t(4) by auto
    obtain pc' where pc': "pcs' (req_Namespace req, n) = Some pc'"
      using shiftedD(1) [OF *(2)] t(5) by (metis option.distinct(1) option.exhaust)
    from shiftedD(2) [OF *(2) pc'] t(5) bound(2) have "pc_ActiveBindings (Status pc') = pc_ActiveBindings (Status pc0) - 1"
      by (auto simp: ref_delta_def delta_def)
    with * pc' t(3) foreign(2) show ?thesis by simp
  qed
  from step [OF stored deleted foreign(1) bound(1) config] obtain b1 pc1 where 1:
    "cl_cgbs (view (state_after (Binding_Reconcile w r req) s)) (req_Namespace req, req_Name req) = Some b1"
    "cl_pcs (view (state_after (Binding_Reconcile w r req) s)) (req_Namespace req, n) = Some pc1"
    "Status b1 = Status b" "DeletionTimestamp (Meta b1) = DeletionTimestamp (Meta b)" "f \<in> set (Finalizers (Meta b1))"
    "pc_ActiveBindings (Status pc1) = pc_ActiveBindings (Status pc) - 1" by blast
  from step [OF 1(1) _ 1(5) _ 1(2)] 1(3,4) deleted bound(1) obtain pc2 where
    "cl_pcs (view s') (req_Namespace req, n) = Some pc2" "pc_ActiveBindings (Status pc2) = pc_ActiveBindings (Status pc1) - 1"
    by (auto simp: s')
  with 1(6) show ?thesis by simp
qed

definition sample_held :: mem where
  "sample_held = sample [sample_pc ''base'' ''logging'' ''h1'' 1 [PipelineConfigFinalizer] None] []
     [sample_deleting [CollectorGroupBindingFinalizer, ''foregroundDeletion'']]"

theorem foreign_finalizer_releases_twice_witness:
  "\<exists>pc'. cl_pcs (mem_abs (state_after (Binding_Reconcile mem_world sample_five_minutes (sample_req ''bt'') \<bind>
      (\<lambda>_. Binding_Reconcile mem_world sample_five_minutes (sample_req ''bt''))) sample_held)) (''ns'', ''base'') = Some pc' \<and>
    sint (pc_ActiveBindings (Status pc')) = -1"
proof -
  let ?b = "sample_deleting [CollectorGroupBindingFinalizer, ''foregroundDeletion'']"
  let ?pc = "sample_pc ''base'' ''logging'' ''h1'' 1 [PipelineConfigFinalizer] None"
  have stored: "cl_cgbs (mem_abs sample_held) (req_Namespace (sample_req ''bt''), req_Name (sample_req ''bt'')) = Some ?b"
    and config: "cl_pcs (mem_abs sample_held) (req_Namespace (sample_req ''bt''), ''base'') = Some ?pc"
    and deleted: "\<not> IsZero (DeletionTimestamp (Meta ?b))"
    and foreign: "''foregroundDeletion'' \<in> set (Finalizers (Meta ?b))"
      "''foregroundDeletion'' \<noteq> CollectorGroupBindingFinalizer"
    and bound: "''base'' = BoundPipelineConfigRef (Status ?b)" "''base'' \<noteq> ''''"
    by (simp_all add: sample_held_def sample_deleting_def zero_time_def CollectorGroupBindingFinalizer_def)
  from foreign_finalizer_releases_twice [OF kube_world_mem stored deleted foreign bound config refl, of sample_five_minutes]
  obtain pc' where "cl_pcs (mem_abs (state_after (Binding_Reconcile mem_world sample_five_minutes (sample_req ''bt'') \<bind>
      (\<lambda>_. Binding_Reconcile mem_world sample_five_minutes (sample_req ''bt''))) sample_held)) (''ns'', ''base'') = Some pc'"
    "pc_ActiveBindings (Status pc') = pc_ActiveBindings (Status ?pc) - 2"
    unfolding sample_req_simps by (elim exE conjE)
  moreover have "sint (1 - 2 :: int64) = -1" by simp
  ultimately show ?thesis by (intro exI [of _ pc']) simp
qed

section \<open>A configuration that is emptied\<close>

text \<open>
  C40: After a PipelineConfig that had been hashed is emptied and reconciled, a collector of its tenant
  that still holds the old content is told that nothing changed, although the content it is bound to
  is now empty.
\<close>

theorem emptied_config_goes_unnoticed:
  assumes world: "kube_world w view wire version"
    and stored: "cl_pcs (view s) (ns, n) = Some pc" and req: "req = \<lparr>req_Namespace = ns, req_Name = n\<rparr>"
    and live: "IsZero (DeletionTimestamp (Meta pc))" "PipelineConfigFinalizer \<in> set (Finalizers (Meta pc))"
    and emptied: "Content (Spec pc) = ''''" "ContentHash (Status pc) = h" "h \<noteq> ''''"
    and tenant: "tenant = map_get (msg_LocalAttributes msg) ''tenant''" "tenant \<noteq> ''''"
    and bound: "\<exists>m b. cl_cgbs (view s) (ns, m) = Some b \<and> TenantRef (Spec b) = tenant"
      "\<And>m b. cl_cgbs (view s) (ns, m) = Some b \<Longrightarrow> TenantRef (Spec b) = tenant \<Longrightarrow> PipelineConfigRef (Spec b) = n"
    and holds: "msg_Hash msg = h"
  shows "result_of (PipelineConfig_Reconcile w req \<bind> (\<lambda>_. GetConfig w (main_service w ns) msg)) s =
    Inr \<lparr>resp_Content = '''', resp_Hash = '''', resp_NotModified = True\<rparr>"
proof -
  define s1 where "s1 = state_after (PipelineConfig_Reconcile w req) s"
  from kube_world.PipelineConfig_empty_content [OF world, of s req pc] stored req live emptied(1)
  obtain pc' where s1: "view s1 = with_pc (ns, n) pc' (view s)" "ContentHash (Status pc') = h"
    using emptied(2) by (auto simp: s1_def)
  obtain r where r: "chain_answers (view s1) ns tenant (map_get (msg_LocalAttributes msg) ''collector_group'') r"
    "result_of (GetConfig w (main_service w ns) msg) s1 = respond h r"
    using collector_service.GetConfig_correct [OF kube_world.main_service_contract [OF world], of s1 ns msg w] tenant(1) holds
    by auto
  have ex: "\<exists>m b. cl_cgbs (view s1) (ns, m) = Some b \<and> TenantRef (Spec b) = tenant" using bound(1) s1(1) by simp
  with r(1) tenant(2) have "resolves_binding (view s1) ns (\<lambda>sp. TenantRef sp = tenant) r"
    unfolding chain_answers_def by simp
  with ex obtain m b where "cl_cgbs (view s1) (ns, m) = Some b" "TenantRef (Spec b) = tenant"
    "resolves_config (cl_pcs (view s1) (ns, PipelineConfigRef (Spec b))) r"
    unfolding resolves_binding_def by auto
  with bound(2) s1 emptied(3) have "\<exists>content. r = Inr \<lparr>res_Content = content, res_ContentHash = h\<rparr>"
    by (auto simp: resolves_config_def toPipelineResult_def)
  with r(2) show ?thesis by (auto simp: respond_def s1_def)
qed

definition sample_emptied :: mem where
  "sample_emptied = sample [sample_pc ''base'' '''' ''h1'' 1 [PipelineConfigFinalizer] None] []
     [sample_binding ''bt'' '''' ''t1'' ''base'' '''' '''' [] [] None]"

theorem emptied_config_goes_unnoticed_witness:
  "result_of (PipelineConfig_Reconcile mem_world (sample_req ''base'') \<bind>
      (\<lambda>_. GetConfig mem_world (main_service mem_world ''ns'') (sample_poll ''t1'' ''h1''))) sample_emptied =
    Inr \<lparr>resp_Content = '''', resp_Hash = '''', resp_NotModified = True\<rparr>"
proof (rule emptied_config_goes_unnoticed [OF kube_world_mem])
  show "cl_pcs (mem_abs sample_emptied) (''ns'', ''base'') =
      Some (sample_pc ''base'' '''' ''h1'' 1 [PipelineConfigFinalizer] None)"
    by (simp add: sample_emptied_def)
  show "''t1'' = map_get (msg_LocalAttributes (sample_poll ''t1'' ''h1'')) ''tenant''"
    by (simp add: sample_poll_def map_get_def)
  show "\<exists>m b. cl_cgbs (mem_abs sample_emptied) (''ns'', m) = Some b \<and> TenantRef (Spec b) = ''t1''"
    by (rule exI [of _ "''bt''"]) (simp add: sample_emptied_def)
  show "\<And>m b. cl_cgbs (mem_abs sample_emptied) (''ns'', m) = Some b \<Longrightarrow> TenantRef (Spec b) = ''t1'' \<Longrightarrow>
      PipelineConfigRef (Spec b) = ''base''"
    by (auto simp: sample_emptied_def split: if_splits)
qed (simp_all add: sample_req_def sample_poll_def)

section \<open>A configuration that is re-created\<close>

text \<open>
  C39: A PipelineConfig that was removed while a binding was bound to it and is created again starts with
  a counter of zero, and no reconcile of the binding raises it, since its reference did not change:
  the binding becomes Active with a configuration that counts no binding, and when the
  configuration is then deleted, its controller removes it although the binding is bound to it.
\<close>

theorem recreated_config_is_unguarded:
  assumes world: "kube_world w view wire version"
    and stored: "cl_cgbs (view s) (ns, m) = Some b" "IsZero (DeletionTimestamp (Meta b))"
      "CollectorGroupBindingFinalizer \<in> set (Finalizers (Meta b))"
    and bound: "BoundPipelineConfigRef (Status b) = n" "PipelineConfigRef (Spec b) = n" "n \<noteq> ''''"
    and recreated: "cl_pcs (view s) (ns, n) = Some pc" "pc_ActiveBindings (Status pc) = 0"
    and grp: "CollectorGroupRef (Spec b) \<noteq> '''' \<Longrightarrow> cl_cgs (view s) (ns, CollectorGroupRef (Spec b)) \<noteq> None"
    and s1: "s1 = state_after (Binding_Reconcile w r \<lparr>req_Namespace = ns, req_Name = m\<rparr>) s"
    and marked: "view s2 = with_pc (ns, n) pc2 (view s1)" "map_option Status (cl_pcs (view s1) (ns, n)) = Some (Status pc2)"
      "\<not> IsZero (DeletionTimestamp (Meta pc2))" "set (Finalizers (Meta pc2)) \<subseteq> {PipelineConfigFinalizer}"
    and s3: "s3 = state_after (PipelineConfig_Reconcile w \<lparr>req_Namespace = ns, req_Name = n\<rparr>) s2"
  shows "(\<exists>b'. cl_cgbs (view s3) (ns, m) = Some b' \<and> Phase (Status b') = BindingPhaseActive \<and>
      BoundPipelineConfigRef (Status b') = n) \<and>
    pc_ActiveBindings (Status pc2) = 0 \<and> cl_pcs (view s3) (ns, n) = None"
proof -
  let ?req = "\<lparr>req_Namespace = ns, req_Name = m\<rparr>"
  from kube_world.reconcile_bound [OF world, of s ?req b pc _ r, OF _ _ _ _ _ _ refl] stored bound recreated(1) grp
  obtain b' pcs' cgs' l where *: "Phase (Status b') = BindingPhaseActive" "BoundPipelineConfigRef (Status b') = n"
    "view s1 = (view s)\<lparr>cl_pcs := pcs', cl_cgs := cgs', cl_cgbs := (cl_cgbs (view s))((ns, m) \<mapsto> b'), cl_metrics := l\<rparr>"
    "shifted_pc (ref_delta ns n n) (cl_pcs (view s)) pcs'"
    by (auto simp: s1 reconciled_def)
  from marked(2) obtain pc1 where "pcs' (ns, n) = Some pc1" "Status pc1 = Status pc2" by (auto simp: *(3))
  from shiftedD(2) [OF *(4) this(1)] this(2) recreated have zero: "pc_ActiveBindings (Status pc2) = 0" by auto
  have pc2: "cl_pcs (view s2) (req_Namespace \<lparr>req_Namespace = ns, req_Name = n\<rparr>, req_Name \<lparr>req_Namespace = ns, req_Name = n\<rparr>) = Some pc2"
    by (simp add: marked(1))
  from kube_world.PipelineConfig_deletion [OF world pc2 marked(3,4)] zero
  have "view s3 = (view s2)\<lparr>cl_pcs := (cl_pcs (view s2))((ns, n) := None)\<rparr>" by (simp add: s3)
  with * marked(1) zero show ?thesis by simp
qed

definition sample_recreated :: mem where
  "sample_recreated = sample [sample_pc ''base'' ''logging'' ''h1'' 0 [PipelineConfigFinalizer] None] []
     [sample_binding ''bt'' '''' ''t1'' ''base'' ''base'' '''' [] [CollectorGroupBindingFinalizer] None]"

theorem recreated_config_is_unguarded_witness:
  "\<exists>s1 s2. s1 = state_after (Binding_Reconcile mem_world sample_five_minutes (sample_req ''bt'')) sample_recreated \<and>
    s2 = s1\<lparr>m_pcs := [sample_pc ''base'' ''logging'' ''h1'' 0 [PipelineConfigFinalizer] (Some 5)]\<rparr> \<and>
    cl_pcs (mem_abs (state_after (PipelineConfig_Reconcile mem_world (sample_req ''base'')) s2)) (''ns'', ''base'') = None"
proof -
  define s1 where "s1 = state_after (Binding_Reconcile mem_world sample_five_minutes (sample_req ''bt'')) sample_recreated"
  let ?pc2 = "sample_pc ''base'' ''logging'' ''h1'' 0 [PipelineConfigFinalizer] (Some 5)"
  define s2 where "s2 = s1\<lparr>m_pcs := [?pc2]\<rparr>"
  have "map (\<lambda>pc. (key_of pc, Status pc)) (m_pcs s1) = [((''ns'', ''base''), Status ?pc2)]"
    unfolding s1_def by code_simp
  then obtain pc where pcs: "m_pcs s1 = [pc]" "key_of pc = (''ns'', ''base'')" "Status pc = Status ?pc2" by auto
  have "mem_abs s2 = with_pc (''ns'', ''base'') ?pc2 (mem_abs s1)"
    "map_option Status (cl_pcs (mem_abs s1) (''ns'', ''base'')) = Some (Status ?pc2)"
    by (simp_all add: s2_def mem_abs_def pcs)
  from recreated_config_is_unguarded [of mem_world mem_abs mem_wire mem_version sample_recreated "''ns''" "''bt''"
      "sample_binding ''bt'' '''' ''t1'' ''base'' ''base'' '''' [] [CollectorGroupBindingFinalizer] None" "''base''"
      "sample_pc ''base'' ''logging'' ''h1'' 0 [PipelineConfigFinalizer] None"
      s1 sample_five_minutes s2 ?pc2, OF kube_world_mem _ _ _ _ _ _ _ _ _ _ this _ _ refl]
  show ?thesis by (auto simp: s1_def s2_def sample_recreated_def sample_req_def zero_time_def)
qed

end
