(* ===== verification/Metric_Log.thy ===== *)
theory Metric_Log
  imports Interceptor
begin

text \<open>
  The label discipline of the operator's metrics, whatever the API server answers. A world keeps a
  log of metric calls: \<open>Emit\<close> appends to it and no other call into a library does. The rules of \<open>logs\<close>
  follow the program text, so a call is covered on every branch, the error branches included.
\<close>

section \<open>Well-labelled runs\<close>

definition logs :: "('s \<Rightarrow> metric_call list) \<Rightarrow> ('s, 'a) state \<Rightarrow> bool" where
  "logs log m \<longleftrightarrow> (\<forall>s. \<exists>calls. log (state_after m s) = log s @ calls \<and> list_all well_labelled calls)"

definition quiet :: "('s \<Rightarrow> metric_call list) \<Rightarrow> ('s, 'a) state \<Rightarrow> bool" where
  "quiet log m \<longleftrightarrow> (\<forall>s. log (state_after m s) = log s)"

definition client_quiet :: "('s \<Rightarrow> metric_call list) \<Rightarrow> ('s, 'e, 'o) resource_client \<Rightarrow> bool" where
  "client_quiet log R \<longleftrightarrow>
     (\<forall>ns n. quiet log (client_Get R ns n)) \<and>
     (\<forall>ns sel. quiet log (client_List R ns sel)) \<and>
     (\<forall>obj. quiet log (client_Update R obj)) \<and>
     (\<forall>obj. quiet log (client_StatusUpdate R obj)) \<and>
     (\<forall>obj base. quiet log (client_StatusPatch R obj base))"

locale metric_log =
  fixes w :: "('s, 'e) world"
    and log :: "'s \<Rightarrow> metric_call list"
  assumes emit_logs: "log (state_after (Emit w call) s) = log s @ [call]"
    and now_quiet: "quiet log (Now w)"
    and set_condition_quiet: "quiet log (SetStatusCondition w cs new)"
    and pc_quiet: "client_quiet log (PipelineConfigs w)"
    and cg_quiet: "client_quiet log (CollectorGroups w)"
    and cgb_quiet: "client_quiet log (CollectorGroupBindings w)"

section \<open>Composition\<close>

lemma quiet_logs: "quiet log m \<Longrightarrow> logs log m"
  by (simp add: logs_def quiet_def)

lemma logs_return: "logs log (State_Monad.return x)"
  by (simp add: logs_def)

lemma logs_bind:
  assumes "logs log m" "\<And>x. logs log (f x)"
  shows "logs log (m \<bind> f)"
  unfolding logs_def
proof
  fix s
  obtain k where k: "log (state_after m s) = log s @ k" "list_all well_labelled k"
    using assms(1) by (auto simp: logs_def)
  obtain l where "log (state_after (f (result_of m s)) (state_after m s)) = log (state_after m s) @ l"
    "list_all well_labelled l" using assms(2) by (fastforce simp: logs_def)
  with k show "\<exists>calls. log (state_after (m \<bind> f) s) = log s @ calls \<and> list_all well_labelled calls"
    by (intro exI [of _ "k @ l"]) simp
qed

lemma logs_if: "(b \<Longrightarrow> logs log m) \<Longrightarrow> (\<not> b \<Longrightarrow> logs log n) \<Longrightarrow> logs log (if b then m else n)"
  by simp

lemma logs_sum:
  "(\<And>e. logs log (f e)) \<Longrightarrow> (\<And>a. logs log (g a)) \<Longrightarrow> logs log (case r of Inl e \<Rightarrow> f e | Inr a \<Rightarrow> g a)"
  by (cases r) simp_all

lemma logs_option:
  "logs log m \<Longrightarrow> (\<And>a. logs log (g a)) \<Longrightarrow> logs log (case r of None \<Rightarrow> m | Some a \<Rightarrow> g a)"
  by (cases r) simp_all

lemma logs_list:
  "logs log m \<Longrightarrow> (\<And>x xs. logs log (g x xs)) \<Longrightarrow> logs log (case r of [] \<Rightarrow> m | x # xs \<Rightarrow> g x xs)"
  by (cases r) simp_all

lemma logs_prod: "(\<And>a b. logs log (g a b)) \<Longrightarrow> logs log (case p of (a, b) \<Rightarrow> g a b)"
  by (cases p) simp

lemma logs_try_bind: "logs log m \<Longrightarrow> (\<And>x. logs log (f x)) \<Longrightarrow> logs log (try_bind m f)"
  unfolding try_bind_def by (intro logs_bind logs_sum logs_return)

lemma client_quietD:
  assumes "client_quiet log R"
  shows "logs log (client_Get R ns n)" "logs log (client_List R ns sel)" "logs log (client_Update R obj)"
    "logs log (client_StatusUpdate R obj)" "logs log (client_StatusPatch R obj base)"
  using assms by (simp_all add: client_quiet_def quiet_logs)

lemmas logs_rules = logs_return logs_bind logs_if logs_sum logs_option logs_list logs_prod logs_try_bind

section \<open>The operator\<close>

context metric_log
begin

lemma logs_emit: "well_labelled call \<Longrightarrow> logs log (Emit w call)"
  by (simp add: logs_def emit_logs)

lemmas call_rules = logs_rules quiet_logs [OF now_quiet] quiet_logs [OF set_condition_quiet]
  client_quietD [OF pc_quiet] client_quietD [OF cg_quiet] client_quietD [OF cgb_quiet]

subsection \<open>Reconciles\<close>

lemma counter_logs:
  "logs log (decrementPipelineConfigActiveBindings w ns n)" "logs log (incrementPipelineConfigActiveBindings w ns n)"
  "logs log (decrementCollectorGroupActiveBindings w ns n)" "logs log (incrementCollectorGroupActiveBindings w ns n)"
  unfolding decrementPipelineConfigActiveBindings_def incrementPipelineConfigActiveBindings_def
    decrementCollectorGroupActiveBindings_def incrementCollectorGroupActiveBindings_def
    getPipelineConfig_def getCollectorGroup_def
  by (intro call_rules)+

lemma manageCounters_logs: "logs log (manageCounters w b)"
  unfolding manageCounters_def Let_def by (intro call_rules counter_logs)

lemma handleDeletion_logs: "logs log (handleDeletion w b)"
  unfolding handleDeletion_def Let_def by (intro call_rules counter_logs)

lemma validateRefs_logs: "logs log (validateRefs w b)"
  unfolding validateRefs_def setRefsInvalid_def getPipelineConfig_def getCollectorGroup_def Let_def
  by (intro call_rules)

lemma evictAndPublish_logs: "logs log (evictAndPublish w r b pc)"
  unfolding evictAndPublish_def evictStaleTenants_def countEvicted_def Let_def
  by (intro call_rules logs_emit) simp

lemma Binding_Reconcile_logs: "logs log (Binding_Reconcile w r req)"
  unfolding Binding_Reconcile_def
  by (intro call_rules handleDeletion_logs validateRefs_logs manageCounters_logs evictAndPublish_logs)

lemma resource_reconcile_logs:
  "logs log (PipelineConfig_Reconcile w req)" "logs log (CollectorGroup_Reconcile w req)"
  unfolding PipelineConfig_Reconcile_def CollectorGroup_Reconcile_def Let_def by (intro call_rules)+

subsection \<open>Endpoints\<close>

lemma findBinding_logs: "logs log (findBinding w ns tenant grp)"
  unfolding findBinding_def by (intro call_rules)

lemma attempts_logs:
  "logs log (register_attempts w ns tenant grp c left)" "logs log (unregister_attempts w k c left)"
  by (induction left) (simp_all only: register_attempts.simps unregister_attempts.simps Let_def,
    (intro call_rules findBinding_logs; assumption)+)

lemma unregister_items_logs: "logs log (unregister_items w c items)"
  by (induction items) (simp_all add: logs_return attempts_logs)

lemma registry_logs: "logs log (registry_Register w ns info)" "logs log (registry_Unregister w ns c)"
  unfolding registry_Register_def registry_Unregister_def Let_def
  by (intro call_rules attempts_logs unregister_items_logs)+

lemma observe_logs: "logs log fn \<Longrightarrow> logs log (observe w path fn)"
  unfolding observe_def Let_def by (intro call_rules logs_emit) simp_all

lemma resolver_logs:
  "logs log (ResolveByTenant (MetricsConfigResolver w (ConfigResolver w)) ns x)"
  "logs log (ResolveByCollectorGroup (MetricsConfigResolver w (ConfigResolver w)) ns x)"
  "logs log (ResolveDefault (MetricsConfigResolver w (ConfigResolver w)) ns)"
  by (simp_all add: MetricsConfigResolver_def ConfigResolver_def resolveByIndex_def resolveDefault_items_def,
    (intro observe_logs call_rules)+)

lemma resolveConfig_logs: "logs log (resolveConfig (main_service w ns) tenant grp)"
  unfolding resolveConfig_def Let_def fall_through_def main_service_simps by (intro call_rules resolver_logs)

lemma MetricsInterceptor_logs: "logs log m \<Longrightarrow> logs log (MetricsInterceptor w codeString procedure m)"
  unfolding MetricsInterceptor_def Let_def by (intro call_rules logs_emit) simp_all

lemma countRPC_logs: "label_count metric = Some 0 \<Longrightarrow> logs log (countRPC w svc metric)"
  unfolding countRPC_def by (intro call_rules logs_emit) simp

lemma handler_logs:
  "logs log (GetConfig w (main_service w ns) msg)" "logs log (RegisterCollector (main_service w ns) reg)"
  "logs log (UnregisterCollector (main_service w ns) c)"
proof -
  have refresh: "logs log (refreshActiveTenants (main_service w ns) cid n attrs)"
    "logs log (Unregister (svc_registry (main_service w ns)) c)" for cid n attrs
    by (simp_all add: refreshActiveTenants_def KubernetesCollectorRegistry_def registry_logs)
  show "logs log (GetConfig w (main_service w ns) msg)"
    unfolding GetConfig_def Let_def by (intro call_rules refresh resolveConfig_logs countRPC_logs label_counts)
  show "logs log (RegisterCollector (main_service w ns) reg)" "logs log (UnregisterCollector (main_service w ns) c)"
    unfolding RegisterCollector_def UnregisterCollector_def by (intro call_rules refresh)+
qed

lemma endpoint_logs:
  "logs log (GetConfig_endpoint w codeString procedure ns msg)"
  "logs log (RegisterCollector_endpoint w codeString procedure ns reg)"
  "logs log (UnregisterCollector_endpoint w codeString procedure ns c)"
  unfolding endpoint_defs by (intro MetricsInterceptor_logs handler_logs)+

subsection \<open>Scrapes\<close>

lemma Collect_logs: "logs log (Collect range_order w rc)"
  unfolding scrape_defs scrape_error_def Let_def by (intro call_rules logs_emit) simp_all

end

text \<open>A gauge carries as many label values as the descriptor it was built from declares.\<close>

definition gauge_labelled :: "gauge \<Rightarrow> bool" where
  "gauge_labelled g \<longleftrightarrow> label_count (g_Desc g) = Some (length (g_Labels g))"

lemma gauge_label_counts [simp]:
  "label_count ''pipeline_configs'' = Some 1"
  "label_count ''collector_group_bindings'' = Some 1"
  "label_count ''collector_groups'' = Some 1"
  "label_count ''deletion_blocked_resources'' = Some 1"
  "label_count ''registered_tenants'' = Some 0"
  by (simp_all add: metrics_table)

lemma parts_labelled:
  "list_all gauge_labelled (snd (result_of (collectPipelineConfigs w ns) s))"
  "list_all gauge_labelled (result_of (collectCollectorGroupBindings range_order w ns) s)"
  "list_all gauge_labelled (snd (result_of (collectCollectorGroups w ns) s))"
  "list_all gauge_labelled (collectDeletionBlocked pcList cgList)"
  "list_all gauge_labelled (result_of (collectRegisteredTenants w ns) s)"
  unfolding collectPipelineConfigs_def collectCollectorGroupBindings_def collectCollectorGroups_def
    collectDeletionBlocked_def collectRegisteredTenants_def
  by (simp_all add: split_beta gauge_labelled_def MustNewConstMetric_def Let_def split: sum.split option.split)
    (auto simp: list_all_iff gauge_labelled_def)

lemma Collect_labelled: "list_all gauge_labelled (result_of (Collect range_order w rc) s)"
  by (simp add: Collect_def Let_def split_beta parts_labelled)

section \<open>The in-memory world\<close>

lemma mem_client_quiet:
  assumes "\<And>os s. m_metrics (set_os os s) = m_metrics s"
  shows "client_quiet m_metrics (mem_client get_os set_os encode valid merge index)"
  using assms
  by (auto simp: client_quiet_def quiet_def mem_client_def mem_commit_def Let_def split: option.split)

interpretation mem_log: metric_log mem_world m_metrics
  by unfold_locales
    (auto simp: mem_world_def mem_now_def mem_emit_def quiet_def intro: mem_client_quiet)

text \<open>An API server that cannot be reached for the bindings.\<close>

definition down_client :: "('s, mem_error, 'o) resource_client" where
  "down_client =
     \<lparr>client_Get = \<lambda>ns n. State_Monad.return (Inl InvalidError),
      client_List = \<lambda>ns sel. State_Monad.return (Inl InvalidError),
      client_Update = \<lambda>obj. State_Monad.return (Inl InvalidError),
      client_StatusUpdate = \<lambda>obj. State_Monad.return (Inl InvalidError),
      client_StatusPatch = \<lambda>obj base. State_Monad.return (Inl InvalidError)\<rparr>"

interpretation down_log: metric_log "mem_world\<lparr>CollectorGroupBindings := down_client\<rparr>" m_metrics
  using mem_log.emit_logs mem_log.now_quiet mem_log.set_condition_quiet mem_log.pc_quiet mem_log.cg_quiet
  by unfold_locales (simp_all, simp add: down_client_def client_quiet_def quiet_def)

section \<open>Properties\<close>

text \<open>
  C28: Whatever the API server answers, every metric call the operator makes, in an endpoint, in a
  reconcile of any of the three controllers or in a scrape, passes as many label values as the
  metric was declared with, and no counter is decreased; the gauges of a scrape and the build
  information carry the label values their descriptors declare. So no metric call panics.
\<close>

theorem metric_calls_are_well_labelled:
  assumes "metric_log w log"
    and "m \<in> {state_after (GetConfig_endpoint w codeString procedure ns msg),
      state_after (RegisterCollector_endpoint w codeString procedure ns reg),
      state_after (UnregisterCollector_endpoint w codeString procedure ns collectorID),
      state_after (Binding_Reconcile w r req),
      state_after (PipelineConfig_Reconcile w req),
      state_after (CollectorGroup_Reconcile w req),
      state_after (Collect range_order w rc)}"
  shows "(\<exists>calls. log (m s) = log s @ calls \<and> (\<forall>call \<in> set calls. well_labelled call)) \<and>
    (\<forall>g \<in> set (result_of (Collect range_order w rc) s). label_count (g_Desc g) = Some (length (g_Labels g))) \<and>
    length (fst (BuildInfo_Set serviceVersion goVersion settings)) = length (opt_Labels (bi_Info NewBuildInfoMetric))"
proof -
  note runs = metric_log.endpoint_logs [OF assms(1)] metric_log.Binding_Reconcile_logs [OF assms(1)]
    metric_log.resource_reconcile_logs [OF assms(1)] metric_log.Collect_logs [OF assms(1)]
  have "\<exists>calls. log (m s) = log s @ calls \<and> list_all well_labelled calls"
    using assms(2) by (elim insertE emptyE) (simp_all only: runs [unfolded logs_def, rule_format])
  with Collect_labelled [of range_order w rc s] show ?thesis
    by (simp add: list_all_iff gauge_labelled_def BuildInfo_Set_def Let_def NewBuildInfoMetric_def metric_opts_of_def)
qed

theorem metric_calls_are_well_labelled_witness:
  "\<exists>calls. m_metrics (state_after (Collect (\<lambda>x. x) (mem_world\<lparr>CollectorGroupBindings := down_client\<rparr>)
      (NewResourceCollector ''ns'')) sample_served) = m_metrics sample_served @ calls \<and> calls \<noteq> [] \<and>
    (\<forall>call \<in> set calls. well_labelled call)"
proof -
  let ?s' = "state_after (Collect (\<lambda>x. x) (mem_world\<lparr>CollectorGroupBindings := down_client\<rparr>) (NewResourceCollector ''ns''))
    sample_served"
  have "m_metrics ?s' \<noteq> m_metrics sample_served" by code_simp
  moreover obtain calls where "m_metrics ?s' = m_metrics sample_served @ calls" "\<forall>call \<in> set calls. well_labelled call"
    using metric_calls_are_well_labelled [OF down_log.metric_log_axioms, where range_order = "\<lambda>x. x"
        and rc = "NewResourceCollector ''ns''" and s = sample_served] by blast
  ultimately show ?thesis by auto
qed

end
