(* ===== verification/Retry_Bound.thy ===== *)
theory Retry_Bound
  imports Registry
begin

text \<open>
  How often the registry writes: a world is instrumented with a counter of the status patches of
  bindings, which changes nothing else, and the retry loops of
  \<open>internal/adapter/kubernetes/collectorregistry.go\<close> are run in it. The rules of \<open>meters\<close> bound the
  counter compositionally, in any world, whatever its calls answer.
\<close>

section \<open>A counter of patches\<close>

definition uncounted :: "('s, 'a) state \<Rightarrow> ('s \<times> nat, 'a) state" where
  "uncounted m = State (\<lambda>(s, n). (result_of m s, (state_after m s, n)))"

definition counted :: "('s, 'a) state \<Rightarrow> ('s \<times> nat, 'a) state" where
  "counted m = State (\<lambda>(s, n). (result_of m s, (state_after m s, Suc n)))"

definition metered_client ::
  "(('s, 'e + 'o) state \<Rightarrow> ('s \<times> nat, 'e + 'o) state) \<Rightarrow> ('s, 'e, 'o) resource_client \<Rightarrow>
   ('s \<times> nat, 'e, 'o) resource_client" where
  "metered_client patch R =
     \<lparr>client_Get = \<lambda>ns n. uncounted (client_Get R ns n),
      client_List = \<lambda>ns sel. uncounted (client_List R ns sel),
      client_Update = \<lambda>obj. uncounted (client_Update R obj),
      client_StatusUpdate = \<lambda>obj. uncounted (client_StatusUpdate R obj),
      client_StatusPatch = \<lambda>obj base. patch (client_StatusPatch R obj base)\<rparr>"

definition metered :: "('s, 'e) world \<Rightarrow> ('s \<times> nat, 'e) world" where
  "metered w =
     \<lparr>PipelineConfigs = metered_client uncounted (PipelineConfigs w),
      CollectorGroups = metered_client uncounted (CollectorGroups w),
      CollectorGroupBindings = metered_client counted (CollectorGroupBindings w),
      Now = uncounted (Now w),
      Emit = (\<lambda>call. uncounted (Emit w call)),
      IsNotFound = IsNotFound w, IsConflict = IsConflict w, ErrorText = ErrorText w,
      SetStatusCondition = (\<lambda>cs new. uncounted (SetStatusCondition w cs new)),
      FindStatusCondition = FindStatusCondition w,
      ContainsFinalizer = ContainsFinalizer w, AddFinalizer = AddFinalizer w,
      RemoveFinalizer = RemoveFinalizer w\<rparr>"

text \<open>\<open>m'\<close> is \<open>m\<close> with the counter added, and raises the counter by at most \<open>k\<close>.\<close>

definition meters :: "nat \<Rightarrow> ('s \<times> nat, 'a) state \<Rightarrow> ('s, 'a) state \<Rightarrow> bool" where
  "meters k m' m \<longleftrightarrow>
     (\<forall>s n. \<exists>p\<le>k. run_state m' (s, n) = (result_of m s, (state_after m s, n + p)))"

lemma run_uncounted [simp]: "run_state (uncounted m) (s, n) = (result_of m s, (state_after m s, n))"
  by (simp add: uncounted_def)

lemma run_counted [simp]: "run_state (counted m) (s, n) = (result_of m s, (state_after m s, Suc n))"
  by (simp add: counted_def)

lemma metered_simps [simp]:
  "client_Get (CollectorGroupBindings (metered w)) ns m = uncounted (client_Get (CollectorGroupBindings w) ns m)"
  "client_List (CollectorGroupBindings (metered w)) ns sel = uncounted (client_List (CollectorGroupBindings w) ns sel)"
  "client_StatusPatch (CollectorGroupBindings (metered w)) obj base =
     counted (client_StatusPatch (CollectorGroupBindings w) obj base)"
  "Now (metered w) = uncounted (Now w)"
  "IsNotFound (metered w) = IsNotFound w" "IsConflict (metered w) = IsConflict w"
  by (simp_all add: metered_def metered_client_def)

lemma meters_uncounted: "meters k (uncounted m) m"
  by (auto simp: meters_def)

lemma meters_return: "meters k (State_Monad.return x) (State_Monad.return x)"
  by (auto simp: meters_def)

lemma meters_counted: "meters (Suc 0) (counted m) m"
  by (auto simp: meters_def)

lemma meters_bind:
  assumes "meters j m' m" "\<And>x. meters k (f' x) (f x)"
  shows "meters (j + k) (m' \<bind> f') (m \<bind> f)"
  unfolding meters_def
proof (intro allI)
  fix s n
  obtain p where p: "p \<le> j" "run_state m' (s, n) = (result_of m s, (state_after m s, n + p))"
    using assms(1) by (auto simp: meters_def)
  obtain q where q: "q \<le> k" "run_state (f' (result_of m s)) (state_after m s, n + p) =
      (result_of (f (result_of m s)) (state_after m s), (state_after (f (result_of m s)) (state_after m s), n + p + q))"
    using assms(2) [of "result_of m s"] by (auto simp: meters_def)
  show "\<exists>p\<le>j + k. run_state (m' \<bind> f') (s, n) = (result_of (m \<bind> f) s, (state_after (m \<bind> f) s, n + p))"
    using p q by (intro exI [of _ "p + q"]) simp
qed

text \<open>Reads in front of a step cost nothing; a patch in front of it costs one.\<close>

lemmas meters_read = meters_bind [where j = 0, simplified, OF meters_uncounted]
lemmas meters_patch = meters_bind [OF meters_counted, simplified]

section \<open>The retry loops\<close>

lemma findBinding_meters: "meters 0 (findBinding (metered w) ns tenant grp) (findBinding w ns tenant grp)"
  unfolding findBinding_def try_bind_def
  by (rule meters_bind [where j = 0 and k = 0, simplified])
    (auto intro!: meters_read meters_return split: sum.split list.split)

lemma register_attempts_meters:
  "meters left (register_attempts (metered w) ns tenant grp c left) (register_attempts w ns tenant grp c left)"
proof (induction left)
  case 0
  show ?case by (simp add: meters_return)
next
  case (Suc left)
  then show ?case
    by (auto simp: Let_def meters_return
      intro!: meters_bind [where j = 0, simplified, OF findBinding_meters] meters_read meters_patch
      split: sum.split option.split)
qed

lemma unregister_attempts_meters:
  "meters left (unregister_attempts (metered w) k c left) (unregister_attempts w k c left)"
proof (induction left)
  case 0
  show ?case by (simp add: meters_return)
next
  case (Suc left)
  then show ?case
    by (auto simp: Let_def meters_return intro!: meters_read meters_patch split: sum.split option.split)
qed

lemma unregister_items_meters:
  "meters maxPatchRetries (unregister_items (metered w) c items) (unregister_items w c items)"
  by (induction items) (simp_all add: meters_return unregister_attempts_meters)

lemma registry_meters:
  "meters maxPatchRetries (registry_Register (metered w) ns info) (registry_Register w ns info)"
  "meters maxPatchRetries (registry_Unregister (metered w) ns c) (registry_Unregister w ns c)"
  by (simp_all add: registry_Register_def Let_def meters_return register_attempts_meters)
    (auto simp: registry_Unregister_def meters_return
      intro!: meters_read unregister_items_meters split: sum.split)

section \<open>Under permanent contention\<close>

text \<open>
  A world in which every read finds a binding that holds the collector's entry, and every patch of a
  binding conflicts.
\<close>

definition contended :: "('s, 'e) world \<Rightarrow> string \<Rightarrow> bool" where
  "contended w c \<longleftrightarrow>
     (\<forall>obj base s. \<exists>e. result_of (client_StatusPatch (CollectorGroupBindings w) obj base) s = Inl e \<and> IsConflict w e) \<and>
     (\<forall>ns sel s. \<exists>b bs. result_of (client_List (CollectorGroupBindings w) ns sel) s = Inr (b # bs) \<and>
        c \<in> CollectorID ` set (RegisteredTenants (Status b))) \<and>
     (\<forall>ns n s. \<exists>b. result_of (client_Get (CollectorGroupBindings w) ns n) s = Inr b \<and>
        c \<in> CollectorID ` set (RegisteredTenants (Status b)))"

lemma contendedD:
  assumes "contended w c"
  shows "\<exists>e. result_of (client_StatusPatch (CollectorGroupBindings w) obj base) s = Inl e \<and> IsConflict w e"
    and "\<exists>b bs. result_of (client_List (CollectorGroupBindings w) ns sel) s = Inr (b # bs) \<and>
      c \<in> CollectorID ` set (RegisteredTenants (Status b))"
    and "\<exists>b. result_of (client_Get (CollectorGroupBindings w) ns n) s = Inr b \<and>
      c \<in> CollectorID ` set (RegisteredTenants (Status b))"
  using assms unfolding contended_def by blast+

lemma indexed:
  "c \<in> CollectorID ` set ts \<Longrightarrow> \<not> indexTenantByCollectorID ts c < 0"
  by (cases ts c rule: indexTenant_cases) auto

lemma conflict_errors:
  assumes "contended w c"
  obtains err where "\<And>obj base s. result_of (client_StatusPatch (CollectorGroupBindings w) obj base) s = Inl (err obj base s)"
    "\<And>obj base s. IsConflict w (err obj base s)"
  using contendedD(1) [OF assms] by metis

lemma findBinding_contended:
  assumes "contended w c" "tenant \<noteq> ''''"
  obtains b where "run_state (findBinding (metered w) ns tenant grp) (s, n) =
    (Inr (Some b), (state_after (findBinding w ns tenant grp) s, n))"
proof -
  obtain b bs where "result_of (client_List (CollectorGroupBindings w) ns (MatchingFields IndexTenantRef tenant)) s = Inr (b # bs)"
    using contendedD(2) [OF assms(1)] by blast
  with assms(2) that show ?thesis by (simp add: findBinding_def try_bind_def)
qed

text \<open>Every attempt that is left patches once, and the last one reports its conflict.\<close>

lemma register_attempts_contended:
  assumes "contended w c" "tenant \<noteq> ''''" "left < maxPatchRetries"
  shows "snd (state_after (register_attempts (metered w) ns tenant grp c (Suc left)) (s, n)) = n + Suc left \<and>
    (\<exists>f args e. result_of (register_attempts (metered w) ns tenant grp c (Suc left)) (s, n) =
      Some (Errorf f args (Some (ApiError e))) \<and> IsConflict w e)"
  using assms(3)
proof (induction left arbitrary: s n)
  case 0
  obtain b where b: "run_state (findBinding (metered w) ns tenant grp) (s, n) =
    (Inr (Some b), (state_after (findBinding w ns tenant grp) s, n))" by (rule findBinding_contended [OF assms(1,2)])
  obtain err where "\<And>obj base s. result_of (client_StatusPatch (CollectorGroupBindings w) obj base) s = Inl (err obj base s)"
    "\<And>obj base s. IsConflict w (err obj base s)" using conflict_errors [OF assms(1)] by blast
  with 0 show ?case by (simp add: b Let_def)
next
  case (Suc left)
  obtain b where b: "run_state (findBinding (metered w) ns tenant grp) (s, n) =
    (Inr (Some b), (state_after (findBinding w ns tenant grp) s, n))" by (rule findBinding_contended [OF assms(1,2)])
  obtain err where err: "\<And>obj base s. result_of (client_StatusPatch (CollectorGroupBindings w) obj base) s = Inl (err obj base s)"
    "\<And>obj base s. IsConflict w (err obj base s)" using conflict_errors [OF assms(1)] by blast
  from Suc.prems have "left < maxPatchRetries" "maxPatchRetries - Suc (Suc left) < maxPatchRetries - Suc 0" by simp_all
  with Suc.IH show ?case
    by (subst (1 2) register_attempts.simps(2)) (simp add: b err Let_def del: register_attempts.simps)
qed

lemma unregister_attempts_contended:
  assumes "contended w c" "left < maxPatchRetries"
  shows "snd (state_after (unregister_attempts (metered w) k c (Suc left)) (s, n)) = n + Suc left \<and>
    (\<exists>f args e. result_of (unregister_attempts (metered w) k c (Suc left)) (s, n) =
      Some (Errorf f args (Some (ApiError e))) \<and> IsConflict w e)"
  using assms(2)
proof (induction left arbitrary: s n)
  case 0
  obtain b where b: "result_of (client_Get (CollectorGroupBindings w) (fst k) (snd k)) s = Inr b"
    "\<not> indexTenantByCollectorID (RegisteredTenants (Status b)) c < 0" using contendedD(3) [OF assms(1)] indexed by blast
  obtain err where "\<And>obj base s. result_of (client_StatusPatch (CollectorGroupBindings w) obj base) s = Inl (err obj base s)"
    "\<And>obj base s. IsConflict w (err obj base s)" using conflict_errors [OF assms(1)] by blast
  with 0 b show ?case by (simp add: Let_def)
next
  case (Suc left)
  obtain b where b: "result_of (client_Get (CollectorGroupBindings w) (fst k) (snd k)) s = Inr b"
    "\<not> indexTenantByCollectorID (RegisteredTenants (Status b)) c < 0" using contendedD(3) [OF assms(1)] indexed by blast
  obtain err where err: "\<And>obj base s. result_of (client_StatusPatch (CollectorGroupBindings w) obj base) s = Inl (err obj base s)"
    "\<And>obj base s. IsConflict w (err obj base s)" using conflict_errors [OF assms(1)] by blast
  from Suc.prems have "left < maxPatchRetries" "maxPatchRetries - Suc (Suc left) < maxPatchRetries - Suc 0" by simp_all
  with Suc.IH show ?case
    by (subst (1 2) unregister_attempts.simps(2)) (simp add: b err Let_def del: unregister_attempts.simps)
qed

lemma registry_contended:
  assumes "contended w c" "map_get (info_LocalAttributes info) ''tenant'' \<noteq> ''''" "info_ID info = c"
  shows "snd (state_after (registry_Register (metered w) ns info) (s, n)) = n + maxPatchRetries"
    and "\<exists>f args e. result_of (registry_Register (metered w) ns info) (s, n) =
      Some (Errorf f args (Some (ApiError e))) \<and> IsConflict w e"
    and "snd (state_after (registry_Unregister (metered w) ns c) (s, n)) = n + maxPatchRetries"
    and "\<exists>f args e. result_of (registry_Unregister (metered w) ns c) (s, n) =
      Some (Errorf f args (Some (ApiError e))) \<and> IsConflict w e"
proof -
  obtain left where left: "maxPatchRetries = Suc left" by (cases maxPatchRetries) (simp_all add: maxPatchRetries_def)
  obtain b bs where b: "result_of (client_List (CollectorGroupBindings w) ns InNamespace) s = Inr (b # bs)"
    "\<not> indexTenantByCollectorID (RegisteredTenants (Status b)) c < 0" using contendedD(2) [OF assms(1)] indexed by blast
  note runs = register_attempts_contended [OF assms(1,2), of left] unregister_attempts_contended [OF assms(1), of left]
  show "snd (state_after (registry_Register (metered w) ns info) (s, n)) = n + maxPatchRetries"
    and "\<exists>f args e. result_of (registry_Register (metered w) ns info) (s, n) =
      Some (Errorf f args (Some (ApiError e))) \<and> IsConflict w e"
    using runs(1) assms left by (simp_all add: registry_Register_def Let_def del: register_attempts.simps)
  show "snd (state_after (registry_Unregister (metered w) ns c) (s, n)) = n + maxPatchRetries"
    and "\<exists>f args e. result_of (registry_Unregister (metered w) ns c) (s, n) =
      Some (Errorf f args (Some (ApiError e))) \<and> IsConflict w e"
    using runs(2) b left by (simp_all add: registry_Unregister_def del: unregister_attempts.simps)
qed

section \<open>Properties\<close>

text \<open>The errors of a failed registration or unregistration name the call that failed.\<close>

lemma registry_errors:
  "result_of (registry_Register w ns info) s = Some e \<Longrightarrow>
     (\<exists>f args err. e = Errorf f args (Some (ApiError err))) \<or>
     e = Errorf ''collector %q has no tenant attribute; skipping registration'' [info_ID info] None"
  "result_of (registry_Unregister w ns c) s = Some e \<Longrightarrow> \<exists>f args err. e = Errorf f args (Some (ApiError err))"
  by (auto simp: registry_Register_def maxPatchRetries_def eval_nat_numeral Let_def
      simp del: register_attempts.simps dest!: register_attempts_error split: if_splits)
    (auto simp: registry_Unregister_def dest!: unregister_items_error split: sum.splits)


text \<open>A server on which every patch of a binding conflicts.\<close>

definition always_binding :: CollectorGroupBinding where
  "always_binding = sample_binding ''bt'' '''' ''t1'' ''base'' '''' '''' [sample_tenant ''t1'' ''c1'' 5] [] None"

definition conflict_client :: "('s, mem_error, CollectorGroupBinding) resource_client" where
  "conflict_client =
     \<lparr>client_Get = \<lambda>ns n. State_Monad.return (Inr always_binding),
      client_List = \<lambda>ns sel. State_Monad.return (Inr [always_binding]),
      client_Update = \<lambda>obj. State_Monad.return (Inl ConflictError),
      client_StatusUpdate = \<lambda>obj. State_Monad.return (Inl ConflictError),
      client_StatusPatch = \<lambda>obj base. State_Monad.return (Inl ConflictError)\<rparr>"

lemma conflict_client_contended: "contended (mem_world\<lparr>CollectorGroupBindings := conflict_client\<rparr>) ''c1''"
  by (simp add: contended_def conflict_client_def always_binding_def mem_world_def)


end
