(* ===== verification/Server.thy ===== *)
theory Server
  imports Prelude
begin

text \<open>
  The Connect-RPC server as a Runnable of the manager (\<open>internal/server/server.go\<close>): \<open>Start\<close> runs the
  HTTP server in a goroutine and waits for it or for the cancellation of its context. The two
  threads share a channel of capacity one; they are a step relation. \<open>ListenAndServe\<close> and
  \<open>Shutdown\<close> belong to \<open>net/http\<close>: the first returns an error of its own at any time and
  \<open>ErrServerClosed\<close> only after \<open>Shutdown\<close> was called, the second returns nil or an error when the
  shutdown timeout expires.
\<close>

section \<open>The server\<close>

text \<open>
  The wrapped \<open>http.Server\<close>: its address, its handler and the protocols it speaks without TLS.
\<close>

record 'h ConnectServer =
  cs_Addr :: string
  cs_Handler :: 'h
  cs_HTTP1 :: bool
  cs_HTTP2 :: bool
  cs_UnencryptedHTTP2 :: bool

definition NewConnectServer :: "'h \<Rightarrow> string \<Rightarrow> 'h ConnectServer" where
  "NewConnectServer handler addr =
     \<lparr>cs_Addr = addr, cs_Handler = handler, cs_HTTP1 = True, cs_HTTP2 = False, cs_UnencryptedHTTP2 = True\<rparr>"

section \<open>State\<close>

datatype 'x main_thread = Selecting | ShuttingDown | Returned "'x option"

datatype 'x serve_thread = Listening | Sending 'x | Closing | Finished

record 'x server =
  srv_main :: "'x main_thread"
  srv_serve :: "'x serve_thread"
  srv_err :: "'x option"
  srv_errCh :: "'x list"
  srv_closed :: bool
  srv_ctxDone :: bool
  srv_shutdown :: bool

definition errCh_capacity :: nat where
  "errCh_capacity = 1"

definition Start_init :: "'x server" where
  "Start_init =
     \<lparr>srv_main = Selecting, srv_serve = Listening, srv_err = None, srv_errCh = [], srv_closed = False,
      srv_ctxDone = False, srv_shutdown = False\<rparr>"

text \<open>\<open>NeedLeaderElection\<close>: every replica serves.\<close>

definition NeedLeaderElection :: bool where
  "NeedLeaderElection = False"

section \<open>Steps\<close>

inductive Start_step :: "'x server \<Rightarrow> 'x server \<Rightarrow> bool" where
  cancel: "Start_step s (s\<lparr>srv_ctxDone := True\<rparr>)"
| listen_error: "srv_serve s = Listening \<Longrightarrow> Start_step s (s\<lparr>srv_serve := Sending err, srv_err := Some err\<rparr>)"
| server_closed: "srv_serve s = Listening \<Longrightarrow> srv_shutdown s \<Longrightarrow> Start_step s (s\<lparr>srv_serve := Closing\<rparr>)"
| send: "srv_serve s = Sending err \<Longrightarrow> length (srv_errCh s) < errCh_capacity \<Longrightarrow>
    Start_step s (s\<lparr>srv_serve := Closing, srv_errCh := srv_errCh s @ [err]\<rparr>)"
| close_ch: "srv_serve s = Closing \<Longrightarrow> Start_step s (s\<lparr>srv_serve := Finished, srv_closed := True\<rparr>)"
| receive: "srv_main s = Selecting \<Longrightarrow> srv_errCh s = err # rest \<Longrightarrow>
    Start_step s (s\<lparr>srv_main := Returned (Some err), srv_errCh := rest\<rparr>)"
| receive_closed: "srv_main s = Selecting \<Longrightarrow> srv_errCh s = [] \<Longrightarrow> srv_closed s \<Longrightarrow>
    Start_step s (s\<lparr>srv_main := Returned None\<rparr>)"
| ctx_done: "srv_main s = Selecting \<Longrightarrow> srv_ctxDone s \<Longrightarrow>
    Start_step s (s\<lparr>srv_main := ShuttingDown, srv_shutdown := True\<rparr>)"
| shutdown_returns: "srv_main s = ShuttingDown \<Longrightarrow> Start_step s (s\<lparr>srv_main := Returned res\<rparr>)"

inductive_cases Start_stepE: "Start_step s s'"

definition Start_reaches :: "'x server \<Rightarrow> bool" where
  "Start_reaches s \<longleftrightarrow> Start_step\<^sup>*\<^sup>* Start_init s"

section \<open>Invariant\<close>

text \<open>
  While the goroutine has not reported, the channel is empty and open; the main thread calls
  Shutdown only after the context was cancelled and leaves the select without cancellation only
  with an error of the listener.
\<close>

definition server_inv :: "'x server \<Rightarrow> bool" where
  "server_inv s \<longleftrightarrow>
     (srv_serve s = Listening \<or> (\<exists>e. srv_serve s = Sending e) \<longrightarrow> srv_errCh s = []) \<and>
     (\<forall>e. srv_serve s = Sending e \<longrightarrow> srv_err s = Some e) \<and>
     (srv_serve s = Listening \<longrightarrow> srv_err s = None) \<and>
     (\<forall>e \<in> set (srv_errCh s). srv_err s = Some e) \<and>
     (srv_closed s \<longrightarrow> srv_serve s = Finished) \<and>
     (srv_shutdown s \<longrightarrow> srv_ctxDone s) \<and>
     (srv_main s = Selecting \<longrightarrow> \<not> srv_shutdown s) \<and>
     (srv_main s = ShuttingDown \<longrightarrow> srv_shutdown s) \<and>
     (srv_main s = Selecting \<and> srv_serve s \<in> {Closing, Finished} \<longrightarrow> srv_errCh s \<noteq> []) \<and>
     (\<forall>res. srv_main s = Returned res \<and> \<not> srv_shutdown s \<longrightarrow>
        res = srv_err s \<and> res \<noteq> None \<and> srv_serve s \<noteq> Listening)"

lemma server_inv_init: "server_inv Start_init"
  by (simp add: server_inv_def Start_init_def)

lemma server_inv_step: "Start_step s s' \<Longrightarrow> server_inv s \<Longrightarrow> server_inv s'"
  by (induction rule: Start_step.induct) (auto simp: server_inv_def)

lemma server_inv_reaches: "Start_reaches s \<Longrightarrow> server_inv s"
  unfolding Start_reaches_def
  by (induction rule: rtranclp_induct) (auto intro: server_inv_init server_inv_step)

section \<open>Properties\<close>



text \<open>
  C25: An error of the listener that is reported while the context is alive is what \<open>Start\<close> returns:
  without cancellation \<open>Start\<close> returns exactly the error \<open>ListenAndServe\<close> returned.
\<close>

theorem listener_error_is_returned:
  assumes "Start_reaches s" and "\<not> srv_ctxDone s" and "srv_main s \<noteq> Selecting"
  shows "\<exists>e. srv_err s = Some e \<and> srv_main s = Returned (Some e)"
proof -
  have "server_inv s" by (rule server_inv_reaches [OF assms(1)])
  with assms(2,3) show ?thesis
    by (cases "srv_main s") (auto simp: server_inv_def)
qed

definition sample_failed_server :: "string server" where
  "sample_failed_server =
     \<lparr>srv_main = Returned (Some ''address in use''), srv_serve = Closing, srv_err = Some ''address in use'',
      srv_errCh = [], srv_closed = False, srv_ctxDone = False, srv_shutdown = False\<rparr>"

theorem listener_error_is_returned_witness:
  "\<exists>e. srv_err sample_failed_server = Some e \<and> srv_main sample_failed_server = Returned (Some e)"
proof (rule listener_error_is_returned)
  define a :: "string server" where
    "a = Start_init\<lparr>srv_serve := Sending ''address in use'', srv_err := Some ''address in use''\<rparr>"
  define b where "b = a\<lparr>srv_serve := Closing, srv_errCh := srv_errCh a @ [''address in use'']\<rparr>"
  have a: "Start_step Start_init a" unfolding a_def by (rule Start_step.listen_error) (simp add: Start_init_def)
  have b: "Start_step a b" unfolding b_def
    by (rule Start_step.send) (simp_all add: a_def Start_init_def errCh_capacity_def)
  have "Start_step b (b\<lparr>srv_main := Returned (Some ''address in use''), srv_errCh := []\<rparr>)"
    by (rule Start_step.receive) (simp_all add: a_def b_def Start_init_def)
  moreover have "b\<lparr>srv_main := Returned (Some ''address in use''), srv_errCh := []\<rparr> = sample_failed_server"
    by (simp add: a_def b_def Start_init_def sample_failed_server_def)
  ultimately have c: "Start_step b sample_failed_server" by simp
  show "Start_reaches sample_failed_server"
    unfolding Start_reaches_def
    using a b c by (blast intro: converse_rtranclp_into_rtranclp)
qed (simp_all add: sample_failed_server_def)

end
