(* ===== verification/Operator_Main.thy ===== *)
theory Operator_Main
  imports Interceptor Server
begin

text \<open>
  The start of the operator (\<open>cmd/main.go\<close>): its flags, the options it hands to the manager, and the
  sequence of fallible set-up calls, each of which ends the process when it fails. The scheme, the
  manager and the metrics registry of controller-runtime are a record of operations; the parsed flags, the
  contents of the namespace file and the build information are arguments.
\<close>

section \<open>Scheme\<close>

text \<open>
  The API group (\<open>groupversion_info.go\<close>) and the kinds that the \<open>init\<close> functions of the type files
  register with it. \<open>AddKnownTypes\<close> stands for the scheme builder of controller-runtime, which adds kinds
  to a scheme or reports an error.
\<close>

record GroupVersion =
  gv_Group :: string
  gv_Version :: string

definition fleet_GroupVersion :: GroupVersion where
  "fleet_GroupVersion = \<lparr>gv_Group = ''fleet.pkarakal.com'', gv_Version = ''v1alpha1''\<rparr>"

definition CollectorGroup_init :: "string list" where
  "CollectorGroup_init = [''CollectorGroup'', ''CollectorGroupList'']"

definition CollectorGroupBinding_init :: "string list" where
  "CollectorGroupBinding_init = [''CollectorGroupBinding'', ''CollectorGroupBindingList'']"

definition PipelineConfig_init :: "string list" where
  "PipelineConfig_init = [''PipelineConfig'', ''PipelineConfigList'']"

definition SchemeBuilder_kinds :: "string list" where
  "SchemeBuilder_kinds = CollectorGroup_init @ CollectorGroupBinding_init @ PipelineConfig_init"

type_synonym scheme = "(GroupVersion \<times> string) list"

definition AddToScheme :: "(GroupVersion \<Rightarrow> string list \<Rightarrow> scheme \<Rightarrow> 'x + scheme) \<Rightarrow> scheme \<Rightarrow> 'x + scheme" where
  "AddToScheme addKnownTypes sch = addKnownTypes fleet_GroupVersion SchemeBuilder_kinds sch"

section \<open>Flags\<close>

record flags =
  f_connectAddr :: string
  f_namespace :: string
  f_collectorTTL :: Duration
  f_metricsAddr :: string
  f_metricsCertPath :: string
  f_metricsCertName :: string
  f_metricsCertKey :: string
  f_webhookCertPath :: string
  f_webhookCertName :: string
  f_webhookCertKey :: string
  f_enableLeaderElection :: bool
  f_probeAddr :: string
  f_secureMetrics :: bool
  f_enableHTTP2 :: bool

text \<open>\<open>file\<close> is the content of the service account's namespace file, if it can be read.\<close>

definition detectNamespace :: "string option \<Rightarrow> string" where
  "detectNamespace file = (case file of Some ns \<Rightarrow> ns | None \<Rightarrow> ''default'')"

text \<open>The value of every flag that is not given on the command line.\<close>

definition default_flags :: "string option \<Rightarrow> flags" where
  "default_flags file =
     \<lparr>f_connectAddr = '':12345'',
      f_namespace = detectNamespace file,
      f_collectorTTL = 5 * 60 * 1000000000,
      f_metricsAddr = ''0'',
      f_metricsCertPath = '''',
      f_metricsCertName = ''tls.crt'',
      f_metricsCertKey = ''tls.key'',
      f_webhookCertPath = '''',
      f_webhookCertName = ''tls.crt'',
      f_webhookCertKey = ''tls.key'',
      f_enableLeaderElection = False,
      f_probeAddr = '':8081'',
      f_secureMetrics = True,
      f_enableHTTP2 = False\<rparr>"

section \<open>Options\<close>

record tls_Config =
  NextProtos :: "string list"

definition disableHTTP2 :: "tls_Config \<Rightarrow> tls_Config" where
  "disableHTTP2 c = c\<lparr>NextProtos := [''http/1.1'']\<rparr>"

definition tlsOpts :: "flags \<Rightarrow> (tls_Config \<Rightarrow> tls_Config) list" where
  "tlsOpts f = (if \<not> f_enableHTTP2 f then [] @ [disableHTTP2] else [])"

record server_Options =
  so_BindAddress :: string
  so_SecureServing :: bool
  so_TLSOpts :: "(tls_Config \<Rightarrow> tls_Config) list"
  so_AuthFilter :: bool
  so_CertDir :: string
  so_CertName :: string
  so_KeyName :: string

text \<open>
  The options of the webhook server leave the address, the serving mode and the filter alone; the
  metrics server is given all of them.
\<close>

definition webhookServerOptions :: "flags \<Rightarrow> server_Options" where
  "webhookServerOptions f =
     (let opts = \<lparr>so_BindAddress = '''', so_SecureServing = False, so_TLSOpts = tlsOpts f, so_AuthFilter = False,
                  so_CertDir = '''', so_CertName = '''', so_KeyName = ''''\<rparr>
      in if 0 < length (f_webhookCertPath f)
         then opts\<lparr>so_CertDir := f_webhookCertPath f, so_CertName := f_webhookCertName f,
                   so_KeyName := f_webhookCertKey f\<rparr>
         else opts)"

definition metricsServerOptions :: "flags \<Rightarrow> server_Options" where
  "metricsServerOptions f =
     (let opts = \<lparr>so_BindAddress = f_metricsAddr f, so_SecureServing = f_secureMetrics f, so_TLSOpts = tlsOpts f,
                  so_AuthFilter = False, so_CertDir = '''', so_CertName = '''', so_KeyName = ''''\<rparr>;
          opts = (if f_secureMetrics f then opts\<lparr>so_AuthFilter := True\<rparr> else opts)
      in if 0 < length (f_metricsCertPath f)
         then opts\<lparr>so_CertDir := f_metricsCertPath f, so_CertName := f_metricsCertName f,
                   so_KeyName := f_metricsCertKey f\<rparr>
         else opts)"

record manager_Options =
  mo_Scheme :: scheme
  mo_Metrics :: server_Options
  mo_WebhookServer :: server_Options
  mo_HealthProbeBindAddress :: string
  mo_LeaderElection :: bool
  mo_LeaderElectionID :: string

definition ctrl_Options :: "scheme \<Rightarrow> flags \<Rightarrow> manager_Options" where
  "ctrl_Options sch f =
     \<lparr>mo_Scheme = sch, mo_Metrics = metricsServerOptions f, mo_WebhookServer = webhookServerOptions f,
      mo_HealthProbeBindAddress = f_probeAddr f, mo_LeaderElection = f_enableLeaderElection f,
      mo_LeaderElectionID = ''2b7656c3.pkarakal.com''\<rparr>"

section \<open>Controllers and handlers\<close>

datatype reconciler =
    CollectorGroupReconciler
  | PipelineConfigReconciler
  | CollectorGroupBindingReconciler BindingReconciler

record controller_spec =
  ctl_For :: string
  ctl_Watches :: "string list"
  ctl_Named :: string
  ctl_Reconciler :: reconciler

text \<open>
  What is mounted on the mux (the service of a namespace behind its interceptors, the reflection
  handler) and the instrumentation around it.
\<close>

datatype mounted = CollectorServiceHandler string "string list" | ReflectionHandlerV1 "string list"

datatype http_handler =
    ServeMux "mounted list"
  | InstrumentHandlerDuration metric_opts http_handler
  | InstrumentHandlerCounter metric_opts http_handler

definition connectHandler :: "HTTPMetrics \<Rightarrow> string \<Rightarrow> http_handler" where
  "connectHandler httpMetrics ns =
     (let mux = ServeMux
            [CollectorServiceHandler ns [''MetricsInterceptor''],
             ReflectionHandlerV1 [''collector.v1.CollectorService'']];
          connectHandler = InstrumentHandlerDuration (http_RequestDuration httpMetrics) mux
      in InstrumentHandlerCounter (http_RequestsTotal httpMetrics) connectHandler)"

section \<open>The start-up sequence\<close>

text \<open>What \<open>main\<close> calls outside the program; every fallible call returns an error or nothing.\<close>

record ('m, 'x) manager_api =
  ClientgoAddToScheme :: "scheme \<Rightarrow> 'x + scheme"
  AddKnownTypes :: "GroupVersion \<Rightarrow> string list \<Rightarrow> scheme \<Rightarrow> 'x + scheme"
  GetRESTConfig :: "('m, 'x option) state"
  NewManager :: "manager_Options \<Rightarrow> ('m, 'x option) state"
  CompleteController :: "controller_spec \<Rightarrow> ('m, 'x option) state"
  IndexField :: "string \<Rightarrow> (CollectorGroupBinding \<Rightarrow> string list) \<Rightarrow> ('m, 'x option) state"
  RegisterMetric :: "collector \<Rightarrow> ('m, 'x option) state"
  SetGauge :: "string list \<times> int \<Rightarrow> ('m, unit) state"
  AddRunnable :: "http_handler ConnectServer \<Rightarrow> ('m, 'x option) state"
  AddHealthzCheck :: "string \<Rightarrow> ('m, 'x option) state"
  AddReadyzCheck :: "string \<Rightarrow> ('m, 'x option) state"
  StartManager :: "('m, 'x option) state"

record build_env =
  env_ServiceVersion :: string
  env_goVersion :: string
  env_buildInfo :: "(string \<times> string) list option"

definition CollectorGroup_SetupWithManager :: "('m, 'x) manager_api \<Rightarrow> ('m, 'x option) state" where
  "CollectorGroup_SetupWithManager api =
     CompleteController api \<lparr>ctl_For = ''CollectorGroup'', ctl_Watches = [], ctl_Named = ''collectorgroup'',
       ctl_Reconciler = CollectorGroupReconciler\<rparr>"

definition PipelineConfig_SetupWithManager :: "('m, 'x) manager_api \<Rightarrow> ('m, 'x option) state" where
  "PipelineConfig_SetupWithManager api =
     CompleteController api \<lparr>ctl_For = ''PipelineConfig'', ctl_Watches = [], ctl_Named = ''pipelineconfig'',
       ctl_Reconciler = PipelineConfigReconciler\<rparr>"

definition CollectorGroupBinding_SetupWithManager ::
  "('m, 'x) manager_api \<Rightarrow> BindingReconciler \<Rightarrow> ('m, 'x option) state" where
  "CollectorGroupBinding_SetupWithManager api r =
     binding_SetupWithManager (IndexField api)
       (CompleteController api \<lparr>ctl_For = ''CollectorGroupBinding'', ctl_Watches = [''PipelineConfig''],
          ctl_Named = ''collectorgroupbinding'', ctl_Reconciler = CollectorGroupBindingReconciler r\<rparr>)"

text \<open>
  How the process ends: by a panic (\<open>utilruntime.Must\<close>), by an exit of the library that could not find
  a configuration of the cluster (\<open>GetConfigOrDie\<close>), by an exit of \<open>main\<close> after it has logged a message
  with arguments, or by a return.
\<close>

datatype 'x outcome = Panics 'x | Dies 'x | Exit1 string "string list" 'x | Returns

definition Must :: "'x + 'a \<Rightarrow> ('a \<Rightarrow> ('m, 'x outcome) state) \<Rightarrow> ('m, 'x outcome) state" where
  "Must r rest = (case r of Inl e \<Rightarrow> State_Monad.return (Panics e) | Inr a \<Rightarrow> rest a)"

definition or_fail ::
  "('x \<Rightarrow> 'x outcome) \<Rightarrow> ('m, 'x option) state \<Rightarrow> ('m, 'x outcome) state \<Rightarrow> ('m, 'x outcome) state" where
  "or_fail fail call rest =
     do { err \<leftarrow> call;
          case err of Some e \<Rightarrow> State_Monad.return (fail e) | None \<Rightarrow> rest }"

definition GetConfigOrDie :: "('m, 'x) manager_api \<Rightarrow> ('m, 'x outcome) state \<Rightarrow> ('m, 'x outcome) state" where
  "GetConfigOrDie api rest = or_fail Dies (GetRESTConfig api) rest"

text \<open>\<open>setupLog.Error(err, msg); os.Exit(1)\<close> when a call fails.\<close>

definition or_exit ::
  "('m, 'x option) state \<Rightarrow> string \<Rightarrow> string list \<Rightarrow> ('m, 'x outcome) state \<Rightarrow> ('m, 'x outcome) state" where
  "or_exit call msg args rest = or_fail (Exit1 msg args) call rest"

text \<open>\<open>init\<close>, then \<open>main\<close> from the point where the flags are parsed.\<close>

definition operator_main :: "('m, 'x) manager_api \<Rightarrow> build_env \<Rightarrow> flags \<Rightarrow> ('m, 'x outcome) state" where
  "operator_main api env f =
     Must (ClientgoAddToScheme api []) (\<lambda>scheme.
     Must (AddToScheme (AddKnownTypes api) scheme) (\<lambda>scheme.
     GetConfigOrDie api (
     or_exit (NewManager api (ctrl_Options scheme f)) ''Failed to start manager'' [] (
     or_exit (CollectorGroup_SetupWithManager api) ''Failed to create controller'' [''CollectorGroup''] (
     or_exit (PipelineConfig_SetupWithManager api) ''Failed to create controller'' [''PipelineConfig''] (
     let rpcMetrics = NewRPCMetrics;
         resMetrics = NewResolutionMetrics;
         rc = NewResourceCollector (f_namespace f);
         buildInfo = NewBuildInfoMetric;
         ctrlMetrics = NewControllerMetrics;
         httpMetrics = NewHTTPMetrics
     in or_exit (metrics_Register (RegisterMetric api) rpcMetrics resMetrics rc buildInfo ctrlMetrics httpMetrics)
          ''Failed to register custom metrics'' [] (
     do { _ \<leftarrow> SetGauge api (BuildInfo_Set (env_ServiceVersion env) (env_goVersion env) (env_buildInfo env));
     or_exit (CollectorGroupBinding_SetupWithManager api \<lparr>CollectorTTL = f_collectorTTL f, MetricsEnabled = True\<rparr>)
       ''Failed to create controller'' [''CollectorGroupBinding''] (
     let connectServer = NewConnectServer (connectHandler httpMetrics (f_namespace f)) (f_connectAddr f)
     in or_exit (AddRunnable api connectServer) ''Failed to add Connect-RPC server to manager'' [] (
     or_exit (AddHealthzCheck api ''healthz'') ''Failed to set up health check'' [] (
     or_exit (AddReadyzCheck api ''readyz'') ''Failed to set up ready check'' [] (
     or_exit (StartManager api) ''Failed to run manager'' [] (
     State_Monad.return Returns))))) })))))))"

section \<open>Lemmas: the sequence as a list of steps\<close>

text \<open>A step is a call and the way in which its error ends the process.\<close>

type_synonym ('m, 'x) step = "('m, 'x option) state \<times> ('x \<Rightarrow> 'x outcome)"

definition main_scheme :: "('m, 'x) manager_api \<Rightarrow> 'x + scheme" where
  "main_scheme api =
     (case ClientgoAddToScheme api [] of Inl e \<Rightarrow> Inl e | Inr scheme \<Rightarrow> AddToScheme (AddKnownTypes api) scheme)"

definition startup_steps :: "('m, 'x) manager_api \<Rightarrow> build_env \<Rightarrow> flags \<Rightarrow> ('m, 'x) step list" where
  "startup_steps api env f =
     [(State_Monad.return (err_of (ClientgoAddToScheme api [])), Panics),
      (State_Monad.return (err_of (main_scheme api)), Panics),
      (GetRESTConfig api, Dies),
      (NewManager api (ctrl_Options (case main_scheme api of Inl _ \<Rightarrow> [] | Inr scheme \<Rightarrow> scheme) f),
         Exit1 ''Failed to start manager'' []),
      (CollectorGroup_SetupWithManager api, Exit1 ''Failed to create controller'' [''CollectorGroup'']),
      (PipelineConfig_SetupWithManager api, Exit1 ''Failed to create controller'' [''PipelineConfig'']),
      (register_loop (RegisterMetric api) (operator_collectors (f_namespace f)),
         Exit1 ''Failed to register custom metrics'' []),
      (SetGauge api (BuildInfo_Set (env_ServiceVersion env) (env_goVersion env) (env_buildInfo env)) \<bind>
         (\<lambda>_. State_Monad.return None), Exit1 '''' []),
      (CollectorGroupBinding_SetupWithManager api \<lparr>CollectorTTL = f_collectorTTL f, MetricsEnabled = True\<rparr>,
         Exit1 ''Failed to create controller'' [''CollectorGroupBinding'']),
      (AddRunnable api (NewConnectServer (connectHandler NewHTTPMetrics (f_namespace f)) (f_connectAddr f)),
         Exit1 ''Failed to add Connect-RPC server to manager'' []),
      (AddHealthzCheck api ''healthz'', Exit1 ''Failed to set up health check'' []),
      (AddReadyzCheck api ''readyz'', Exit1 ''Failed to set up ready check'' []),
      (StartManager api, Exit1 ''Failed to run manager'' [])]"

fun run_steps :: "('m, 'x) step list \<Rightarrow> ('m, 'x outcome) state" where
  "run_steps [] = State_Monad.return Returns"
| "run_steps ((call, fail) # steps) = or_fail fail call (run_steps steps)"

lemma operator_main_steps: "operator_main api env f = run_steps (startup_steps api env f)"
proof -
  have gauge: "or_fail fail (m \<bind> (\<lambda>_. State_Monad.return None)) rest = m \<bind> (\<lambda>_. rest)"
    for m :: "('m, unit) state" and fail and rest :: "('m, 'x outcome) state"
    by (rule state.expand) (simp add: or_fail_def fun_eq_iff split_beta)
  have must: "or_fail Panics (State_Monad.return (err_of r)) rest = Must r (\<lambda>_. rest)"
    for r :: "'x + scheme" and rest :: "('m, 'x outcome) state"
    by (rule state.expand) (simp add: or_fail_def Must_def fun_eq_iff err_of_def split: sum.split)
  show ?thesis
    unfolding operator_main_def startup_steps_def run_steps.simps gauge must GetConfigOrDie_def or_exit_def
      metrics_Register_def operator_collectors_def Let_def
    by (simp add: Must_def main_scheme_def split: sum.split)
qed

text \<open>The state in which step \<open>k\<close> is taken when every step before it was.\<close>

definition state_at :: "('m, 'x) step list \<Rightarrow> nat \<Rightarrow> 'm \<Rightarrow> 'm" where
  "state_at steps k s = fold (\<lambda>step. state_after (fst step)) (take k steps) s"

definition succeeds :: "('m, 'x) step list \<Rightarrow> nat \<Rightarrow> 'm \<Rightarrow> bool" where
  "succeeds steps k s \<longleftrightarrow> result_of (fst (steps ! k)) (state_at steps k s) = None"

lemma state_at_simps [simp]:
  "state_at steps 0 s = s"
  "state_at (step # steps) (Suc k) s = state_at steps k (state_after (fst step) s)"
  by (simp_all add: state_at_def)

lemma succeeds_Cons:
  "succeeds (step # steps) 0 s \<longleftrightarrow> result_of (fst step) s = None"
  "succeeds (step # steps) (Suc k) s \<longleftrightarrow> succeeds steps k (state_after (fst step) s)"
  by (simp_all add: succeeds_def)

lemma run_steps_fail:
  assumes "k < length steps" "\<forall>i<k. succeeds steps i s"
    and "result_of (fst (steps ! k)) (state_at steps k s) = Some e"
  shows "run_state (run_steps steps) s =
    (snd (steps ! k) e, state_at steps (Suc k) s)"
  using assms
proof (induction steps arbitrary: k s)
  case Nil
  then show ?case by simp
next
  case (Cons step steps)
  obtain call fail where step: "step = (call, fail)" by (cases step)
  show ?case
  proof (cases k)
    case 0
    with Cons.prems(3) show ?thesis by (simp add: step or_fail_def split_beta)
  next
    case (Suc j)
    with Cons.prems(2) have "result_of call s = None" by (auto simp: succeeds_Cons(1) step)
    moreover have "\<forall>i<j. succeeds steps i (state_after call s)"
      using Cons.prems(2) Suc by (auto simp: succeeds_Cons(2) step)
    ultimately show ?thesis
      using Cons.IH [of j "state_after call s"] Cons.prems(1,3) Suc by (simp add: step or_fail_def split_beta)
  qed
qed

lemma startup_steps_end: "step \<in> set (startup_steps api env f) \<Longrightarrow> snd step e \<noteq> Returns"
  by (auto simp: startup_steps_def)

lemma run_steps_returns:
  "result_of (run_steps steps) s = Returns \<Longrightarrow> (\<And>step e. step \<in> set steps \<Longrightarrow> snd step e \<noteq> Returns) \<Longrightarrow>
     (\<forall>i < length steps. succeeds steps i s) \<and> state_after (run_steps steps) s = state_at steps (length steps) s"
proof (induction steps arbitrary: s)
  case Nil
  then show ?case by simp
next
  case (Cons step steps)
  obtain call fail where step: "step = (call, fail)" by (cases step)
  with Cons.prems(2) [of step] have "fail e \<noteq> Returns" for e by simp
  with Cons.prems(1) step have none: "result_of call s = None"
    by (cases "result_of call s") (auto simp: or_fail_def split_beta)
  with Cons.prems(1) have "result_of (run_steps steps) (state_after call s) = Returns"
    by (simp add: step or_fail_def split_beta)
  from Cons.IH [OF this Cons.prems(2)] none show ?case
    by (auto simp: step or_fail_def split_beta succeeds_Cons less_Suc_eq_0_disj)
qed

lemma run_steps_succeed:
  "\<forall>i < length steps. succeeds steps i s \<Longrightarrow>
     run_state (run_steps steps) s = (Returns, state_at steps (length steps) s)"
proof (induction steps arbitrary: s)
  case Nil
  then show ?case by simp
next
  case (Cons step steps)
  obtain call fail where step: "step = (call, fail)" by (cases step)
  from Cons.prems have "result_of call s = None" by (auto simp: succeeds_Cons(1) step)
  moreover from Cons.prems have "\<forall>i < length steps. succeeds steps i (state_after call s)"
    by (auto simp: succeeds_Cons(2) step)
  ultimately show ?case using Cons.IH by (simp add: step or_fail_def split_beta)
qed

section \<open>The manager's indexes\<close>

text \<open>
  What the program relies on in a manager: a new one has no field index, an accepted \<open>IndexField\<close> stores
  its extractor under its key, and no other call touches the indexes.
\<close>

locale indexing_manager =
  fixes api :: "('m, 'x) manager_api"
    and indexes :: "'m \<Rightarrow> index_table"
  assumes new_manager: "indexes (state_after (NewManager api opts) s) = Map.empty"
    and index_field: "result_of (IndexField api k f) s = None \<Longrightarrow>
      indexes (state_after (IndexField api k f) s) = (indexes s)(k \<mapsto> f)"
    and complete_frame: "indexes (state_after (CompleteController api c) s) = indexes s"
    and metric_frame: "indexes (state_after (RegisterMetric api m) s) = indexes s"
    and gauge_frame: "indexes (state_after (SetGauge api g) s) = indexes s"
    and runnable_frame: "indexes (state_after (AddRunnable api r) s) = indexes s"
    and healthz_frame: "indexes (state_after (AddHealthzCheck api n) s) = indexes s"
    and readyz_frame: "indexes (state_after (AddReadyzCheck api n) s) = indexes s"
begin

lemma register_loop_frame: "indexes (state_after (register_loop (RegisterMetric api) cs) s) = indexes s"
  by (induction cs arbitrary: s) (simp_all add: metric_frame split_beta)

lemma binding_setup_indexes:
  assumes "result_of (CollectorGroupBinding_SetupWithManager api r) s = None" and "indexes s = Map.empty"
  shows "indexes (state_after (CollectorGroupBinding_SetupWithManager api r) s) = binding_index"
  using assms
  by (simp add: CollectorGroupBinding_SetupWithManager_def binding_SetupWithManager_def split_beta index_field
    complete_frame binding_index_def split: if_splits)

lemma indexes_at_start:
  assumes "\<forall>i < 12. succeeds (startup_steps api env f) i s"
  shows "indexes (state_at (startup_steps api env f) 12 s) = binding_index"
proof -
  let ?steps = "startup_steps api env f"
  have at8: "indexes (state_at ?steps 8 s) = Map.empty"
    by (simp add: state_at_def startup_steps_def eval_nat_numeral register_loop_frame gauge_frame complete_frame
      new_manager CollectorGroup_SetupWithManager_def PipelineConfig_SetupWithManager_def)
  define r where "r = \<lparr>CollectorTTL = f_collectorTTL f, MetricsEnabled = True\<rparr>"
  have eight: "fst (?steps ! 8) = CollectorGroupBinding_SetupWithManager api r"
    by (simp add: startup_steps_def eval_nat_numeral r_def)
  have next_state: "state_at ?steps 12 s = state_after (AddReadyzCheck api ''readyz'') (state_after (AddHealthzCheck api ''healthz'')
      (state_after (AddRunnable api (NewConnectServer (connectHandler NewHTTPMetrics (f_namespace f)) (f_connectAddr f)))
        (state_after (CollectorGroupBinding_SetupWithManager api r) (state_at ?steps 8 s))))"
    by (simp add: state_at_def startup_steps_def eval_nat_numeral r_def)
  from assms have "succeeds ?steps 8 s" by simp
  then have "result_of (CollectorGroupBinding_SetupWithManager api r) (state_at ?steps 8 s) = None"
    by (simp only: succeeds_def eight)
  from binding_setup_indexes [OF this at8] show ?thesis
    by (simp add: next_state readyz_frame healthz_frame runnable_frame)
qed

end

text \<open>A manager that accepts every call and keeps a log of them.\<close>

record trace =
  tr_log :: "string list"
  tr_indexes :: index_table

definition logged :: "string \<Rightarrow> (trace, 'x option) state" where
  "logged e = State (\<lambda>s. (None, s\<lparr>tr_log := tr_log s @ [e]\<rparr>))"

definition trace_manager :: "(trace, unit) manager_api" where
  "trace_manager =
     \<lparr>ClientgoAddToScheme = Inr,
      AddKnownTypes = (\<lambda>gv kinds sch. Inr (sch @ map (Pair gv) kinds)),
      GetRESTConfig = logged ''config'',
      NewManager = (\<lambda>_. State (\<lambda>s. (None, s\<lparr>tr_log := tr_log s @ [''manager''], tr_indexes := Map.empty\<rparr>))),
      CompleteController = (\<lambda>c. logged (ctl_Named c)),
      IndexField = (\<lambda>k f. State (\<lambda>s. (None, s\<lparr>tr_log := tr_log s @ [k], tr_indexes := (tr_indexes s)(k \<mapsto> f)\<rparr>))),
      RegisterMetric = (\<lambda>_. logged ''metric''),
      SetGauge = (\<lambda>_. State (\<lambda>s. ((), s))),
      AddRunnable = (\<lambda>c. logged (cs_Addr c)),
      AddHealthzCheck = logged,
      AddReadyzCheck = logged,
      StartManager = logged ''start''\<rparr>"

interpretation traced: indexing_manager trace_manager tr_indexes
  by unfold_locales (simp_all add: trace_manager_def logged_def)

lemma trace_manager_indexing: "indexing_manager trace_manager tr_indexes"
  by (rule traced.indexing_manager_axioms)

section \<open>Properties\<close>

text \<open>
  C26: The start-up stops at the first call that fails: the process ends the way that call prescribes (a
  panic in \<open>init\<close>, an exit of \<open>GetConfigOrDie\<close>, an exit of \<open>main\<close> with the message of the call), with
  its error, every earlier call was made in the order of the source, and no later one was, so the
  manager is started only after everything was set up. When every call succeeds, \<open>main\<close> returns.
\<close>

theorem startup_fails_fast:
  assumes "steps = startup_steps api env f" and "\<forall>i < k. succeeds steps i s"
  shows "if k < length steps
    then \<forall>e. result_of (fst (steps ! k)) (state_at steps k s) = Some e \<longrightarrow>
           run_state (operator_main api env f) s =
             (snd (steps ! k) e, state_at steps (Suc k) s)
    else run_state (operator_main api env f) s = (Returns, state_at steps (length steps) s)"
  using assms run_steps_fail [of k steps s] run_steps_succeed [of steps s]
  by (auto simp: operator_main_steps)

definition sample_env :: build_env where
  "sample_env = \<lparr>env_ServiceVersion = ''dev'', env_goVersion = ''go1.25'', env_buildInfo = None\<rparr>"

definition refusing_manager :: "(trace, unit) manager_api" where
  "refusing_manager = trace_manager\<lparr>CompleteController := (\<lambda>_. State_Monad.return (Some ()))\<rparr>"

theorem startup_fails_fast_witness:
  "result_of (operator_main refusing_manager sample_env (default_flags None)) \<lparr>tr_log = [], tr_indexes = Map.empty\<rparr> =
     Exit1 ''Failed to create controller'' [''CollectorGroup''] ()"
  using startup_fails_fast [OF refl, of 4 refusing_manager sample_env "default_flags None"
    "\<lparr>tr_log = [], tr_indexes = Map.empty\<rparr>"]
  by (auto simp: startup_steps_def succeeds_Cons succeeds_def refusing_manager_def trace_manager_def logged_def
    CollectorGroup_SetupWithManager_def main_scheme_def AddToScheme_def err_of_def less_Suc_eq eval_nat_numeral)

text \<open>
  C27: When the manager is started, its field indexes are exactly those the resolver, the registry and the
  watch of the binding controller query by; no RPC can be served before.
\<close>

theorem indexes_ready_before_start:
  assumes "indexing_manager api indexes" and "result_of (operator_main api env f) s = Returns"
  shows "\<exists>s1. state_after (operator_main api env f) s = state_after (StartManager api) s1 \<and> indexes s1 = binding_index"
proof -
  let ?steps = "startup_steps api env f"
  from run_steps_returns [of ?steps s, OF _ startup_steps_end] assms(2) have all: "\<forall>i < length ?steps. succeeds ?steps i s"
    and after: "state_after (operator_main api env f) s = state_at ?steps (length ?steps) s"
    by (simp_all add: operator_main_steps)
  have len: "length ?steps = Suc 12" by (simp add: startup_steps_def)
  have "state_at ?steps (length ?steps) s = state_after (StartManager api) (state_at ?steps 12 s)"
    by (simp add: state_at_def startup_steps_def eval_nat_numeral)
  moreover have "indexes (state_at ?steps 12 s) = binding_index"
    using indexing_manager.indexes_at_start [OF assms(1)] all len by simp
  ultimately show ?thesis using after by metis
qed

theorem indexes_ready_before_start_witness:
  "\<exists>s1. state_after (operator_main trace_manager sample_env (default_flags None)) \<lparr>tr_log = [], tr_indexes = Map.empty\<rparr> =
     state_after (StartManager trace_manager) s1 \<and> tr_indexes s1 = binding_index"
proof -
  have "\<forall>i < length (startup_steps trace_manager sample_env (default_flags None)).
      succeeds (startup_steps trace_manager sample_env (default_flags None)) i s" for s
    by (auto simp: succeeds_def startup_steps_def trace_manager_def logged_def less_Suc_eq main_scheme_def AddToScheme_def
      err_of_def
      CollectorGroup_SetupWithManager_def PipelineConfig_SetupWithManager_def register_loop_success
      CollectorGroupBinding_SetupWithManager_def binding_SetupWithManager_def)
  from run_steps_succeed [OF this] show ?thesis
    by (intro indexes_ready_before_start [OF trace_manager_indexing]) (simp add: operator_main_steps)
qed

text \<open>
  The servers of the manager are configured as the flags ask: the TLS configurations of both end up
  offering nothing but HTTP/1.1 unless HTTP/2 was enabled, the metrics endpoint is behind
  authentication exactly when it is served securely, and a certificate is loaded exactly when its path
  was given.
\<close>

theorem manager_options_follow_flags:
  "map (\<lambda>opts. NextProtos (fold (\<lambda>opt. opt) (so_TLSOpts opts) c))
      [mo_Metrics (ctrl_Options sch f), mo_WebhookServer (ctrl_Options sch f)] =
     replicate 2 (if f_enableHTTP2 f then NextProtos c else [''http/1.1'']) \<and>
   so_AuthFilter (mo_Metrics (ctrl_Options sch f)) = so_SecureServing (mo_Metrics (ctrl_Options sch f)) \<and>
   so_SecureServing (mo_Metrics (ctrl_Options sch f)) = f_secureMetrics f \<and>
   so_CertDir (mo_Metrics (ctrl_Options sch f)) = f_metricsCertPath f \<and>
   so_CertDir (mo_WebhookServer (ctrl_Options sch f)) = f_webhookCertPath f"
  by (auto simp: ctrl_Options_def metricsServerOptions_def webhookServerOptions_def tlsOpts_def disableHTTP2_def Let_def eval_nat_numeral)

end
