(* ===== verification/Go_Heap.thy ===== *)
theory Go_Heap
  imports Api_Types
begin

text \<open>
  Go's slices, maps and pointers as far as the program's objects hold them: a heap of backing arrays,
  one region per element type, with slices that share them, and of cells that pointers and maps
  refer to. It is what the in-place updates of tenant lists and the generated deep copies work on.
  A region or cell is given by how it reads and writes the heap; the locales state that it behaves
  like a memory.
\<close>

section \<open>Values\<close>

text \<open>A slice that is not nil: its backing array, where it starts and how long it is.\<close>

record slice =
  sl_arr :: nat
  sl_off :: nat
  sl_len :: nat

text \<open>
  The metadata that the program reads or writes, with what it reaches: a labels map, a slice of
  finalizers and a pointer to the deletion time; and the metadata of a list. A pointer or map that is
  not nil is an address.
\<close>

record go_ObjectMeta =
  g_Namespace :: string
  g_Name :: string
  g_Labels :: "nat option"
  g_Finalizers :: "slice option"
  g_DeletionTimestamp :: "nat option"
  g_Generation :: int64
  g_ResourceVersion :: string

record go_ListMeta =
  g_ListResourceVersion :: string
  g_Continue :: string
  g_RemainingItemCount :: "nat option"

record ('spec, 'status) go_object =
  o_Meta :: go_ObjectMeta
  o_Spec :: 'spec
  o_Status :: 'status

record go_BindingStatus =
  g_Phase :: CollectorGroupBindingPhase
  g_ConfigHash :: string
  g_LastSyncedAt :: Time
  g_Conditions :: "slice option"
  g_ObservedGeneration :: int64
  g_BoundPipelineConfigRef :: string
  g_BoundCollectorGroupRef :: string
  g_RegisteredTenants :: "slice option"

record go_PipelineConfigSpec =
  g_Content :: string
  g_Description :: "nat option"

record go_PipelineConfigStatus =
  g_ContentHash :: string
  g_ActiveBindings :: int64
  g_pcObservedGeneration :: int64
  g_pcConditions :: "slice option"

type_synonym go_CollectorGroupBinding = "(CollectorGroupBindingSpec, go_BindingStatus) go_object"
type_synonym go_PipelineConfig = "(go_PipelineConfigSpec, go_PipelineConfigStatus) go_object"
type_synonym go_CollectorGroup = "(CollectorGroupSpec, CollectorGroupStatus) go_object"

section \<open>The heap\<close>

text \<open>Every address below \<open>hp_next\<close> is allocated, in one of the regions.\<close>

record heap =
  hp_conditions :: "nat \<Rightarrow> Condition list"
  hp_tenants :: "nat \<Rightarrow> RegisteredTenant list"
  hp_strings :: "nat \<Rightarrow> string"
  hp_labels :: "nat \<Rightarrow> string \<rightharpoonup> string"
  hp_finalizers :: "nat \<Rightarrow> string list"
  hp_times :: "nat \<Rightarrow> Time"
  hp_counts :: "nat \<Rightarrow> int64"
  hp_bindings :: "nat \<Rightarrow> go_CollectorGroupBinding list"
  hp_pcs :: "nat \<Rightarrow> go_PipelineConfig list"
  hp_cgs :: "nat \<Rightarrow> go_CollectorGroup list"
  hp_next :: nat

record 'a region =
  rg_get :: "heap \<Rightarrow> nat \<Rightarrow> 'a list"
  rg_put :: "nat \<Rightarrow> 'a list \<Rightarrow> heap \<Rightarrow> heap"

definition Conditions_region :: "Condition region" where
  "Conditions_region =
     \<lparr>rg_get = hp_conditions, rg_put = (\<lambda>a xs h. h\<lparr>hp_conditions := (hp_conditions h)(a := xs)\<rparr>)\<rparr>"

definition Tenants_region :: "RegisteredTenant region" where
  "Tenants_region =
     \<lparr>rg_get = hp_tenants, rg_put = (\<lambda>a xs h. h\<lparr>hp_tenants := (hp_tenants h)(a := xs)\<rparr>)\<rparr>"

definition Bindings_region :: "go_CollectorGroupBinding region" where
  "Bindings_region =
     \<lparr>rg_get = hp_bindings, rg_put = (\<lambda>a xs h. h\<lparr>hp_bindings := (hp_bindings h)(a := xs)\<rparr>)\<rparr>"

definition PipelineConfigs_region :: "go_PipelineConfig region" where
  "PipelineConfigs_region =
     \<lparr>rg_get = hp_pcs, rg_put = (\<lambda>a xs h. h\<lparr>hp_pcs := (hp_pcs h)(a := xs)\<rparr>)\<rparr>"

definition CollectorGroups_region :: "go_CollectorGroup region" where
  "CollectorGroups_region =
     \<lparr>rg_get = hp_cgs, rg_put = (\<lambda>a xs h. h\<lparr>hp_cgs := (hp_cgs h)(a := xs)\<rparr>)\<rparr>"

definition Finalizers_region :: "string region" where
  "Finalizers_region =
     \<lparr>rg_get = hp_finalizers, rg_put = (\<lambda>a xs h. h\<lparr>hp_finalizers := (hp_finalizers h)(a := xs)\<rparr>)\<rparr>"

text \<open>What a pointer or a map refers to.\<close>

record 'a cell =
  ce_get :: "heap \<Rightarrow> nat \<Rightarrow> 'a"
  ce_put :: "nat \<Rightarrow> 'a \<Rightarrow> heap \<Rightarrow> heap"

definition String_cell :: "string cell" where
  "String_cell = \<lparr>ce_get = hp_strings, ce_put = (\<lambda>a v h. h\<lparr>hp_strings := (hp_strings h)(a := v)\<rparr>)\<rparr>"

definition Labels_cell :: "(string \<rightharpoonup> string) cell" where
  "Labels_cell = \<lparr>ce_get = hp_labels, ce_put = (\<lambda>a v h. h\<lparr>hp_labels := (hp_labels h)(a := v)\<rparr>)\<rparr>"

definition Time_cell :: "Time cell" where
  "Time_cell = \<lparr>ce_get = hp_times, ce_put = (\<lambda>a v h. h\<lparr>hp_times := (hp_times h)(a := v)\<rparr>)\<rparr>"

definition Count_cell :: "int64 cell" where
  "Count_cell = \<lparr>ce_get = hp_counts, ce_put = (\<lambda>a v h. h\<lparr>hp_counts := (hp_counts h)(a := v)\<rparr>)\<rparr>"

section \<open>Slice operations\<close>

definition slice_elems :: "'a region \<Rightarrow> heap \<Rightarrow> slice \<Rightarrow> 'a list" where
  "slice_elems R h sl = take (sl_len sl) (drop (sl_off sl) (rg_get R h (sl_arr sl)))"

definition slice_value :: "'a region \<Rightarrow> heap \<Rightarrow> slice option \<Rightarrow> 'a list" where
  "slice_value R h x = (case x of None \<Rightarrow> [] | Some sl \<Rightarrow> slice_elems R h sl)"

definition slice_index :: "'a region \<Rightarrow> slice \<Rightarrow> nat \<Rightarrow> (heap, 'a) state" where
  "slice_index R sl i = State (\<lambda>h. (rg_get R h (sl_arr sl) ! (sl_off sl + i), h))"

definition slice_assign :: "'a region \<Rightarrow> slice \<Rightarrow> nat \<Rightarrow> 'a \<Rightarrow> (heap, unit) state" where
  "slice_assign R sl i v = State (\<lambda>h.
     ((), rg_put R (sl_arr sl) ((rg_get R h (sl_arr sl))[sl_off sl + i := v]) h))"

text \<open>A new array with the given contents; \<open>make\<close> fills it with the zero value of the type.\<close>

definition alloc :: "'a region \<Rightarrow> 'a list \<Rightarrow> (heap, nat) state" where
  "alloc R xs = State (\<lambda>h. (hp_next h, (rg_put R (hp_next h) xs h)\<lparr>hp_next := Suc (hp_next h)\<rparr>))"

definition slice_make :: "'a region \<Rightarrow> 'a \<Rightarrow> nat \<Rightarrow> (heap, slice) state" where
  "slice_make R zero n =
     do { a \<leftarrow> alloc R (replicate n zero);
          State_Monad.return \<lparr>sl_arr = a, sl_off = 0, sl_len = n\<rparr> }"

text \<open>
  \<open>append(s, v)\<close>: in place when the array has room behind the slice, otherwise in a new array; how much
  room a new array gets is up to the runtime (\<open>grow\<close>).
\<close>

definition slice_append :: "(nat \<Rightarrow> nat) \<Rightarrow> 'a region \<Rightarrow> 'a \<Rightarrow> slice option \<Rightarrow> 'a \<Rightarrow> (heap, slice option) state" where
  "slice_append grow R zero x v =
     (case x of
        None \<Rightarrow>
          do { a \<leftarrow> alloc R (v # replicate (grow 0) zero);
               State_Monad.return (Some \<lparr>sl_arr = a, sl_off = 0, sl_len = 1\<rparr>) }
      | Some sl \<Rightarrow>
          do { h \<leftarrow> State_Monad.get;
               if sl_off sl + sl_len sl < length (rg_get R h (sl_arr sl))
               then do { _ \<leftarrow> slice_assign R sl (sl_len sl) v;
                         State_Monad.return (Some (sl\<lparr>sl_len := Suc (sl_len sl)\<rparr>)) }
               else do { a \<leftarrow> alloc R (slice_elems R h sl @ v # replicate (grow (sl_len sl)) zero);
                         State_Monad.return (Some \<lparr>sl_arr = a, sl_off = 0, sl_len = Suc (sl_len sl)\<rparr>) } })"

text \<open>
  \<open>slices.Delete(s, i, j)\<close>: the elements behind \<open>j\<close> move down in place and the vacated places are zeroed.
\<close>

definition slice_delete :: "'a region \<Rightarrow> 'a \<Rightarrow> slice \<Rightarrow> nat \<Rightarrow> nat \<Rightarrow> (heap, slice) state" where
  "slice_delete R zero sl i j = State (\<lambda>h.
     (let xs = slice_elems R h sl; arr = rg_get R h (sl_arr sl);
          ys = take i xs @ drop j xs @ replicate (j - i) zero
      in (sl\<lparr>sl_len := sl_len sl - (j - i)\<rparr>,
          rg_put R (sl_arr sl) (take (sl_off sl) arr @ ys @ drop (sl_off sl + sl_len sl) arr) h)))"

section \<open>Laws\<close>

text \<open>Two heaps agree on an address when every region does.\<close>

definition agree :: "heap \<Rightarrow> heap \<Rightarrow> nat \<Rightarrow> bool" where
  "agree h h' a \<longleftrightarrow>
     hp_conditions h' a = hp_conditions h a \<and> hp_tenants h' a = hp_tenants h a \<and> hp_strings h' a = hp_strings h a \<and>
     hp_labels h' a = hp_labels h a \<and> hp_finalizers h' a = hp_finalizers h a \<and> hp_times h' a = hp_times h a \<and>
     hp_counts h' a = hp_counts h a \<and>
     hp_bindings h' a = hp_bindings h a \<and> hp_pcs h' a = hp_pcs h a \<and> hp_cgs h' a = hp_cgs h a"

text \<open>Everything that was allocated is as it was, except for the addresses in \<open>A\<close>.\<close>

definition keeps :: "nat set \<Rightarrow> heap \<Rightarrow> heap \<Rightarrow> bool" where
  "keeps A h h' \<longleftrightarrow> hp_next h \<le> hp_next h' \<and> (\<forall>a < hp_next h. a \<notin> A \<longrightarrow> agree h h' a)"

locale heap_region =
  fixes R :: "'a region"
  assumes get_put: "rg_get R (rg_put R a xs h) = (rg_get R h)(a := xs)"
    and put_next: "hp_next (rg_put R a xs h) = hp_next h"
    and get_next: "rg_get R (h\<lparr>hp_next := n\<rparr>) = rg_get R h"
    and put_agree: "a \<noteq> b \<Longrightarrow> agree h (rg_put R b xs h) a"
    and get_agree: "agree h h' a \<Longrightarrow> rg_get R h' a = rg_get R h a"

interpretation conditions: heap_region Conditions_region
  by unfold_locales (simp_all add: Conditions_region_def agree_def)

interpretation tenants: heap_region Tenants_region
  by unfold_locales (simp_all add: Tenants_region_def agree_def)

interpretation bindings: heap_region Bindings_region
  by unfold_locales (simp_all add: Bindings_region_def agree_def)

interpretation pcs: heap_region PipelineConfigs_region
  by unfold_locales (simp_all add: PipelineConfigs_region_def agree_def)

interpretation cgs: heap_region CollectorGroups_region
  by unfold_locales (simp_all add: CollectorGroups_region_def agree_def)

interpretation finalizers: heap_region Finalizers_region
  by unfold_locales (simp_all add: Finalizers_region_def agree_def)

locale heap_cell =
  fixes C :: "'a cell"
  assumes cell_get_put: "ce_get C (ce_put C a v h) = (ce_get C h)(a := v)"
    and cell_put_next: "hp_next (ce_put C a v h) = hp_next h"
    and cell_get_next: "ce_get C (h\<lparr>hp_next := n\<rparr>) = ce_get C h"
    and cell_put_agree: "a \<noteq> b \<Longrightarrow> agree h (ce_put C b v h) a"
    and cell_get_agree: "agree h h' a \<Longrightarrow> ce_get C h' a = ce_get C h a"

interpretation string_cell: heap_cell String_cell
  by unfold_locales (simp_all add: String_cell_def agree_def)

interpretation labels_cell: heap_cell Labels_cell
  by unfold_locales (simp_all add: Labels_cell_def agree_def)

interpretation time_cell: heap_cell Time_cell
  by unfold_locales (simp_all add: Time_cell_def agree_def)

interpretation count_cell: heap_cell Count_cell
  by unfold_locales (simp_all add: Count_cell_def agree_def)

section \<open>Lemmas: keeping\<close>

lemma agree_refl [simp]: "agree h h a"
  by (simp add: agree_def)

lemma agree_trans: "agree h h' a \<Longrightarrow> agree h' h'' a \<Longrightarrow> agree h h'' a"
  by (simp add: agree_def)

lemma agree_next [simp]: "agree h (h'\<lparr>hp_next := n\<rparr>) a = agree h h' a"
  by (simp add: agree_def)

lemma keeps_refl [simp]: "keeps A h h"
  by (simp add: keeps_def)

lemma keeps_trans: "keeps A h h' \<Longrightarrow> keeps B h' h'' \<Longrightarrow> keeps (A \<union> B) h h''"
  unfolding keeps_def using agree_trans by (meson UnCI dual_order.trans less_le_trans)

lemma keeps_mono: "keeps A h h' \<Longrightarrow> A \<subseteq> B \<Longrightarrow> keeps B h h'"
  by (auto simp: keeps_def)

lemma keeps_fresh: "keeps A h h' \<Longrightarrow> A \<inter> {..<hp_next h} = {} \<Longrightarrow> keeps {} h h'"
  by (auto simp: keeps_def)

lemma keeps_next: "keeps A h h' \<Longrightarrow> hp_next h \<le> hp_next h'"
  by (simp add: keeps_def)

lemma keeps_agree: "keeps A h h' \<Longrightarrow> a < hp_next h \<Longrightarrow> a \<notin> A \<Longrightarrow> agree h h' a"
  by (simp add: keeps_def)

context heap_region
begin

lemma keeps_put: "keeps {a} h (rg_put R a xs h)"
  by (simp add: keeps_def put_next put_agree)

lemma run_alloc:
  "run_state (alloc R xs) h = (hp_next h, (rg_put R (hp_next h) xs h)\<lparr>hp_next := Suc (hp_next h)\<rparr>)"
  by (simp add: alloc_def)

lemma alloc_keeps: "keeps {} h ((rg_put R (hp_next h) xs h)\<lparr>hp_next := Suc (hp_next h)\<rparr>)"
  by (auto simp: keeps_def put_agree)

lemma alloc_get: "rg_get R ((rg_put R (hp_next h) xs h)\<lparr>hp_next := Suc (hp_next h)\<rparr>) (hp_next h) = xs"
  by (simp add: get_put get_next)

lemma elems_keeps:
  "keeps A h h' \<Longrightarrow> sl_arr sl < hp_next h \<Longrightarrow> sl_arr sl \<notin> A \<Longrightarrow> slice_elems R h' sl = slice_elems R h sl"
  by (simp add: slice_elems_def get_agree [OF keeps_agree])

end

section \<open>Deep copies\<close>

text \<open>
  A deep copy as the generator writes it: nil stays nil, otherwise a new array is made and each element
  is deep-copied into its place.
\<close>

fun copy_loop :: "'a region \<Rightarrow> ('a \<Rightarrow> (heap, 'a) state) \<Rightarrow> slice \<Rightarrow> slice \<Rightarrow> nat \<Rightarrow> nat \<Rightarrow> (heap, unit) state" where
  "copy_loop R copy inp out i 0 = State_Monad.return ()"
| "copy_loop R copy inp out i (Suc left) =
     do { x \<leftarrow> slice_index R inp i;
          y \<leftarrow> copy x;
          _ \<leftarrow> slice_assign R out i y;
          copy_loop R copy inp out (Suc i) left }"

definition copy_slice :: "'a region \<Rightarrow> 'a \<Rightarrow> ('a \<Rightarrow> (heap, 'a) state) \<Rightarrow> slice option \<Rightarrow> (heap, slice option) state" where
  "copy_slice R zero copy x =
     (case x of
        None \<Rightarrow> State_Monad.return None
      | Some sl \<Rightarrow>
          do { out \<leftarrow> slice_make R zero (sl_len sl);
               _ \<leftarrow> copy_loop R copy sl out 0 (sl_len sl);
               State_Monad.return (Some out) })"

text \<open>
  The contract of a deep copy. \<open>ok h x\<close> says that \<open>x\<close> is well formed in \<open>h\<close>, \<open>refs h x\<close> are the addresses
  it reaches and \<open>val h x\<close> is what it means. A copy means the same, touches nothing that was there,
  and reaches nothing that was there.
\<close>

locale deep_copier =
  fixes copy :: "'a \<Rightarrow> (heap, 'a) state"
    and ok :: "heap \<Rightarrow> 'a \<Rightarrow> bool"
    and refs :: "heap \<Rightarrow> 'a \<Rightarrow> nat set"
    and val :: "heap \<Rightarrow> 'a \<Rightarrow> 'v"
  assumes refs_alloc: "ok h x \<Longrightarrow> refs h x \<subseteq> {..<hp_next h}"
    and stable: "ok h x \<Longrightarrow> keeps A h h' \<Longrightarrow> refs h x \<inter> A = {} \<Longrightarrow>
      ok h' x \<and> refs h' x = refs h x \<and> val h' x = val h x"
    and copy_keeps: "ok h x \<Longrightarrow> keeps {} h (state_after (copy x) h)"
    and copy_ok: "ok h x \<Longrightarrow> ok (state_after (copy x) h) (result_of (copy x) h)"
    and copy_val: "ok h x \<Longrightarrow> val (state_after (copy x) h) (result_of (copy x) h) = val h x"
    and copy_fresh: "ok h x \<Longrightarrow> refs (state_after (copy x) h) (result_of (copy x) h) \<inter> {..<hp_next h} = {}"

definition slice_ok :: "'a region \<Rightarrow> (heap \<Rightarrow> 'a \<Rightarrow> bool) \<Rightarrow> heap \<Rightarrow> slice option \<Rightarrow> bool" where
  "slice_ok R ok h x =
     (case x of
        None \<Rightarrow> True
      | Some sl \<Rightarrow> sl_arr sl < hp_next h \<and> sl_off sl + sl_len sl \<le> length (rg_get R h (sl_arr sl)) \<and>
          list_all (ok h) (slice_elems R h sl))"

definition slice_refs :: "'a region \<Rightarrow> (heap \<Rightarrow> 'a \<Rightarrow> nat set) \<Rightarrow> heap \<Rightarrow> slice option \<Rightarrow> nat set" where
  "slice_refs R refs h x =
     (case x of
        None \<Rightarrow> {}
      | Some sl \<Rightarrow> insert (sl_arr sl) (\<Union>y \<in> set (slice_elems R h sl). refs h y))"

definition slice_val :: "'a region \<Rightarrow> (heap \<Rightarrow> 'a \<Rightarrow> 'v) \<Rightarrow> heap \<Rightarrow> slice option \<Rightarrow> 'v list" where
  "slice_val R val h x = map (val h) (slice_value R h x)"

text \<open>What the places of the new array \<open>a\<close> hold that were copied so far.\<close>

definition copied ::
  "(heap \<Rightarrow> 'a \<Rightarrow> bool) \<Rightarrow> (heap \<Rightarrow> 'a \<Rightarrow> nat set) \<Rightarrow> (heap \<Rightarrow> 'a \<Rightarrow> 'v) \<Rightarrow> nat \<Rightarrow> heap \<Rightarrow> heap \<Rightarrow> 'a \<Rightarrow> 'a \<Rightarrow> bool" where
  "copied ok refs val a h0 h y x \<longleftrightarrow> ok h y \<and> val h y = val h0 x \<and> refs h y \<inter> {..a} = {}"

locale slice_copier = heap_region R + deep_copier copy ok refs val
  for R :: "'a region"
    and copy :: "'a \<Rightarrow> (heap, 'a) state"
    and ok :: "heap \<Rightarrow> 'a \<Rightarrow> bool"
    and refs :: "heap \<Rightarrow> 'a \<Rightarrow> nat set"
    and val :: "heap \<Rightarrow> 'a \<Rightarrow> 'v"
begin

lemma copied_keeps:
  assumes "copied ok refs val a h0 h y x" "keeps {a} h h'"
  shows "copied ok refs val a h0 h' y x"
proof -
  from assms(1) have "ok h y" "refs h y \<inter> {a} = {}" by (auto simp: copied_def)
  from stable [OF this(1) assms(2) this(2)] assms(1) show ?thesis by (simp add: copied_def)
qed

lemma copy_loop_correct:
  assumes inp: "sl_arr inp < hp_next h0" "xs = slice_elems R h0 inp" "sl_off inp + sl_len inp \<le> length (rg_get R h0 (sl_arr inp))"
    and elems: "list_all (ok h0) xs" and len: "i + left = length xs" "length xs = sl_len inp"
    and out: "out = \<lparr>sl_arr = a, sl_off = 0, sl_len = length xs\<rparr>" "a = hp_next h0" "a < hp_next h"
    and kept: "keeps {} h0 h"
    and done': "rg_get R h a = ys @ rest" "length ys = i" "length rest = left" "list_all2 (copied ok refs val a h0 h) ys (take i xs)"
    and h': "h' = state_after (copy_loop R copy inp out i left) h"
  shows "keeps {} h0 h' \<and> a < hp_next h' \<and> list_all2 (copied ok refs val a h0 h') (rg_get R h' a) xs"
  using len(1) out(3) kept done' h'
proof (induction left arbitrary: i h ys rest)
  case 0
  then show ?case by simp
next
  case (Suc left)
  have i: "i < length xs" using Suc.prems(1) by simp
  define x where "x = rg_get R h (sl_arr inp) ! (sl_off inp + i)"
  have "rg_get R h (sl_arr inp) = rg_get R h0 (sl_arr inp)"
    using get_agree [OF keeps_agree [OF Suc.prems(3) inp(1)]] by simp
  then have x: "x = xs ! i"
    using i inp(2,3) len(2) by (simp add: x_def slice_elems_def)
  have ok0: "ok h0 x" using elems i by (simp add: x list_all_length)
  have xh: "ok h x" "val h x = val h0 x" using stable [OF ok0 Suc.prems(3)] by auto
  define y where "y = result_of (copy x) h"
  define h1 where "h1 = state_after (copy x) h"
  define h2 where "h2 = rg_put R a ((rg_get R h1 a)[i := y]) h1"
  have k1: "keeps {} h h1" unfolding h1_def by (rule copy_keeps [OF xh(1)])
  have k2: "keeps {a} h1 h2" unfolding h2_def by (rule keeps_put)
  have k12: "keeps {a} h h2" using keeps_trans [OF k1 k2] by simp
  have k0: "keeps {} h0 h2"
    using keeps_trans [OF Suc.prems(3) k12] out(2) by (auto intro: keeps_fresh)
  have a2: "a < hp_next h2" using Suc.prems(2) keeps_next [OF k12] by simp
  have "copied ok refs val a h0 h1 y x"
    using copy_ok [OF xh(1)] copy_val [OF xh(1)] xh(2) copy_fresh [OF xh(1)] Suc.prems(2)
    by (auto simp: copied_def y_def h1_def)
  then have cy: "copied ok refs val a h0 h2 y (xs ! i)" using copied_keeps [OF _ k2] x by simp
  have cys: "list_all2 (copied ok refs val a h0 h2) ys (take i xs)"
    using Suc.prems(7) by (rule list_all2_mono) (rule copied_keeps [OF _ k12])
  obtain r rest' where rest: "rest = r # rest'" using Suc.prems(6) by (cases rest) auto
  have "rg_get R h1 a = ys @ rest"
    using get_agree [OF keeps_agree [OF k1 Suc.prems(2)]] Suc.prems(4) by simp
  then have arr: "rg_get R h2 a = (ys @ [y]) @ rest'"
    by (simp add: h2_def get_put rest Suc.prems(5) list_update_append)
  have step: "state_after (copy_loop R copy inp out i (Suc left)) h = state_after (copy_loop R copy inp out (Suc i) left) h2"
    by (simp add: slice_index_def slice_assign_def split_beta out(1) x_def [symmetric] y_def [symmetric] h1_def [symmetric]
      h2_def [symmetric])
  show ?case
  proof (rule Suc.IH [of "Suc i" h2 "ys @ [y]" rest'])
    show "list_all2 (copied ok refs val a h0 h2) (ys @ [y]) (take (Suc i) xs)"
      using cys cy i by (simp add: take_Suc_conv_app_nth list_all2_appendI)
  qed (use Suc.prems(1,5,6,8) a2 k0 arr rest step in simp_all)
qed

lemma slice_stable:
  assumes "slice_ok R ok h x" "keeps A h h'" "slice_refs R refs h x \<inter> A = {}"
  shows "slice_ok R ok h' x \<and> slice_refs R refs h' x = slice_refs R refs h x \<and> slice_val R val h' x = slice_val R val h x"
proof (cases x)
  case None
  then show ?thesis by (simp add: slice_ok_def slice_refs_def slice_val_def slice_value_def)
next
  case (Some sl)
  with assms have sl: "sl_arr sl < hp_next h" "sl_off sl + sl_len sl \<le> length (rg_get R h (sl_arr sl))"
    "list_all (ok h) (slice_elems R h sl)" "sl_arr sl \<notin> A" by (auto simp: slice_ok_def slice_refs_def)
  have elems: "slice_elems R h' sl = slice_elems R h sl" by (rule elems_keeps [OF assms(2) sl(1,4)])
  have arr: "rg_get R h' (sl_arr sl) = rg_get R h (sl_arr sl)" by (rule get_agree [OF keeps_agree [OF assms(2) sl(1,4)]])
  have el: "ok h' y \<and> refs h' y = refs h y \<and> val h' y = val h y" if "y \<in> set (slice_elems R h sl)" for y
  proof (rule stable [OF _ assms(2)])
    show "ok h y" using sl(3) that by (simp add: list_all_iff)
    show "refs h y \<inter> A = {}" using assms(3) that Some by (auto simp: slice_refs_def)
  qed
  then have "list_all (ok h') (slice_elems R h' sl)" by (simp add: elems list_all_iff)
  moreover have "map (val h') (slice_elems R h' sl) = map (val h) (slice_elems R h sl)" by (simp add: elems el)
  moreover have "(\<Union>y \<in> set (slice_elems R h' sl). refs h' y) = (\<Union>y \<in> set (slice_elems R h sl). refs h y)"
    by (simp add: elems el)
  ultimately show ?thesis
    using Some sl(1,2) keeps_next [OF assms(2)] arr
    by (simp add: slice_ok_def slice_refs_def slice_val_def slice_value_def)
qed

lemma copy_slice_correct:
  assumes "slice_ok R ok h x" and "h' = state_after (copy_slice R zero copy x) h"
    and "y = result_of (copy_slice R zero copy x) h"
  shows "keeps {} h h'" and "slice_ok R ok h' y" and "slice_val R val h' y = slice_val R val h x"
    and "slice_refs R refs h' y \<inter> {..<hp_next h} = {}"
proof -
  have "keeps {} h h' \<and> slice_ok R ok h' y \<and> slice_val R val h' y = slice_val R val h x \<and>
    slice_refs R refs h' y \<inter> {..<hp_next h} = {}"
  proof (cases x)
    case None
    with assms(2,3) show ?thesis
      by (simp add: copy_slice_def slice_ok_def slice_val_def slice_value_def slice_refs_def)
  next
    case (Some sl)
    define xs where "xs = slice_elems R h sl"
    from assms(1) Some have sl: "sl_arr sl < hp_next h" "sl_off sl + sl_len sl \<le> length (rg_get R h (sl_arr sl))"
      "list_all (ok h) xs" by (auto simp: slice_ok_def xs_def)
    have len: "length xs = sl_len sl" using sl(2) by (simp add: xs_def slice_elems_def)
    define a where "a = hp_next h"
    define out where "out = \<lparr>sl_arr = a, sl_off = 0, sl_len = length xs\<rparr>"
    define h1 where "h1 = (rg_put R a (replicate (length xs) zero) h)\<lparr>hp_next := Suc a\<rparr>"
    have y: "y = Some out" and h': "h' = state_after (copy_loop R copy sl out 0 (length xs)) h1"
      using assms(2,3) by (simp_all add: Some copy_slice_def slice_make_def run_alloc len [symmetric] split_beta
        a_def out_def h1_def)
    have "keeps {} h h' \<and> a < hp_next h' \<and> list_all2 (copied ok refs val a h h') (rg_get R h' a) xs"
    proof (rule copy_loop_correct [OF sl(1) xs_def sl(2,3) _ len out_def a_def, of 0 "length xs" h1 "[]"])
      show "keeps {} h h1" unfolding h1_def a_def by (rule alloc_keeps)
      show "rg_get R h1 a = [] @ replicate (length xs) zero" unfolding h1_def a_def by (simp add: alloc_get)
    qed (use h' in \<open>simp_all add: h1_def\<close>)
    then have kept: "keeps {} h h'" and a: "a < hp_next h'"
      and all: "list_all2 (copied ok refs val a h h') (rg_get R h' a) xs" by blast+
    have elems: "slice_elems R h' out = rg_get R h' a"
      using list_all2_lengthD [OF all] by (simp add: slice_elems_def out_def)
    have "list_all (ok h') (rg_get R h' a)"
      using all by (auto simp: list_all2_conv_all_nth list_all_length copied_def)
    then have "slice_ok R ok h' y"
      using a list_all2_lengthD [OF all] by (simp add: slice_ok_def y elems) (simp add: out_def)
    moreover have "map (val h') (rg_get R h' a) = map (val h) xs"
      using all by (auto simp: list_all2_conv_all_nth copied_def intro: nth_equalityI)
    then have "slice_val R val h' y = slice_val R val h x"
      by (simp add: slice_val_def slice_value_def y elems Some xs_def)
    moreover have "refs h' z \<inter> {..a} = {}" if "z \<in> set (rg_get R h' a)" for z
      using all that by (auto simp: list_all2_conv_all_nth copied_def in_set_conv_nth)
    then have "slice_refs R refs h' y \<inter> {..<hp_next h} = {}"
      unfolding slice_refs_def y option.case elems a_def [symmetric] by (fastforce simp: out_def)
    moreover note kept
    ultimately show ?thesis by blast
  qed
  then show "keeps {} h h'" and "slice_ok R ok h' y" and "slice_val R val h' y = slice_val R val h x"
    and "slice_refs R refs h' y \<inter> {..<hp_next h} = {}" by blast+
qed

lemma slice_deep_copier:
  "deep_copier (copy_slice R zero copy) (slice_ok R ok) (slice_refs R refs) (slice_val R val)"
proof
  show "slice_refs R refs h x \<subseteq> {..<hp_next h}" if "slice_ok R ok h x" for h x
    using that refs_alloc by (fastforce simp: slice_ok_def slice_refs_def list_all_iff split: option.splits)
qed (rule slice_stable copy_slice_correct [OF _ refl refl], assumption+)+

end

text \<open>
  A pointer to a plain value, and a map, which is copied entry by entry: nil stays nil, otherwise the
  copy is a new cell with the same contents.
\<close>

definition new_cell :: "'a cell \<Rightarrow> 'a \<Rightarrow> (heap, nat) state" where
  "new_cell C v = State (\<lambda>h. (hp_next h, (ce_put C (hp_next h) v h)\<lparr>hp_next := Suc (hp_next h)\<rparr>))"

definition copy_ptr :: "'a cell \<Rightarrow> nat option \<Rightarrow> (heap, nat option) state" where
  "copy_ptr C p =
     (case p of
        None \<Rightarrow> State_Monad.return None
      | Some a \<Rightarrow> do { h \<leftarrow> State_Monad.get; out \<leftarrow> new_cell C (ce_get C h a); State_Monad.return (Some out) })"

definition ptr_ok :: "heap \<Rightarrow> nat option \<Rightarrow> bool" where
  "ptr_ok h p = (case p of None \<Rightarrow> True | Some a \<Rightarrow> a < hp_next h)"

definition ptr_refs :: "heap \<Rightarrow> nat option \<Rightarrow> nat set" where
  "ptr_refs h p = set_option p"

definition ptr_val :: "'a cell \<Rightarrow> heap \<Rightarrow> nat option \<Rightarrow> 'a option" where
  "ptr_val C h p = map_option (ce_get C h) p"

context heap_cell
begin

lemma ptr_deep_copier: "deep_copier (copy_ptr C) ptr_ok ptr_refs (ptr_val C)"
proof
  show "ptr_ok h' p \<and> ptr_refs h' p = ptr_refs h p \<and> ptr_val C h' p = ptr_val C h p"
    if "ptr_ok h p" "keeps A h h'" "ptr_refs h p \<inter> A = {}" for h h' p A
    using that cell_get_agree [OF keeps_agree [OF that(2)]]
    by (cases p) (auto simp: ptr_ok_def ptr_refs_def ptr_val_def dest: keeps_next)
qed (auto simp: ptr_ok_def ptr_refs_def ptr_val_def copy_ptr_def new_cell_def keeps_def cell_get_put cell_put_next
  cell_get_next cell_put_agree split: option.splits)

end

sublocale heap_cell \<subseteq> pointer: deep_copier "copy_ptr C" ptr_ok ptr_refs "ptr_val C"
  by (rule ptr_deep_copier)

sublocale slice_copier \<subseteq> slices: deep_copier "copy_slice R zero copy" "slice_ok R ok" "slice_refs R refs" "slice_val R val"
  for zero by (rule slice_deep_copier)

end
