(* ===== verification/Deep_Copy.thy ===== *)
theory Deep_Copy
  imports Go_Heap
begin

text \<open>
  The generated deep copies (\<open>api/v1alpha1/zz_generated.deepcopy.go\<close>) on the heap of slices, maps and
  pointers. A struct is a value whose slices, maps and pointers are addresses; \<open>new(T)\<close> is a new value,
  so what a copy can share with its original is what it reaches through the heap. The metadata of an
  object reaches its labels, its finalizers and its deletion time. The deep copies of the types of
  Kubernetes' own library (\<open>metav1.Time\<close>, \<open>metav1.Condition\<close> and the metadata structs) are a parameter,
  with their documented contract, that they are deep, as the locale \<open>value_copies\<close>.
\<close>

section \<open>Definitions\<close>

text \<open>Zero values that \<open>make\<close> fills an array with.\<close>

definition zero_meta :: go_ObjectMeta where
  "zero_meta = \<lparr>g_Namespace = '''', g_Name = '''', g_Labels = None, g_Finalizers = None, g_DeletionTimestamp = None,
     g_Generation = 0, g_ResourceVersion = ''''\<rparr>"

definition zero_Condition :: Condition where
  "zero_Condition = \<lparr>cond_Type = '''', cond_Status = ConditionUnknown, cond_Reason = '''', cond_Message = '''',
     cond_ObservedGeneration = 0, cond_LastTransitionTime = zero_time\<rparr>"

definition zero_RegisteredTenant :: RegisteredTenant where
  "zero_RegisteredTenant = \<lparr>ID = '''', CollectorID = '''', LastSeenAt = zero_time\<rparr>"

definition zero_BindingStatus :: go_BindingStatus where
  "zero_BindingStatus = \<lparr>g_Phase = '''', g_ConfigHash = '''', g_LastSyncedAt = zero_time, g_Conditions = None,
     g_ObservedGeneration = 0, g_BoundPipelineConfigRef = '''', g_BoundCollectorGroupRef = '''',
     g_RegisteredTenants = None\<rparr>"

definition zero_CollectorGroupBinding :: go_CollectorGroupBinding where
  "zero_CollectorGroupBinding = \<lparr>o_Meta = zero_meta,
     o_Spec = \<lparr>CollectorGroupRef = '''', TenantRef = '''', PipelineConfigRef = ''''\<rparr>, o_Status = zero_BindingStatus\<rparr>"

definition zero_PipelineConfig :: go_PipelineConfig where
  "zero_PipelineConfig = \<lparr>o_Meta = zero_meta, o_Spec = \<lparr>g_Content = '''', g_Description = None\<rparr>,
     o_Status = \<lparr>g_ContentHash = '''', g_ActiveBindings = 0, g_pcObservedGeneration = 0, g_pcConditions = None\<rparr>\<rparr>"

definition zero_CollectorGroup :: go_CollectorGroup where
  "zero_CollectorGroup = \<lparr>o_Meta = zero_meta, o_Spec = \<lparr>cg_Description = ''''\<rparr>,
     o_Status = \<lparr>cg_ActiveBindings = 0, cg_ObservedGeneration = 0\<rparr>\<rparr>"

text \<open>The deep copies of the library's types.\<close>

record lib_copies =
  Time_DeepCopyInto :: "Time \<Rightarrow> (heap, Time) state"
  Condition_DeepCopyInto :: "Condition \<Rightarrow> (heap, Condition) state"
  ObjectMeta_DeepCopyInto :: "go_ObjectMeta \<Rightarrow> (heap, go_ObjectMeta) state"
  ListMeta_DeepCopyInto :: "go_ListMeta \<Rightarrow> (heap, go_ListMeta) state"

text \<open>\<open>DeepCopyInto\<close> of every type, inner types first.\<close>

definition RegisteredTenant_DeepCopyInto ::
  "lib_copies \<Rightarrow> RegisteredTenant \<Rightarrow> (heap, RegisteredTenant) state" where
  "RegisteredTenant_DeepCopyInto lib inp =
     do { let out = inp;
          lastSeenAt \<leftarrow> Time_DeepCopyInto lib (LastSeenAt inp);
          State_Monad.return (out\<lparr>LastSeenAt := lastSeenAt\<rparr>) }"

definition CollectorGroupBindingSpec_DeepCopyInto ::
  "CollectorGroupBindingSpec \<Rightarrow> (heap, CollectorGroupBindingSpec) state" where
  "CollectorGroupBindingSpec_DeepCopyInto inp = State_Monad.return inp"

definition CollectorGroupBindingStatus_DeepCopyInto ::
  "lib_copies \<Rightarrow> go_BindingStatus \<Rightarrow> (heap, go_BindingStatus) state" where
  "CollectorGroupBindingStatus_DeepCopyInto lib inp =
     do { let out = inp;
          lastSyncedAt \<leftarrow> Time_DeepCopyInto lib (g_LastSyncedAt inp);
          let out = out\<lparr>g_LastSyncedAt := lastSyncedAt\<rparr>;
          conditions \<leftarrow> copy_slice Conditions_region zero_Condition (Condition_DeepCopyInto lib) (g_Conditions inp);
          let out = out\<lparr>g_Conditions := conditions\<rparr>;
          tenants \<leftarrow> copy_slice Tenants_region zero_RegisteredTenant (RegisteredTenant_DeepCopyInto lib)
            (g_RegisteredTenants inp);
          State_Monad.return (out\<lparr>g_RegisteredTenants := tenants\<rparr>) }"

definition CollectorGroupBinding_DeepCopyInto ::
  "lib_copies \<Rightarrow> go_CollectorGroupBinding \<Rightarrow> (heap, go_CollectorGroupBinding) state" where
  "CollectorGroupBinding_DeepCopyInto lib inp =
     do { let out = inp;
          objectMeta \<leftarrow> ObjectMeta_DeepCopyInto lib (o_Meta inp);
          let out = out\<lparr>o_Meta := objectMeta\<rparr>;
          let out = out\<lparr>o_Spec := o_Spec inp\<rparr>;
          status \<leftarrow> CollectorGroupBindingStatus_DeepCopyInto lib (o_Status inp);
          State_Monad.return (out\<lparr>o_Status := status\<rparr>) }"

text \<open>\<open>new(string)\<close> and the assignment through the pointer.\<close>

definition copy_string :: "nat option \<Rightarrow> (heap, nat option) state" where
  "copy_string p = copy_ptr String_cell p"

definition PipelineConfigSpec_DeepCopyInto :: "go_PipelineConfigSpec \<Rightarrow> (heap, go_PipelineConfigSpec) state" where
  "PipelineConfigSpec_DeepCopyInto inp =
     do { let out = inp;
          description \<leftarrow> copy_string (g_Description inp);
          State_Monad.return (out\<lparr>g_Description := description\<rparr>) }"

definition PipelineConfigStatus_DeepCopyInto ::
  "lib_copies \<Rightarrow> go_PipelineConfigStatus \<Rightarrow> (heap, go_PipelineConfigStatus) state" where
  "PipelineConfigStatus_DeepCopyInto lib inp =
     do { let out = inp;
          conditions \<leftarrow> copy_slice Conditions_region zero_Condition (Condition_DeepCopyInto lib) (g_pcConditions inp);
          State_Monad.return (out\<lparr>g_pcConditions := conditions\<rparr>) }"

definition PipelineConfig_DeepCopyInto ::
  "lib_copies \<Rightarrow> go_PipelineConfig \<Rightarrow> (heap, go_PipelineConfig) state" where
  "PipelineConfig_DeepCopyInto lib inp =
     do { let out = inp;
          objectMeta \<leftarrow> ObjectMeta_DeepCopyInto lib (o_Meta inp);
          let out = out\<lparr>o_Meta := objectMeta\<rparr>;
          spec \<leftarrow> PipelineConfigSpec_DeepCopyInto (o_Spec inp);
          let out = out\<lparr>o_Spec := spec\<rparr>;
          status \<leftarrow> PipelineConfigStatus_DeepCopyInto lib (o_Status inp);
          State_Monad.return (out\<lparr>o_Status := status\<rparr>) }"

definition CollectorGroupSpec_DeepCopyInto :: "CollectorGroupSpec \<Rightarrow> (heap, CollectorGroupSpec) state" where
  "CollectorGroupSpec_DeepCopyInto inp = State_Monad.return inp"

definition CollectorGroupStatus_DeepCopyInto :: "CollectorGroupStatus \<Rightarrow> (heap, CollectorGroupStatus) state" where
  "CollectorGroupStatus_DeepCopyInto inp = State_Monad.return inp"

definition CollectorGroup_DeepCopyInto ::
  "lib_copies \<Rightarrow> go_CollectorGroup \<Rightarrow> (heap, go_CollectorGroup) state" where
  "CollectorGroup_DeepCopyInto lib inp =
     do { let out = inp;
          objectMeta \<leftarrow> ObjectMeta_DeepCopyInto lib (o_Meta inp);
          let out = out\<lparr>o_Meta := objectMeta\<rparr>;
          let out = out\<lparr>o_Spec := o_Spec inp\<rparr>;
          State_Monad.return (out\<lparr>o_Status := o_Status inp\<rparr>) }"

text \<open>The list types.\<close>

record go_List =
  l_ListMeta :: go_ListMeta
  l_Items :: "slice option"

definition CollectorGroupBindingList_DeepCopyInto ::
  "lib_copies \<Rightarrow> go_List \<Rightarrow> (heap, go_List) state" where
  "CollectorGroupBindingList_DeepCopyInto lib inp =
     do { let out = inp;
          listMeta \<leftarrow> ListMeta_DeepCopyInto lib (l_ListMeta inp);
          let out = out\<lparr>l_ListMeta := listMeta\<rparr>;
          items \<leftarrow> copy_slice Bindings_region zero_CollectorGroupBinding
            (CollectorGroupBinding_DeepCopyInto lib) (l_Items inp);
          State_Monad.return (out\<lparr>l_Items := items\<rparr>) }"

definition PipelineConfigList_DeepCopyInto ::
  "lib_copies \<Rightarrow> go_List \<Rightarrow> (heap, go_List) state" where
  "PipelineConfigList_DeepCopyInto lib inp =
     do { let out = inp;
          listMeta \<leftarrow> ListMeta_DeepCopyInto lib (l_ListMeta inp);
          let out = out\<lparr>l_ListMeta := listMeta\<rparr>;
          items \<leftarrow> copy_slice PipelineConfigs_region zero_PipelineConfig
            (PipelineConfig_DeepCopyInto lib) (l_Items inp);
          State_Monad.return (out\<lparr>l_Items := items\<rparr>) }"

definition CollectorGroupList_DeepCopyInto ::
  "lib_copies \<Rightarrow> go_List \<Rightarrow> (heap, go_List) state" where
  "CollectorGroupList_DeepCopyInto lib inp =
     do { let out = inp;
          listMeta \<leftarrow> ListMeta_DeepCopyInto lib (l_ListMeta inp);
          let out = out\<lparr>l_ListMeta := listMeta\<rparr>;
          items \<leftarrow> copy_slice CollectorGroups_region zero_CollectorGroup
            (CollectorGroup_DeepCopyInto lib) (l_Items inp);
          State_Monad.return (out\<lparr>l_Items := items\<rparr>) }"

text \<open>
  \<open>DeepCopy\<close> and \<open>DeepCopyObject\<close>, which the generator writes alike for every type: nil for a nil receiver,
  otherwise a new object that \<open>DeepCopyInto\<close> fills.
\<close>

definition DeepCopy :: "('a \<Rightarrow> (heap, 'a) state) \<Rightarrow> 'a option \<Rightarrow> (heap, 'a option) state" where
  "DeepCopy DeepCopyInto inp =
     (case inp of
        None \<Rightarrow> State_Monad.return None
      | Some v \<Rightarrow> do { out \<leftarrow> DeepCopyInto v; State_Monad.return (Some out) })"

definition DeepCopyObject :: "('a \<Rightarrow> (heap, 'a) state) \<Rightarrow> 'a option \<Rightarrow> (heap, 'a option) state" where
  "DeepCopyObject DeepCopyInto inp =
     do { c \<leftarrow> DeepCopy DeepCopyInto inp;
          State_Monad.return (case c of Some out \<Rightarrow> Some out | None \<Rightarrow> None) }"

text \<open>The methods of each type.\<close>

definition CollectorGroup_DeepCopy :: "lib_copies \<Rightarrow> go_CollectorGroup option \<Rightarrow> (heap, go_CollectorGroup option) state" where
  "CollectorGroup_DeepCopy lib = DeepCopy (CollectorGroup_DeepCopyInto lib)"

definition CollectorGroup_DeepCopyObject :: "lib_copies \<Rightarrow> go_CollectorGroup option \<Rightarrow> (heap, go_CollectorGroup option) state" where
  "CollectorGroup_DeepCopyObject lib = DeepCopyObject (CollectorGroup_DeepCopyInto lib)"

definition CollectorGroupBinding_DeepCopy :: "lib_copies \<Rightarrow> go_CollectorGroupBinding option \<Rightarrow> (heap, go_CollectorGroupBinding option) state" where
  "CollectorGroupBinding_DeepCopy lib = DeepCopy (CollectorGroupBinding_DeepCopyInto lib)"

definition CollectorGroupBinding_DeepCopyObject :: "lib_copies \<Rightarrow> go_CollectorGroupBinding option \<Rightarrow> (heap, go_CollectorGroupBinding option) state" where
  "CollectorGroupBinding_DeepCopyObject lib = DeepCopyObject (CollectorGroupBinding_DeepCopyInto lib)"

definition CollectorGroupBindingList_DeepCopy :: "lib_copies \<Rightarrow> go_List option \<Rightarrow> (heap, go_List option) state" where
  "CollectorGroupBindingList_DeepCopy lib = DeepCopy (CollectorGroupBindingList_DeepCopyInto lib)"

definition CollectorGroupBindingList_DeepCopyObject :: "lib_copies \<Rightarrow> go_List option \<Rightarrow> (heap, go_List option) state" where
  "CollectorGroupBindingList_DeepCopyObject lib = DeepCopyObject (CollectorGroupBindingList_DeepCopyInto lib)"

definition CollectorGroupBindingSpec_DeepCopy :: "CollectorGroupBindingSpec option \<Rightarrow> (heap, CollectorGroupBindingSpec option) state" where
  "CollectorGroupBindingSpec_DeepCopy = DeepCopy CollectorGroupBindingSpec_DeepCopyInto"

definition CollectorGroupBindingStatus_DeepCopy :: "lib_copies \<Rightarrow> go_BindingStatus option \<Rightarrow> (heap, go_BindingStatus option) state" where
  "CollectorGroupBindingStatus_DeepCopy lib = DeepCopy (CollectorGroupBindingStatus_DeepCopyInto lib)"

definition CollectorGroupList_DeepCopy :: "lib_copies \<Rightarrow> go_List option \<Rightarrow> (heap, go_List option) state" where
  "CollectorGroupList_DeepCopy lib = DeepCopy (CollectorGroupList_DeepCopyInto lib)"

definition CollectorGroupList_DeepCopyObject :: "lib_copies \<Rightarrow> go_List option \<Rightarrow> (heap, go_List option) state" where
  "CollectorGroupList_DeepCopyObject lib = DeepCopyObject (CollectorGroupList_DeepCopyInto lib)"

definition CollectorGroupSpec_DeepCopy :: "CollectorGroupSpec option \<Rightarrow> (heap, CollectorGroupSpec option) state" where
  "CollectorGroupSpec_DeepCopy = DeepCopy CollectorGroupSpec_DeepCopyInto"

definition CollectorGroupStatus_DeepCopy :: "CollectorGroupStatus option \<Rightarrow> (heap, CollectorGroupStatus option) state" where
  "CollectorGroupStatus_DeepCopy = DeepCopy CollectorGroupStatus_DeepCopyInto"

definition PipelineConfig_DeepCopy :: "lib_copies \<Rightarrow> go_PipelineConfig option \<Rightarrow> (heap, go_PipelineConfig option) state" where
  "PipelineConfig_DeepCopy lib = DeepCopy (PipelineConfig_DeepCopyInto lib)"

definition PipelineConfig_DeepCopyObject :: "lib_copies \<Rightarrow> go_PipelineConfig option \<Rightarrow> (heap, go_PipelineConfig option) state" where
  "PipelineConfig_DeepCopyObject lib = DeepCopyObject (PipelineConfig_DeepCopyInto lib)"

definition PipelineConfigList_DeepCopy :: "lib_copies \<Rightarrow> go_List option \<Rightarrow> (heap, go_List option) state" where
  "PipelineConfigList_DeepCopy lib = DeepCopy (PipelineConfigList_DeepCopyInto lib)"

definition PipelineConfigList_DeepCopyObject :: "lib_copies \<Rightarrow> go_List option \<Rightarrow> (heap, go_List option) state" where
  "PipelineConfigList_DeepCopyObject lib = DeepCopyObject (PipelineConfigList_DeepCopyInto lib)"

definition PipelineConfigSpec_DeepCopy :: "go_PipelineConfigSpec option \<Rightarrow> (heap, go_PipelineConfigSpec option) state" where
  "PipelineConfigSpec_DeepCopy = DeepCopy PipelineConfigSpec_DeepCopyInto"

definition PipelineConfigStatus_DeepCopy :: "lib_copies \<Rightarrow> go_PipelineConfigStatus option \<Rightarrow> (heap, go_PipelineConfigStatus option) state" where
  "PipelineConfigStatus_DeepCopy lib = DeepCopy (PipelineConfigStatus_DeepCopyInto lib)"

definition RegisteredTenant_DeepCopy :: "lib_copies \<Rightarrow> RegisteredTenant option \<Rightarrow> (heap, RegisteredTenant option) state" where
  "RegisteredTenant_DeepCopy lib = DeepCopy (RegisteredTenant_DeepCopyInto lib)"

section \<open>What the values mean\<close>

definition meta_val :: "heap \<Rightarrow> go_ObjectMeta \<Rightarrow> ObjectMeta" where
  "meta_val h m =
     \<lparr>Namespace = g_Namespace m, Name = g_Name m,
      Labels = (case ptr_val Labels_cell h (g_Labels m) of None \<Rightarrow> Map.empty | Some ls \<Rightarrow> ls),
      Finalizers = slice_value Finalizers_region h (g_Finalizers m),
      DeletionTimestamp = ptr_val Time_cell h (g_DeletionTimestamp m),
      Generation = g_Generation m, ResourceVersion = g_ResourceVersion m\<rparr>"

definition list_meta_val :: "heap \<Rightarrow> go_ListMeta \<Rightarrow> string \<times> string \<times> int64 option" where
  "list_meta_val h m = (g_ListResourceVersion m, g_Continue m, ptr_val Count_cell h (g_RemainingItemCount m))"

definition status_val :: "heap \<Rightarrow> go_BindingStatus \<Rightarrow> CollectorGroupBindingStatus" where
  "status_val h st =
     \<lparr>Phase = g_Phase st, ConfigHash = g_ConfigHash st, LastSyncedAt = g_LastSyncedAt st,
      Conditions = slice_value Conditions_region h (g_Conditions st),
      ObservedGeneration = g_ObservedGeneration st,
      BoundPipelineConfigRef = g_BoundPipelineConfigRef st, BoundCollectorGroupRef = g_BoundCollectorGroupRef st,
      RegisteredTenants = slice_value Tenants_region h (g_RegisteredTenants st)\<rparr>"

definition binding_val :: "heap \<Rightarrow> go_CollectorGroupBinding \<Rightarrow> CollectorGroupBinding" where
  "binding_val h b = \<lparr>Meta = meta_val h (o_Meta b), Spec = o_Spec b, Status = status_val h (o_Status b)\<rparr>"

definition pc_spec_val :: "heap \<Rightarrow> go_PipelineConfigSpec \<Rightarrow> PipelineConfigSpec" where
  "pc_spec_val h sp = \<lparr>Content = g_Content sp, pc_Description = ptr_val String_cell h (g_Description sp)\<rparr>"

definition pc_status_val :: "heap \<Rightarrow> go_PipelineConfigStatus \<Rightarrow> PipelineConfigStatus" where
  "pc_status_val h st =
     \<lparr>ContentHash = g_ContentHash st, pc_ActiveBindings = g_ActiveBindings st,
      pc_ObservedGeneration = g_pcObservedGeneration st,
      pc_Conditions = slice_value Conditions_region h (g_pcConditions st)\<rparr>"

definition pc_val :: "heap \<Rightarrow> go_PipelineConfig \<Rightarrow> PipelineConfig" where
  "pc_val h pc =
     \<lparr>Meta = meta_val h (o_Meta pc), Spec = pc_spec_val h (o_Spec pc), Status = pc_status_val h (o_Status pc)\<rparr>"

definition cg_val :: "heap \<Rightarrow> go_CollectorGroup \<Rightarrow> CollectorGroup" where
  "cg_val h cg = \<lparr>Meta = meta_val h (o_Meta cg), Spec = o_Spec cg, Status = o_Status cg\<rparr>"

section \<open>The copies meet the contract\<close>

abbreviation plain_ok :: "heap \<Rightarrow> 'a \<Rightarrow> bool" where "plain_ok \<equiv> \<lambda>_ _. True"
abbreviation plain_refs :: "heap \<Rightarrow> 'a \<Rightarrow> nat set" where "plain_refs \<equiv> \<lambda>_ _. {}"
abbreviation plain_val :: "heap \<Rightarrow> 'a \<Rightarrow> 'a" where "plain_val \<equiv> \<lambda>_ x. x"

lemma plain_copier: "deep_copier State_Monad.return plain_ok plain_refs plain_val"
  by unfold_locales simp_all

lemma slice_val_plain [simp]: "slice_val R plain_val h x = slice_value R h x"
  by (simp add: slice_val_def)

text \<open>Two parts copied one after the other, and a part of a larger struct.\<close>

lemma pair_copier:
  assumes "deep_copier c1 ok1 refs1 val1" and "deep_copier c2 ok2 refs2 val2"
  shows "deep_copier (\<lambda>p. do { x \<leftarrow> c1 (fst p); y \<leftarrow> c2 (snd p); State_Monad.return (x, y) })
    (\<lambda>h p. ok1 h (fst p) \<and> ok2 h (snd p)) (\<lambda>h p. refs1 h (fst p) \<union> refs2 h (snd p))
    (\<lambda>h p. (val1 h (fst p), val2 h (snd p)))" (is "deep_copier ?copy ?ok ?refs ?val")
proof -
  have two: "keeps {} h h2 \<and> ?ok h2 (x1, y2) \<and> ?val h2 (x1, y2) = ?val h p \<and> ?refs h2 (x1, y2) \<inter> {..<hp_next h} = {}"
    if ok: "?ok h p" and "x1 = result_of (c1 (fst p)) h" "h1 = state_after (c1 (fst p)) h"
      "y2 = result_of (c2 (snd p)) h1" "h2 = state_after (c2 (snd p)) h1" for h p x1 h1 y2 h2
  proof -
    have k1: "keeps {} h h1" using ok that(3) deep_copier.copy_keeps [OF assms(1)] by blast
    have x1: "ok1 h1 x1" "val1 h1 x1 = val1 h (fst p)" "refs1 h1 x1 \<inter> {..<hp_next h} = {}"
      using ok that(2,3) deep_copier.copy_ok [OF assms(1)] deep_copier.copy_val [OF assms(1)]
        deep_copier.copy_fresh [OF assms(1)] by blast+
    have y: "ok2 h1 (snd p)" "val2 h1 (snd p) = val2 h (snd p)"
      using deep_copier.stable [OF assms(2) _ k1, of "snd p"] ok by auto
    have k2: "keeps {} h1 h2" using y(1) that(5) deep_copier.copy_keeps [OF assms(2)] by blast
    have y2: "ok2 h2 y2" "val2 h2 y2 = val2 h1 (snd p)" "refs2 h2 y2 \<inter> {..<hp_next h1} = {}"
      using y(1) that(4,5) deep_copier.copy_ok [OF assms(2)] deep_copier.copy_val [OF assms(2)]
        deep_copier.copy_fresh [OF assms(2)] by blast+
    have x2: "ok1 h2 x1" "val1 h2 x1 = val1 h1 x1" "refs1 h2 x1 = refs1 h1 x1"
      using deep_copier.stable [OF assms(1) x1(1) k2] by auto
    show ?thesis
      using keeps_trans [OF k1 k2] keeps_next [OF k1] x1 x2 y y2 by auto
  qed
  have run: "run_state (?copy p) h = ((result_of (c1 (fst p)) h, result_of (c2 (snd p)) (state_after (c1 (fst p)) h)),
      state_after (c2 (snd p)) (state_after (c1 (fst p)) h))" for p h
    by (simp add: split_beta)
  show ?thesis
  proof
    show "?refs h p \<subseteq> {..<hp_next h}" if "?ok h p" for h p
      using that deep_copier.refs_alloc [OF assms(1)] deep_copier.refs_alloc [OF assms(2)] by auto
    show "?ok h' p \<and> ?refs h' p = ?refs h p \<and> ?val h' p = ?val h p"
      if "?ok h p" "keeps A h h'" "?refs h p \<inter> A = {}" for h p A h'
      using that deep_copier.stable [OF assms(1) _ that(2), of "fst p"] deep_copier.stable [OF assms(2) _ that(2), of "snd p"]
      by auto
  qed (unfold run fst_conv snd_conv, use two [OF _ refl refl refl refl] in auto)
qed

lemma part_copier:
  assumes "deep_copier copy ok refs val"
    and "\<And>s. copy' s = do { p \<leftarrow> copy (part s); State_Monad.return (put p s) }"
    and "\<And>p s. part (put p s) = p" and "\<And>h p s. val' h (put p s) = view s (val h p)"
    and "\<And>h s. val' h s = view s (val h (part s))"
  shows "deep_copier copy' (\<lambda>h s. ok h (part s)) (\<lambda>h s. refs h (part s)) val'"
proof -
  have run: "run_state (copy' s) h = (put (result_of (copy (part s)) h) s, state_after (copy (part s)) h)" for s h
    by (simp add: assms(2) split_beta)
  note contract = deep_copier.copy_keeps [OF assms(1)] deep_copier.copy_ok [OF assms(1)]
    deep_copier.copy_val [OF assms(1)] deep_copier.copy_fresh [OF assms(1)]
  show ?thesis
  proof
    show "refs h (part s) \<subseteq> {..<hp_next h}" if "ok h (part s)" for h s
      using that by (rule deep_copier.refs_alloc [OF assms(1)])
    show "ok h' (part s) \<and> refs h' (part s) = refs h (part s) \<and> val' h' s = val' h s"
      if "ok h (part s)" "keeps A h h'" "refs h (part s) \<inter> A = {}" for h h' s A
      using deep_copier.stable [OF assms(1) that] by (simp add: assms(5) [of _ s])
  qed (simp_all add: run assms(3,4) contract assms(5) [of _ _, symmetric])
qed

section \<open>Well-formed values and what they reach\<close>

abbreviation conditions_ok :: "heap \<Rightarrow> slice option \<Rightarrow> bool" where
  "conditions_ok \<equiv> slice_ok Conditions_region plain_ok"

abbreviation tenants_ok :: "heap \<Rightarrow> slice option \<Rightarrow> bool" where
  "tenants_ok \<equiv> slice_ok Tenants_region plain_ok"

abbreviation conditions_refs :: "heap \<Rightarrow> slice option \<Rightarrow> nat set" where
  "conditions_refs \<equiv> slice_refs Conditions_region plain_refs"

abbreviation tenants_refs :: "heap \<Rightarrow> slice option \<Rightarrow> nat set" where
  "tenants_refs \<equiv> slice_refs Tenants_region plain_refs"

definition meta_ok :: "heap \<Rightarrow> go_ObjectMeta \<Rightarrow> bool" where
  "meta_ok h m \<longleftrightarrow> ptr_ok h (g_Labels m) \<and> slice_ok Finalizers_region plain_ok h (g_Finalizers m) \<and>
     ptr_ok h (g_DeletionTimestamp m)"

definition meta_refs :: "heap \<Rightarrow> go_ObjectMeta \<Rightarrow> nat set" where
  "meta_refs h m = ptr_refs h (g_Labels m) \<union> (slice_refs Finalizers_region plain_refs h (g_Finalizers m) \<union>
     ptr_refs h (g_DeletionTimestamp m))"

definition list_meta_ok :: "heap \<Rightarrow> go_ListMeta \<Rightarrow> bool" where
  "list_meta_ok h m = ptr_ok h (g_RemainingItemCount m)"

definition list_meta_refs :: "heap \<Rightarrow> go_ListMeta \<Rightarrow> nat set" where
  "list_meta_refs h m = ptr_refs h (g_RemainingItemCount m)"

definition status_ok :: "heap \<Rightarrow> go_BindingStatus \<Rightarrow> bool" where
  "status_ok h st \<longleftrightarrow> conditions_ok h (g_Conditions st) \<and> tenants_ok h (g_RegisteredTenants st)"

definition status_refs :: "heap \<Rightarrow> go_BindingStatus \<Rightarrow> nat set" where
  "status_refs h st = conditions_refs h (g_Conditions st) \<union> tenants_refs h (g_RegisteredTenants st)"

definition go_binding_ok :: "heap \<Rightarrow> go_CollectorGroupBinding \<Rightarrow> bool" where
  "go_binding_ok h b \<longleftrightarrow> meta_ok h (o_Meta b) \<and> status_ok h (o_Status b)"

definition binding_refs :: "heap \<Rightarrow> go_CollectorGroupBinding \<Rightarrow> nat set" where
  "binding_refs h b = meta_refs h (o_Meta b) \<union> status_refs h (o_Status b)"

definition pc_spec_ok :: "heap \<Rightarrow> go_PipelineConfigSpec \<Rightarrow> bool" where
  "pc_spec_ok h sp = ptr_ok h (g_Description sp)"

definition pc_spec_refs :: "heap \<Rightarrow> go_PipelineConfigSpec \<Rightarrow> nat set" where
  "pc_spec_refs h sp = ptr_refs h (g_Description sp)"

definition pc_status_ok :: "heap \<Rightarrow> go_PipelineConfigStatus \<Rightarrow> bool" where
  "pc_status_ok h st = conditions_ok h (g_pcConditions st)"

definition pc_status_refs :: "heap \<Rightarrow> go_PipelineConfigStatus \<Rightarrow> nat set" where
  "pc_status_refs h st = conditions_refs h (g_pcConditions st)"

definition pc_ok :: "heap \<Rightarrow> go_PipelineConfig \<Rightarrow> bool" where
  "pc_ok h pc \<longleftrightarrow> meta_ok h (o_Meta pc) \<and> pc_spec_ok h (o_Spec pc) \<and> pc_status_ok h (o_Status pc)"

definition pc_refs :: "heap \<Rightarrow> go_PipelineConfig \<Rightarrow> nat set" where
  "pc_refs h pc = meta_refs h (o_Meta pc) \<union> (pc_spec_refs h (o_Spec pc) \<union> pc_status_refs h (o_Status pc))"

definition cg_ok :: "heap \<Rightarrow> go_CollectorGroup \<Rightarrow> bool" where
  "cg_ok h cg = meta_ok h (o_Meta cg)"

definition cg_refs :: "heap \<Rightarrow> go_CollectorGroup \<Rightarrow> nat set" where
  "cg_refs h cg = meta_refs h (o_Meta cg)"

definition list_ok :: "'a region \<Rightarrow> (heap \<Rightarrow> 'a \<Rightarrow> bool) \<Rightarrow> heap \<Rightarrow> go_List \<Rightarrow> bool" where
  "list_ok R ok h l \<longleftrightarrow> list_meta_ok h (l_ListMeta l) \<and> slice_ok R ok h (l_Items l)"

definition list_refs :: "'a region \<Rightarrow> (heap \<Rightarrow> 'a \<Rightarrow> nat set) \<Rightarrow> heap \<Rightarrow> go_List \<Rightarrow> nat set" where
  "list_refs R refs h l = list_meta_refs h (l_ListMeta l) \<union> slice_refs R refs h (l_Items l)"

definition list_val ::
  "'a region \<Rightarrow> (heap \<Rightarrow> 'a \<Rightarrow> 'v) \<Rightarrow> heap \<Rightarrow> go_List \<Rightarrow> (string \<times> string \<times> int64 option) \<times> 'v list" where
  "list_val R val h l = (list_meta_val h (l_ListMeta l), slice_val R val h (l_Items l))"

section \<open>Every generated copy is a deep copy\<close>

locale value_copies =
  fixes lib :: lib_copies
  assumes time: "deep_copier (Time_DeepCopyInto lib) plain_ok plain_refs plain_val"
    and condition: "deep_copier (Condition_DeepCopyInto lib) plain_ok plain_refs plain_val"
    and object_meta: "deep_copier (ObjectMeta_DeepCopyInto lib) meta_ok meta_refs meta_val"
    and list_meta: "deep_copier (ListMeta_DeepCopyInto lib) list_meta_ok list_meta_refs list_meta_val"
begin

lemma tenant: "deep_copier (RegisteredTenant_DeepCopyInto lib) plain_ok plain_refs plain_val"
  by (rule part_copier [OF time, where part = LastSeenAt and put = "\<lambda>v t. t\<lparr>LastSeenAt := v\<rparr>"
        and view = "\<lambda>t v. t\<lparr>LastSeenAt := v\<rparr>"])
    (simp_all add: RegisteredTenant_DeepCopyInto_def)

end

sublocale value_copies \<subseteq> condition_slices:
  slice_copier Conditions_region "Condition_DeepCopyInto lib" plain_ok plain_refs plain_val
  by (intro slice_copier.intro condition) unfold_locales

sublocale value_copies \<subseteq> tenant_slices:
  slice_copier Tenants_region "RegisteredTenant_DeepCopyInto lib" plain_ok plain_refs plain_val
  by (intro slice_copier.intro tenant) unfold_locales

context value_copies
begin

lemma binding_status: "deep_copier (CollectorGroupBindingStatus_DeepCopyInto lib) status_ok status_refs status_val"
proof -
  note parts = pair_copier [OF time pair_copier [OF condition_slices.slice_deep_copier [of zero_Condition]
    tenant_slices.slice_deep_copier [of zero_RegisteredTenant]]]
  have "deep_copier (CollectorGroupBindingStatus_DeepCopyInto lib)
    (\<lambda>h s. plain_ok h (g_LastSyncedAt s) \<and> conditions_ok h (g_Conditions s) \<and> tenants_ok h (g_RegisteredTenants s))
    (\<lambda>h s. {} \<union> (conditions_refs h (g_Conditions s) \<union> tenants_refs h (g_RegisteredTenants s))) status_val"
    using part_copier [OF parts, where copy' = "CollectorGroupBindingStatus_DeepCopyInto lib"
        and part = "\<lambda>s. (g_LastSyncedAt s, g_Conditions s, g_RegisteredTenants s)"
        and put = "\<lambda>(t, c, ts) s. s\<lparr>g_LastSyncedAt := t, g_Conditions := c, g_RegisteredTenants := ts\<rparr>"
        and val' = status_val and view = "\<lambda>s (t, c, ts). \<lparr>Phase = g_Phase s, ConfigHash = g_ConfigHash s, LastSyncedAt = t, Conditions = c,
          ObservedGeneration = g_ObservedGeneration s, BoundPipelineConfigRef = g_BoundPipelineConfigRef s,
          BoundCollectorGroupRef = g_BoundCollectorGroupRef s, RegisteredTenants = ts\<rparr>"]
    by (simp add: CollectorGroupBindingStatus_DeepCopyInto_def status_val_def split_beta)
  then show ?thesis by (simp add: status_ok_def [abs_def] status_refs_def [abs_def])
qed

lemma binding: "deep_copier (CollectorGroupBinding_DeepCopyInto lib) go_binding_ok binding_refs binding_val"
proof -
  have "deep_copier (CollectorGroupBinding_DeepCopyInto lib)
    (\<lambda>h b. meta_ok h (o_Meta b) \<and> status_ok h (o_Status b))
    (\<lambda>h b. meta_refs h (o_Meta b) \<union> status_refs h (o_Status b)) binding_val"
    using part_copier [OF pair_copier [OF object_meta binding_status],
        where copy' = "CollectorGroupBinding_DeepCopyInto lib" and part = "\<lambda>b. (o_Meta b, o_Status b)"
        and put = "\<lambda>(m, st) b. b\<lparr>o_Meta := m, o_Status := st\<rparr>" and val' = binding_val
        and view = "\<lambda>b (m, st). \<lparr>Meta = m, Spec = o_Spec b, Status = st\<rparr>"]
    by (simp add: CollectorGroupBinding_DeepCopyInto_def binding_val_def split_beta)
  then show ?thesis by (simp add: go_binding_ok_def [abs_def] binding_refs_def [abs_def])
qed

lemma pc_spec: "deep_copier PipelineConfigSpec_DeepCopyInto pc_spec_ok pc_spec_refs pc_spec_val"
  unfolding pc_spec_ok_def [abs_def] pc_spec_refs_def [abs_def]
  by (rule part_copier [OF string_cell.ptr_deep_copier, where part = g_Description
        and put = "\<lambda>d sp. sp\<lparr>g_Description := d\<rparr>" and view = "\<lambda>sp d. \<lparr>Content = g_Content sp, pc_Description = d\<rparr>"])
    (simp_all add: PipelineConfigSpec_DeepCopyInto_def copy_string_def pc_spec_val_def)

lemma pc_status: "deep_copier (PipelineConfigStatus_DeepCopyInto lib) pc_status_ok pc_status_refs pc_status_val"
  unfolding pc_status_ok_def [abs_def] pc_status_refs_def [abs_def]
  by (rule part_copier [OF condition_slices.slice_deep_copier [of zero_Condition], where part = g_pcConditions
        and put = "\<lambda>c st. st\<lparr>g_pcConditions := c\<rparr>"
        and view = "\<lambda>st c. \<lparr>ContentHash = g_ContentHash st, pc_ActiveBindings = g_ActiveBindings st,
          pc_ObservedGeneration = g_pcObservedGeneration st, pc_Conditions = c\<rparr>"])
    (simp_all add: PipelineConfigStatus_DeepCopyInto_def pc_status_val_def)

lemma pipeline_config: "deep_copier (PipelineConfig_DeepCopyInto lib) pc_ok pc_refs pc_val"
proof -
  have "deep_copier (PipelineConfig_DeepCopyInto lib)
    (\<lambda>h pc. meta_ok h (o_Meta pc) \<and> pc_spec_ok h (o_Spec pc) \<and> pc_status_ok h (o_Status pc))
    (\<lambda>h pc. meta_refs h (o_Meta pc) \<union> (pc_spec_refs h (o_Spec pc) \<union> pc_status_refs h (o_Status pc))) pc_val"
    using part_copier [OF pair_copier [OF object_meta pair_copier [OF pc_spec pc_status]],
        where copy' = "PipelineConfig_DeepCopyInto lib" and part = "\<lambda>pc. (o_Meta pc, o_Spec pc, o_Status pc)"
        and put = "\<lambda>(m, sp, st) pc. pc\<lparr>o_Meta := m, o_Spec := sp, o_Status := st\<rparr>" and val' = pc_val
        and view = "\<lambda>pc (m, sp, st). \<lparr>Meta = m, Spec = sp, Status = st\<rparr>"]
    by (simp add: PipelineConfig_DeepCopyInto_def pc_val_def split_beta)
  then show ?thesis by (simp add: pc_ok_def [abs_def] pc_refs_def [abs_def])
qed

lemma collector_group: "deep_copier (CollectorGroup_DeepCopyInto lib) cg_ok cg_refs cg_val"
  unfolding cg_ok_def [abs_def] cg_refs_def [abs_def]
  by (rule part_copier [OF object_meta, where part = o_Meta and put = "\<lambda>m cg. cg\<lparr>o_Meta := m\<rparr>"
        and view = "\<lambda>cg m. \<lparr>Meta = m, Spec = o_Spec cg, Status = o_Status cg\<rparr>"])
    (simp_all add: CollectorGroup_DeepCopyInto_def cg_val_def)

lemma list_copier:
  assumes "heap_region R" and "deep_copier copy ok refs val"
    and "\<And>l. copy' l = do { m \<leftarrow> ListMeta_DeepCopyInto lib (l_ListMeta l);
      items \<leftarrow> copy_slice R zero copy (l_Items l); State_Monad.return (l\<lparr>l_ListMeta := m, l_Items := items\<rparr>) }"
  shows "deep_copier copy' (list_ok R ok) (list_refs R refs) (list_val R val)"
proof -
  note items = slice_copier.slice_deep_copier [OF slice_copier.intro [OF assms(1,2)], of zero]
  have "deep_copier copy' (\<lambda>h l. list_meta_ok h (l_ListMeta l) \<and> slice_ok R ok h (l_Items l))
    (\<lambda>h l. list_meta_refs h (l_ListMeta l) \<union> slice_refs R refs h (l_Items l)) (list_val R val)"
    using part_copier [OF pair_copier [OF list_meta items], where copy' = copy'
        and part = "\<lambda>l. (l_ListMeta l, l_Items l)" and put = "\<lambda>(m, i) l. l\<lparr>l_ListMeta := m, l_Items := i\<rparr>"
        and val' = "list_val R val" and view = "\<lambda>l v. v"]
    by (simp add: assms(3) list_val_def split_beta)
  then show ?thesis by (simp add: list_ok_def [abs_def] list_refs_def [abs_def])
qed

lemma binding_list:
  "deep_copier (CollectorGroupBindingList_DeepCopyInto lib) (list_ok Bindings_region go_binding_ok)
     (list_refs Bindings_region binding_refs) (list_val Bindings_region binding_val)"
  by (rule list_copier [OF bindings.heap_region_axioms binding]) (simp add: CollectorGroupBindingList_DeepCopyInto_def)

lemma pipeline_config_list:
  "deep_copier (PipelineConfigList_DeepCopyInto lib) (list_ok PipelineConfigs_region pc_ok)
     (list_refs PipelineConfigs_region pc_refs) (list_val PipelineConfigs_region pc_val)"
  by (rule list_copier [OF pcs.heap_region_axioms pipeline_config]) (simp add: PipelineConfigList_DeepCopyInto_def)

lemma collector_group_list:
  "deep_copier (CollectorGroupList_DeepCopyInto lib) (list_ok CollectorGroups_region cg_ok)
     (list_refs CollectorGroups_region cg_refs) (list_val CollectorGroups_region cg_val)"
  by (rule list_copier [OF cgs.heap_region_axioms collector_group]) (simp add: CollectorGroupList_DeepCopyInto_def)

end

section \<open>The library's copies\<close>

text \<open>
  A library that copies the metadata field by field: a new map of labels, a new slice of finalizers
  and a new time, and a new item count for a list.
\<close>

definition copy_meta :: "go_ObjectMeta \<Rightarrow> (heap, go_ObjectMeta) state" where
  "copy_meta inp =
     do { labels \<leftarrow> copy_ptr Labels_cell (g_Labels inp);
          fins \<leftarrow> copy_slice Finalizers_region '''' State_Monad.return (g_Finalizers inp);
          deleted \<leftarrow> copy_ptr Time_cell (g_DeletionTimestamp inp);
          State_Monad.return (inp\<lparr>g_Labels := labels, g_Finalizers := fins, g_DeletionTimestamp := deleted\<rparr>) }"

definition copy_list_meta :: "go_ListMeta \<Rightarrow> (heap, go_ListMeta) state" where
  "copy_list_meta inp =
     do { remaining \<leftarrow> copy_ptr Count_cell (g_RemainingItemCount inp);
          State_Monad.return (inp\<lparr>g_RemainingItemCount := remaining\<rparr>) }"

definition struct_copies :: lib_copies where
  "struct_copies = \<lparr>Time_DeepCopyInto = State_Monad.return, Condition_DeepCopyInto = State_Monad.return,
     ObjectMeta_DeepCopyInto = copy_meta, ListMeta_DeepCopyInto = copy_list_meta\<rparr>"

interpretation finalizer_slices: slice_copier Finalizers_region State_Monad.return plain_ok plain_refs plain_val
  by (intro slice_copier.intro plain_copier) unfold_locales

lemma copy_meta_deep: "deep_copier copy_meta meta_ok meta_refs meta_val"
  unfolding meta_ok_def [abs_def] meta_refs_def [abs_def]
  using part_copier [OF pair_copier [OF labels_cell.ptr_deep_copier
      pair_copier [OF finalizer_slices.slice_deep_copier [of "''''"] time_cell.ptr_deep_copier]],
      where copy' = copy_meta and part = "\<lambda>m. (g_Labels m, g_Finalizers m, g_DeletionTimestamp m)"
      and put = "\<lambda>(ls, fs, d) m. m\<lparr>g_Labels := ls, g_Finalizers := fs, g_DeletionTimestamp := d\<rparr>"
      and val' = meta_val
      and view = "\<lambda>m (ls, fs, d). \<lparr>Namespace = g_Namespace m, Name = g_Name m,
        Labels = (case ls of None \<Rightarrow> Map.empty | Some l \<Rightarrow> l), Finalizers = fs, DeletionTimestamp = d,
        Generation = g_Generation m, ResourceVersion = g_ResourceVersion m\<rparr>"]
  by (simp add: copy_meta_def meta_val_def split_beta)

lemma copy_list_meta_deep: "deep_copier copy_list_meta list_meta_ok list_meta_refs list_meta_val"
  unfolding list_meta_ok_def [abs_def] list_meta_refs_def [abs_def]
  by (rule part_copier [OF count_cell.ptr_deep_copier, where part = g_RemainingItemCount
        and put = "\<lambda>n m. m\<lparr>g_RemainingItemCount := n\<rparr>"
        and view = "\<lambda>m n. (g_ListResourceVersion m, g_Continue m, n)"])
    (simp_all add: copy_list_meta_def list_meta_val_def)

interpretation structs: value_copies struct_copies
  by (rule value_copies.intro) (simp_all add: struct_copies_def plain_copier copy_meta_deep copy_list_meta_deep)

section \<open>Properties\<close>

text \<open>
  \<open>independent\<close> says of \<open>copy := x.DeepCopy()\<close>: it returns an object that means what \<open>x\<close> meant, the memory
  that was there is as it was, and the copy and \<open>x\<close> reach no common address; so a later write through
  either of them (a heap that differs only where one of them reaches) leaves the meaning of the other.
  A nil receiver gives nil, and \<open>DeepCopyObject\<close> does what \<open>DeepCopy\<close> does.
\<close>

definition independent ::
  "('a option \<Rightarrow> (heap, 'a option) state) \<Rightarrow> (heap \<Rightarrow> 'a \<Rightarrow> nat set) \<Rightarrow> (heap \<Rightarrow> 'a \<Rightarrow> 'v) \<Rightarrow> heap \<Rightarrow> 'a \<Rightarrow> bool" where
  "independent deepCopy refs val h x \<longleftrightarrow>
     run_state (deepCopy None) h = (None, h) \<and>
     (\<exists>y h'. run_state (deepCopy (Some x)) h = (Some y, h') \<and> keeps {} h h' \<and> val h' y = val h x \<and>
        refs h' x \<inter> refs h' y = {} \<and>
        (\<forall>h''. keeps (refs h' x) h' h'' \<longrightarrow> val h'' y = val h x) \<and>
        (\<forall>h''. keeps (refs h' y) h' h'' \<longrightarrow> val h'' x = val h x))"

lemma DeepCopyObject_eq:
  fixes DeepCopyInto :: "'a \<Rightarrow> (heap, 'a) state"
  shows "DeepCopyObject DeepCopyInto = DeepCopy DeepCopyInto"
proof -
  have "(case c of Some out \<Rightarrow> Some out | None \<Rightarrow> None) = c" for c :: "'a option" by (cases c) simp_all
  then show ?thesis by (intro ext) (simp add: DeepCopyObject_def)
qed

context deep_copier
begin

lemma copy_independent:
  assumes "ok h x"
  shows "independent (DeepCopy copy) refs val h x"
proof -
  define y where "y = result_of (copy x) h"
  define h' where "h' = state_after (copy x) h"
  have run: "run_state (DeepCopy copy (Some x)) h = (Some y, h')" by (simp add: DeepCopy_def y_def h'_def split_beta)
  have k: "keeps {} h h'" and y: "ok h' y" "val h' y = val h x" "refs h' y \<inter> {..<hp_next h} = {}"
    unfolding y_def h'_def using assms by (rule copy_keeps copy_ok copy_val copy_fresh)+
  have x: "ok h' x" "val h' x = val h x" "refs h' x = refs h x" using stable [OF assms k] by auto
  have disj: "refs h' x \<inter> refs h' y = {}" using refs_alloc [OF assms] x(3) y(3) by blast
  have "val h'' y = val h x" if "keeps (refs h' x) h' h''" for h''
    using stable [OF y(1) that] disj y(2) by auto
  moreover have "val h'' x = val h x" if "keeps (refs h' y) h' h''" for h''
    using stable [OF x(1) that] disj x(2) by auto
  ultimately show ?thesis using run k y(2) disj by (auto simp: independent_def DeepCopy_def)
qed

end

lemmas DeepCopy_methods = CollectorGroup_DeepCopy_def CollectorGroupBinding_DeepCopy_def PipelineConfig_DeepCopy_def
  CollectorGroupList_DeepCopy_def CollectorGroupBindingList_DeepCopy_def PipelineConfigList_DeepCopy_def

lemmas DeepCopyObject_methods = CollectorGroup_DeepCopyObject_def CollectorGroupBinding_DeepCopyObject_def
  PipelineConfig_DeepCopyObject_def CollectorGroupList_DeepCopyObject_def CollectorGroupBindingList_DeepCopyObject_def
  PipelineConfigList_DeepCopyObject_def

text \<open>The copies of the parts on their own.\<close>

lemma part_copies_are_independent:
  assumes "value_copies lib"
  shows "status_ok h st \<Longrightarrow> independent (CollectorGroupBindingStatus_DeepCopy lib) status_refs status_val h st"
    and "pc_spec_ok h psp \<Longrightarrow> independent PipelineConfigSpec_DeepCopy pc_spec_refs pc_spec_val h psp"
    and "pc_status_ok h pst \<Longrightarrow> independent (PipelineConfigStatus_DeepCopy lib) pc_status_refs pc_status_val h pst"
    and "independent (RegisteredTenant_DeepCopy lib) plain_refs plain_val h t"
    and "independent CollectorGroupBindingSpec_DeepCopy plain_refs plain_val h sp"
    and "independent CollectorGroupSpec_DeepCopy plain_refs plain_val h gsp"
    and "independent CollectorGroupStatus_DeepCopy plain_refs plain_val h gst"
  using deep_copier.copy_independent [OF value_copies.binding_status [OF assms], of h st]
    deep_copier.copy_independent [OF value_copies.pc_spec [OF assms], of h psp]
    deep_copier.copy_independent [OF value_copies.pc_status [OF assms], of h pst]
    deep_copier.copy_independent [OF value_copies.tenant [OF assms], of h t]
    deep_copier.copy_independent [OF plain_copier, of h sp]
    deep_copier.copy_independent [OF plain_copier, of h gsp]
    deep_copier.copy_independent [OF plain_copier, of h gst]
  by (simp_all add: CollectorGroupBindingStatus_DeepCopy_def PipelineConfigSpec_DeepCopy_def
    PipelineConfigStatus_DeepCopy_def RegisteredTenant_DeepCopy_def CollectorGroupBindingSpec_DeepCopy_def
    CollectorGroupSpec_DeepCopy_def CollectorGroupStatus_DeepCopy_def CollectorGroupBindingSpec_DeepCopyInto_def [abs_def]
    CollectorGroupSpec_DeepCopyInto_def [abs_def] CollectorGroupStatus_DeepCopyInto_def [abs_def])

text \<open>
  C12: The generated deep copies of all six kinds of object and list are deep: the copy of a well-formed
  object means the same, leaves the memory as it was, and shares no backing array, no map and no
  pointer with the original, down to the labels, finalizers, conditions and tenants of every
  binding of a list, provided the library's own copies of its metadata, conditions and times are deep;
  and \<open>DeepCopyObject\<close>, through which the client library copies, does the same.
\<close>

theorem deep_copies_are_independent:
  assumes "value_copies lib"
  shows "(go_binding_ok h b \<longrightarrow> independent (CollectorGroupBinding_DeepCopy lib) binding_refs binding_val h b) \<and>
    (pc_ok h pc \<longrightarrow> independent (PipelineConfig_DeepCopy lib) pc_refs pc_val h pc) \<and>
    (cg_ok h cg \<longrightarrow> independent (CollectorGroup_DeepCopy lib) cg_refs cg_val h cg) \<and>
    (list_ok Bindings_region go_binding_ok h bs \<longrightarrow>
       independent (CollectorGroupBindingList_DeepCopy lib) (list_refs Bindings_region binding_refs)
         (list_val Bindings_region binding_val) h bs) \<and>
    (list_ok PipelineConfigs_region pc_ok h pcs \<longrightarrow>
       independent (PipelineConfigList_DeepCopy lib) (list_refs PipelineConfigs_region pc_refs)
         (list_val PipelineConfigs_region pc_val) h pcs) \<and>
    (list_ok CollectorGroups_region cg_ok h cgs \<longrightarrow>
       independent (CollectorGroupList_DeepCopy lib) (list_refs CollectorGroups_region cg_refs)
         (list_val CollectorGroups_region cg_val) h cgs) \<and>
    CollectorGroupBinding_DeepCopyObject lib = CollectorGroupBinding_DeepCopy lib \<and>
    PipelineConfig_DeepCopyObject lib = PipelineConfig_DeepCopy lib \<and>
    CollectorGroup_DeepCopyObject lib = CollectorGroup_DeepCopy lib \<and>
    CollectorGroupBindingList_DeepCopyObject lib = CollectorGroupBindingList_DeepCopy lib \<and>
    PipelineConfigList_DeepCopyObject lib = PipelineConfigList_DeepCopy lib \<and>
    CollectorGroupList_DeepCopyObject lib = CollectorGroupList_DeepCopy lib"
  using deep_copier.copy_independent [OF value_copies.binding [OF assms], of h b]
    deep_copier.copy_independent [OF value_copies.pipeline_config [OF assms], of h pc]
    deep_copier.copy_independent [OF value_copies.collector_group [OF assms], of h cg]
    deep_copier.copy_independent [OF value_copies.binding_list [OF assms], of h bs]
    deep_copier.copy_independent [OF value_copies.pipeline_config_list [OF assms], of h pcs]
    deep_copier.copy_independent [OF value_copies.collector_group_list [OF assms], of h cgs]
  by (simp add: DeepCopy_methods DeepCopyObject_methods DeepCopyObject_eq)

text \<open>
  A heap that holds a list of one binding with one tenant, a pipeline config with a description, and a
  collector group with a label and a finalizer that is being deleted.
\<close>

definition heap_tenant :: RegisteredTenant where
  "heap_tenant = \<lparr>ID = ''t'', CollectorID = ''c'', LastSeenAt = 7\<rparr>"

definition sample_go_meta :: go_ObjectMeta where
  "sample_go_meta = zero_meta\<lparr>g_Name := ''g1'', g_Labels := Some 3,
     g_Finalizers := Some \<lparr>sl_arr = 4, sl_off = 0, sl_len = 1\<rparr>, g_DeletionTimestamp := Some 5\<rparr>"

definition sample_go_binding :: go_CollectorGroupBinding where
  "sample_go_binding = zero_CollectorGroupBinding\<lparr>o_Meta := sample_go_meta, o_Status := zero_BindingStatus
     \<lparr>g_RegisteredTenants := Some \<lparr>sl_arr = 0, sl_off = 0, sl_len = 1\<rparr>\<rparr>\<rparr>"

definition sample_go_pc :: go_PipelineConfig where
  "sample_go_pc = zero_PipelineConfig\<lparr>o_Spec := \<lparr>g_Content = ''x'', g_Description = Some 2\<rparr>\<rparr>"

definition sample_go_cg :: go_CollectorGroup where
  "sample_go_cg = zero_CollectorGroup\<lparr>o_Meta := sample_go_meta\<rparr>"

definition sample_heap :: heap where
  "sample_heap = \<lparr>hp_conditions = (\<lambda>_. []), hp_tenants = (\<lambda>_. [])(0 := [heap_tenant]),
     hp_strings = (\<lambda>_. [])(2 := ''d''), hp_labels = (\<lambda>_. Map.empty)(3 := [''env'' \<mapsto> ''prod'']),
     hp_finalizers = (\<lambda>_. [])(4 := [''f'']), hp_times = (\<lambda>_. 0)(5 := 11), hp_counts = (\<lambda>_. 0)(6 := 2),
     hp_bindings = (\<lambda>_. [])(1 := [sample_go_binding]), hp_pcs = (\<lambda>_. []), hp_cgs = (\<lambda>_. []), hp_next = 7\<rparr>"

definition sample_go_list :: go_List where
  "sample_go_list = \<lparr>l_ListMeta = \<lparr>g_ListResourceVersion = ''9'', g_Continue = '''', g_RemainingItemCount = Some 6\<rparr>,
     l_Items = Some \<lparr>sl_arr = 1, sl_off = 0, sl_len = 1\<rparr>\<rparr>"

lemmas sample_heap_simps = sample_heap_def sample_go_meta_def sample_go_binding_def sample_go_pc_def sample_go_cg_def
  sample_go_list_def zero_meta_def zero_CollectorGroupBinding_def zero_BindingStatus_def zero_PipelineConfig_def
  zero_CollectorGroup_def go_binding_ok_def meta_ok_def status_ok_def pc_ok_def pc_spec_ok_def pc_status_ok_def cg_ok_def
  ptr_ok_def list_ok_def list_meta_ok_def slice_ok_def slice_elems_def Tenants_region_def Bindings_region_def
  Finalizers_region_def list_all_iff

theorem deep_copies_are_independent_witness:
  "independent (CollectorGroupBinding_DeepCopy struct_copies) binding_refs binding_val sample_heap sample_go_binding \<and>
   independent (PipelineConfig_DeepCopy struct_copies) pc_refs pc_val sample_heap sample_go_pc \<and>
   independent (CollectorGroup_DeepCopy struct_copies) cg_refs cg_val sample_heap sample_go_cg \<and>
   independent (CollectorGroupBindingList_DeepCopy struct_copies) (list_refs Bindings_region binding_refs)
     (list_val Bindings_region binding_val) sample_heap sample_go_list"
  using deep_copies_are_independent [OF structs.value_copies_axioms, of sample_heap sample_go_binding sample_go_pc
      sample_go_cg sample_go_list]
  by (simp add: sample_heap_simps)

end
