(* ===== verification/Tenant_Slices.thy ===== *)
theory Tenant_Slices
  imports Deep_Copy Registry
begin

text \<open>
  The tenant updates of \<open>internal/adapter/kubernetes/collectorregistry.go\<close> on Go's memory. The registry
  takes a deep copy as the base of its merge patch and then changes the binding in place: by an
  assignment or an append in \<open>upsertTenant\<close>, by \<open>slices.Delete\<close> in \<open>Unregister\<close>. The refinement shows
  that the pure list updates of theory Registry are what these do, and that the base keeps the old
  list, so that the patch holds the difference.
\<close>

section \<open>Definitions\<close>

text \<open>How far \<open>append\<close> grows an array is left open (\<open>grow\<close>).\<close>

definition heap_upsertTenant ::
  "(nat \<Rightarrow> nat) \<Rightarrow> slice option \<Rightarrow> RegisteredTenant \<Rightarrow> (heap, slice option) state" where
  "heap_upsertTenant grow tenants t =
     do { h \<leftarrow> State_Monad.get;
          let idx = IndexFunc (slice_value Tenants_region h tenants) (\<lambda>e. ID e = ID t);
          (case tenants of
             Some sl \<Rightarrow>
               if 0 \<le> idx
               then do { _ \<leftarrow> slice_assign Tenants_region sl (nat idx) t; State_Monad.return tenants }
               else slice_append grow Tenants_region zero_RegisteredTenant tenants t
           | None \<Rightarrow> slice_append grow Tenants_region zero_RegisteredTenant tenants t) }"

definition heap_set_tenants :: "slice option \<Rightarrow> go_CollectorGroupBinding \<Rightarrow> go_CollectorGroupBinding" where
  "heap_set_tenants tenants b = b\<lparr>o_Status := o_Status b\<lparr>g_RegisteredTenants := tenants\<rparr>\<rparr>"

text \<open>The base of the patch and the changed binding, as \<open>Register\<close> and \<open>Unregister\<close> make them.\<close>

definition register_in_place ::
  "lib_copies \<Rightarrow> (nat \<Rightarrow> nat) \<Rightarrow> go_CollectorGroupBinding \<Rightarrow> RegisteredTenant \<Rightarrow>
     (heap, go_CollectorGroupBinding \<times> go_CollectorGroupBinding) state" where
  "register_in_place lib grow binding t =
     do { base \<leftarrow> CollectorGroupBinding_DeepCopyInto lib binding;
          tenants \<leftarrow> heap_upsertTenant grow (g_RegisteredTenants (o_Status binding)) t;
          State_Monad.return (base, heap_set_tenants tenants binding) }"

definition unregister_in_place ::
  "lib_copies \<Rightarrow> go_CollectorGroupBinding \<Rightarrow> string \<Rightarrow>
     (heap, (go_CollectorGroupBinding \<times> go_CollectorGroupBinding) option) state" where
  "unregister_in_place lib binding collectorID =
     do { h \<leftarrow> State_Monad.get;
          let idx = indexTenantByCollectorID (slice_value Tenants_region h (g_RegisteredTenants (o_Status binding)))
            collectorID;
          (case g_RegisteredTenants (o_Status binding) of
             Some sl \<Rightarrow>
               if idx < 0 then State_Monad.return None
               else do { base \<leftarrow> CollectorGroupBinding_DeepCopyInto lib binding;
                         tenants \<leftarrow> slice_delete Tenants_region zero_RegisteredTenant sl (nat idx) (Suc (nat idx));
                         State_Monad.return (Some (base, heap_set_tenants (Some tenants) binding)) }
           | None \<Rightarrow> State_Monad.return None) }"

section \<open>In-place updates\<close>

text \<open>
  An update of a tenant slice writes only to the slice's own array (or a new one); the conditions and
  what the metadata reaches live in other regions.
\<close>

definition tenants_write :: "heap \<Rightarrow> slice option \<Rightarrow> heap \<Rightarrow> bool" where
  "tenants_write h tenants h' \<longleftrightarrow>
     keeps (tenants_refs h tenants) h h' \<and> hp_conditions h' = hp_conditions h \<and> hp_labels h' = hp_labels h \<and>
     hp_finalizers h' = hp_finalizers h \<and> hp_times h' = hp_times h"

lemma put_tenants:
  "rg_get Tenants_region (rg_put Tenants_region a xs h) = (rg_get Tenants_region h)(a := xs)"
  "hp_conditions (rg_put Tenants_region a xs h) = hp_conditions h"
  "hp_labels (rg_put Tenants_region a xs h) = hp_labels h"
  "hp_finalizers (rg_put Tenants_region a xs h) = hp_finalizers h"
  "hp_times (rg_put Tenants_region a xs h) = hp_times h"
  by (simp_all add: Tenants_region_def)

lemma write_put: "tenants_write h (Some sl) (rg_put Tenants_region (sl_arr sl) xs h)"
  by (simp add: tenants_write_def slice_refs_def put_tenants tenants.keeps_put)

lemma slice_assign_correct:
  assumes "tenants_ok h (Some sl)" and "i < sl_len sl"
  shows "slice_value Tenants_region (state_after (slice_assign Tenants_region sl i t) h) (Some sl) =
      (slice_value Tenants_region h (Some sl))[i := t]"
    and "tenants_write h (Some sl) (state_after (slice_assign Tenants_region sl i t) h)"
  using assms
  by (simp_all add: slice_assign_def slice_value_def slice_elems_def slice_ok_def put_tenants write_put
    drop_update_swap take_update_swap)

lemma window_append:
  "off + n < length arr \<Longrightarrow> take (Suc n) (drop off (arr[off + n := t])) = take n (drop off arr) @ [t]"
  by (simp add: drop_update_swap take_Suc_conv_app_nth)

lemma slice_append_correct:
  assumes "tenants_ok h x" and "run_state (slice_append grow Tenants_region zero x t) h = (y, h')"
  shows "slice_value Tenants_region h' y = slice_value Tenants_region h x @ [t]" and "tenants_write h x h'"
proof -
  show "slice_value Tenants_region h' y = slice_value Tenants_region h x @ [t]"
    using assms
    by (auto simp: slice_append_def slice_assign_def slice_value_def slice_elems_def slice_ok_def put_tenants
      tenants.run_alloc tenants.alloc_get window_append Suc_diff_le split: option.splits if_splits)
  show "tenants_write h x h'"
    using assms
    by (auto simp: slice_append_def slice_assign_def tenants.run_alloc tenants_write_def slice_refs_def
      keeps_mono [OF tenants.alloc_keeps] tenants.keeps_put put_tenants split: option.splits if_splits)
qed

lemma slice_delete_correct:
  assumes "tenants_ok h (Some sl)" and "i < sl_len sl"
    and "run_state (slice_delete Tenants_region zero sl i (Suc i)) h = (sl', h')"
  shows "slice_value Tenants_region h' (Some sl') = slices_Delete (slice_value Tenants_region h (Some sl)) i (Suc i)"
    and "tenants_write h (Some sl) h'"
  using assms
  by (auto simp: slice_delete_def Let_def slice_value_def slice_elems_def slice_ok_def slices_Delete_def put_tenants write_put)

text \<open>The heap's \<open>upsertTenant\<close> computes the list's.\<close>

lemma IndexFunc_less: "0 \<le> IndexFunc xs p \<Longrightarrow> nat (IndexFunc xs p) < length xs"
  using IndexFunc_split [of xs p] by (metis add_less_cancel_left length_append length_Cons linorder_not_less
    less_add_same_cancel1 zero_less_Suc)

lemma heap_upsertTenant_correct:
  assumes "tenants_ok h x" and "run_state (heap_upsertTenant grow x t) h = (y, h')"
  shows "slice_value Tenants_region h' y = upsertTenant (slice_value Tenants_region h x) t" and "tenants_write h x h'"
proof -
  define idx where "idx = IndexFunc (slice_value Tenants_region h x) (\<lambda>e. ID e = ID t)"
  have "slice_value Tenants_region h' y = upsertTenant (slice_value Tenants_region h x) t \<and> tenants_write h x h'"
  proof (cases "0 \<le> idx")
    case True
    then obtain sl where x: "x = Some sl"
      by (cases x) (simp_all add: idx_def slice_value_def IndexFunc_def)
    have "nat idx < sl_len sl"
      using IndexFunc_less [of "slice_value Tenants_region h x"] True
      by (simp add: idx_def x slice_value_def slice_elems_def)
    from slice_assign_correct [OF _ this, of h t] assms True x show ?thesis
      by (auto simp: heap_upsertTenant_def upsertTenant_def Let_def idx_def split_beta)
  next
    case False
    then have "run_state (slice_append grow Tenants_region zero_RegisteredTenant x t) h = (y, h')"
      using assms(2) by (cases x) (simp_all add: heap_upsertTenant_def Let_def idx_def)
    from slice_append_correct [OF assms(1) this] False show ?thesis
      by (simp add: upsertTenant_def Let_def idx_def [symmetric])
  qed
  then show "slice_value Tenants_region h' y = upsertTenant (slice_value Tenants_region h x) t" and "tenants_write h x h'"
    by blast+
qed

lemma copy_then_write:
  assumes lib: "value_copies lib" and b: "go_binding_ok h b"
    and copy: "run_state (CollectorGroupBinding_DeepCopyInto lib b) h = (base, h1)"
    and "write": "tenants_write h1 (g_RegisteredTenants (o_Status b)) h2"
  shows "go_binding_ok h1 b" and "binding_val h1 b = binding_val h b" and "binding_val h2 base = binding_val h b"
    and "binding_val h2 (heap_set_tenants ts b) = (binding_val h b)\<lparr>Status :=
      Status (binding_val h b)\<lparr>RegisteredTenants := slice_value Tenants_region h2 ts\<rparr>\<rparr>"
proof -
  note contract = deep_copier.copy_keeps deep_copier.copy_ok deep_copier.copy_val deep_copier.copy_fresh
  have "keeps {} h h1" "go_binding_ok h1 base" "binding_val h1 base = binding_val h b"
    "binding_refs h1 base \<inter> {..<hp_next h} = {}"
    using contract [OF value_copies.binding [OF lib] b] copy by simp_all
  note base = this
  note stable = deep_copier.stable [OF value_copies.binding [OF lib]]
  from stable [OF b base(1)] show ok: "go_binding_ok h1 b" and same: "binding_val h1 b = binding_val h b" by simp_all
  have "tenants_refs h1 (g_RegisteredTenants (o_Status b)) \<subseteq> binding_refs h1 b"
    by (auto simp: binding_refs_def status_refs_def)
  also have "binding_refs h1 b = binding_refs h b" using stable [OF b base(1)] by simp
  finally have "binding_refs h1 base \<inter> tenants_refs h1 (g_RegisteredTenants (o_Status b)) = {}"
    using base(4) deep_copier.refs_alloc [OF value_copies.binding [OF lib] b] by blast
  then have "binding_val h2 base = binding_val h1 base"
    using stable [OF base(2)] "write" unfolding tenants_write_def by blast
  with base(3) show "binding_val h2 base = binding_val h b" by simp
  have "slice_value Conditions_region h2 x = slice_value Conditions_region h1 x" for x
    using "write"
    by (simp add: tenants_write_def slice_value_def slice_elems_def Conditions_region_def split: option.split)
  moreover have "meta_val h2 m = meta_val h1 m" for m
    using "write"
    by (simp add: tenants_write_def meta_val_def ptr_val_def slice_value_def slice_elems_def Labels_cell_def Time_cell_def
      Finalizers_region_def split: option.split)
  ultimately show "binding_val h2 (heap_set_tenants ts b) = (binding_val h b)\<lparr>Status :=
      Status (binding_val h b)\<lparr>RegisteredTenants := slice_value Tenants_region h2 ts\<rparr>\<rparr>"
    unfolding same [symmetric] by (simp add: binding_val_def status_val_def heap_set_tenants_def)
qed

text \<open>The two updates at a well-formed binding.\<close>

lemma binding_tenants:
  "RegisteredTenants (Status (binding_val h b)) = slice_value Tenants_region h (g_RegisteredTenants (o_Status b))"
  by (simp add: binding_val_def status_val_def)

lemma copied_binding:
  assumes "value_copies lib" "go_binding_ok h b"
  obtains base h1 where "run_state (CollectorGroupBinding_DeepCopyInto lib b) h = (base, h1)"
    "tenants_ok h1 (g_RegisteredTenants (o_Status b))"
    "slice_value Tenants_region h1 (g_RegisteredTenants (o_Status b)) =
       slice_value Tenants_region h (g_RegisteredTenants (o_Status b))"
proof -
  obtain base h1 where copy: "run_state (CollectorGroupBinding_DeepCopyInto lib b) h = (base, h1)" by fastforce
  have "go_binding_ok h1 b" "binding_val h1 b = binding_val h b"
    using copy_then_write(1,2) [OF assms copy, of h1] by (simp_all add: tenants_write_def)
  then show ?thesis
    using that copy binding_tenants by (metis go_binding_ok_def status_ok_def)
qed

lemma register_in_place_correct:
  assumes lib: "value_copies lib" and b: "go_binding_ok h b"
  shows "\<exists>base b' h'. run_state (register_in_place lib grow b t) h = ((base, b'), h') \<and>
      binding_val h' base = binding_val h b \<and>
      binding_val h' b' = (binding_val h b)\<lparr>Status := Status (binding_val h b)\<lparr>RegisteredTenants :=
        upsertTenant (RegisteredTenants (Status (binding_val h b))) t\<rparr>\<rparr>"
proof -
  let ?ts = "g_RegisteredTenants (o_Status b)"
  obtain base h1 where copy: "run_state (CollectorGroupBinding_DeepCopyInto lib b) h = (base, h1)"
    and h1: "tenants_ok h1 ?ts" "slice_value Tenants_region h1 ?ts = slice_value Tenants_region h ?ts"
    by (rule copied_binding [OF lib b])
  obtain y h2 where up: "run_state (heap_upsertTenant grow ?ts t) h1 = (y, h2)" by fastforce
  show ?thesis
    using heap_upsertTenant_correct [OF h1(1) up] copy_then_write(3,4) [OF lib b copy, of h2] h1(2)
    by (simp add: register_in_place_def copy up binding_tenants)
qed

lemma unregister_in_place_correct:
  assumes lib: "value_copies lib" and b: "go_binding_ok h b"
    and idx: "idx = indexTenantByCollectorID (RegisteredTenants (Status (binding_val h b))) c"
  shows "if idx < 0 then run_state (unregister_in_place lib b c) h = (None, h)
    else \<exists>base b' h'. run_state (unregister_in_place lib b c) h = (Some (base, b'), h') \<and>
      binding_val h' base = binding_val h b \<and>
      binding_val h' b' = (binding_val h b)\<lparr>Status := Status (binding_val h b)\<lparr>RegisteredTenants :=
        slices_Delete (RegisteredTenants (Status (binding_val h b))) (nat idx) (Suc (nat idx))\<rparr>\<rparr>"
proof (cases "g_RegisteredTenants (o_Status b)")
  case None
  then show ?thesis
    by (simp add: idx unregister_in_place_def binding_tenants slice_value_def indexTenantByCollectorID_def
      IndexFunc_def)
next
  case (Some sl)
  let ?xs = "slice_value Tenants_region h (Some sl)"
  have idx': "indexTenantByCollectorID ?xs c = idx" by (simp add: idx binding_tenants Some)
  obtain base h1 where copy: "run_state (CollectorGroupBinding_DeepCopyInto lib b) h = (base, h1)"
    and h1: "tenants_ok h1 (Some sl)" "slice_value Tenants_region h1 (Some sl) = ?xs"
    using copied_binding [OF lib b] unfolding Some by blast
  show ?thesis
  proof (cases "idx < 0")
    case True
    then show ?thesis by (simp add: unregister_in_place_def Let_def Some idx')
  next
    case False
    then have "nat idx < length ?xs"
      unfolding idx' [symmetric] indexTenantByCollectorID_def by (intro IndexFunc_less) linarith
    then have i: "nat idx < sl_len sl" by (simp add: slice_value_def slice_elems_def)
    obtain sl' h2 where del:
      "run_state (slice_delete Tenants_region zero_RegisteredTenant sl (nat idx) (Suc (nat idx))) h1 = (sl', h2)"
      by fastforce
    from slice_delete_correct [OF h1(1) i del] copy_then_write(3,4) [OF lib b copy, of h2] h1(2) False
    show ?thesis by (simp add: unregister_in_place_def copy del Let_def Some idx' binding_tenants)
  qed
qed

section \<open>Properties\<close>

text \<open>
  C10: The in-place updates refine the list updates of the registry. For a well-formed binding, the
  upsert of a registration leaves the base of the patch with the binding's old value and gives the
  binding whose tenants are \<open>upsertTenant\<close> of the old ones, whether the entry is overwritten, appended
  in place or appended in a grown array; and the removal of a collector's entry by \<open>slices.Delete\<close> leaves
  the base alike and gives the list without that entry, or does nothing when there is none.
\<close>

theorem in_place_updates_refine_lists:
  assumes lib: "value_copies lib" and b: "go_binding_ok h b"
  shows "(\<exists>base b' h'. run_state (register_in_place lib grow b t) h = ((base, b'), h') \<and>
      binding_val h' base = binding_val h b \<and>
      binding_val h' b' = (binding_val h b)\<lparr>Status := Status (binding_val h b)\<lparr>RegisteredTenants :=
        upsertTenant (RegisteredTenants (Status (binding_val h b))) t\<rparr>\<rparr>) \<and>
    (let idx = indexTenantByCollectorID (RegisteredTenants (Status (binding_val h b))) c
     in if idx < 0 then run_state (unregister_in_place lib b c) h = (None, h)
        else \<exists>base b' h'. run_state (unregister_in_place lib b c) h = (Some (base, b'), h') \<and>
          binding_val h' base = binding_val h b \<and>
          binding_val h' b' = (binding_val h b)\<lparr>Status := Status (binding_val h b)\<lparr>RegisteredTenants :=
            slices_Delete (RegisteredTenants (Status (binding_val h b))) (nat idx) (Suc (nat idx))\<rparr>\<rparr>)"
  unfolding Let_def
  by (rule conjI [OF register_in_place_correct [OF assms] unregister_in_place_correct [OF assms HOL.refl]])

theorem in_place_updates_refine_lists_witness:
  "\<exists>base b' h'. run_state (register_in_place struct_copies (\<lambda>n. n) sample_go_binding
        \<lparr>ID = ''u'', CollectorID = ''d'', LastSeenAt = 9\<rparr>) sample_heap = ((base, b'), h') \<and>
      RegisteredTenants (Status (binding_val h' base)) = [heap_tenant] \<and>
      RegisteredTenants (Status (binding_val h' b')) = [heap_tenant, \<lparr>ID = ''u'', CollectorID = ''d'', LastSeenAt = 9\<rparr>]"
proof -
  have ok: "go_binding_ok sample_heap sample_go_binding" by (simp add: sample_heap_simps)
  have ts: "RegisteredTenants (Status (binding_val sample_heap sample_go_binding)) = [heap_tenant]"
    by (simp add: sample_heap_simps binding_val_def status_val_def slice_value_def)
  have up: "upsertTenant [heap_tenant] \<lparr>ID = ''u'', CollectorID = ''d'', LastSeenAt = 9\<rparr> =
      [heap_tenant, \<lparr>ID = ''u'', CollectorID = ''d'', LastSeenAt = 9\<rparr>]"
    by (simp add: upsertTenant_def IndexFunc_def heap_tenant_def)
  obtain base b' h' where "run_state (register_in_place struct_copies (\<lambda>n. n) sample_go_binding
      \<lparr>ID = ''u'', CollectorID = ''d'', LastSeenAt = 9\<rparr>) sample_heap = ((base, b'), h')"
    "binding_val h' base = binding_val sample_heap sample_go_binding"
    "RegisteredTenants (Status (binding_val h' b')) =
      upsertTenant [heap_tenant] \<lparr>ID = ''u'', CollectorID = ''d'', LastSeenAt = 9\<rparr>"
    using conjunct1 [OF in_place_updates_refine_lists [OF structs.value_copies_axioms ok, of "\<lambda>n. n"
      "\<lparr>ID = ''u'', CollectorID = ''d'', LastSeenAt = 9\<rparr>" "''c''"]] unfolding ts by fastforce
  with ts up show ?thesis by simp
qed

end
