(* ===== verification/Sha256_Vectors.thy ===== *)
theory Sha256_Vectors
  imports Sha256
begin

text \<open>
  A published test vector for the digest of \<open>Sha256\<close>, evaluated in the kernel: it pins the constants,
  the padding, the rounds and the hexadecimal form down at once. The property that follows holds for the
  digest of every content.
\<close>

text \<open>
  The content digest of the three bytes \<open>abc\<close> is the value the standard publishes for SHA-256, in
  the lowercase hexadecimal form that \<open>%x\<close> prints.
\<close>

lemma content_digest_test_vector:
  "content_digest ''abc'' = ''ba7816bf8f01cfea414140de5dae2223b00361a396177a9cb410ff61f20015ad''"
  by code_simp

section \<open>Properties\<close>

text \<open>
  C35: Every content digest is a string of 64 lowercase hexadecimal digits, so a hashed PipelineConfig
  never carries the empty hash that the resolver takes for one that was not reconciled.
\<close>

theorem content_digest_shape:
  "length (content_digest s) = 64 \<and> set (content_digest s) \<subseteq> set ''0123456789abcdef'' \<and> content_digest s \<noteq> []"
proof (intro conjI)
  show "set (content_digest s) \<subseteq> set ''0123456789abcdef''"
    unfolding content_digest_def by (rule set_hex_string)
qed (rule length_content_digest content_digest_nonempty)+

end
