(* ===== verification/Spec2Isabelle.thy ===== *)
theory Spec2Isabelle
  imports
    Binding_Properties
    Fleet_System
    Lifecycle
    Fault_Scenarios
    Metric_Log
    Retry_Bound
    Server
    Operator_Main
    Tenant_Slices
    Sha256_Vectors
begin

text \<open>
  Verification development of the Alloy remote configuration operator (\<open>alloy-remote-config\<close>).

  \<^bold>\<open>The program.\<close> A Kubernetes operator serves configurations to Grafana Alloy collectors. Three custom
  resources describe what to serve: a PipelineConfig holds a configuration, a CollectorGroup names a
  group of collectors, a CollectorGroupBinding says which PipelineConfig a tenant or a group gets.
  Three controllers reconcile them; a Connect-RPC service answers collectors and keeps a registry of
  the tenants it saw in the status of their bindings; metrics count both. The parts interact through
  the API server: the controllers keep \<open>activeBindings\<close> counters on the resources that bindings refer
  to, and finalizers that test these counters guard deletions; the service resolves a request from
  the hash that the PipelineConfig controller published, along the fields the binding controller
  indexed.

  \<^bold>\<open>Theories and sources.\<close>

  \<^item> \<open>Prelude\<close>: Go's strings (byte lists), 64-bit integers (words), times, error values, the slice functions
    the program calls, and the state monad in which every operation is written.
  \<^item> \<open>Api_Types\<close> (\<open>api/v1alpha1/*_types.go\<close>, \<open>labels.go\<close>): the resources as records, with the validation rules
    of their schema as predicates. \<open>Binding_Index\<close>: the field indexes of the binding controller.
  \<^item> \<open>Kube_World\<close>: what the program calls outside its source (the client of each kind, clock, metrics,
    helpers of \<open>apimachinery\<close> and \<open>controllerutil\<close>) as a record \<open>w\<close> that every operation takes, and its
    documented behaviour as locales over a view of the abstract state as a cluster. \<open>Mem_World\<close>
    is an executable in-memory API server that meets them, \<open>Sample_Cluster\<close> some of its states.
  \<^item> \<open>Sha256\<close>, \<open>Sha256_Vectors\<close>: \<open>crypto/sha256\<close> and hexadecimal printing on 32-bit words, with a test vector.
  \<^item> \<open>Resource_Controllers\<close> (\<open>pipelineconfig_controller.go\<close>, \<open>collectorgroup_controller.go\<close>),
    \<open>Binding_Controller\<close> (\<open>collectorgroupbinding_controller.go\<close>): \<open>Reconcile\<close> and all its helpers, one
    definition each, with every early return. \<open>Counter_Invariant\<close>, \<open>Binding_Properties\<close>: their properties.
  \<^item> \<open>Resolver\<close> (\<open>port/configresolver.go\<close>, \<open>adapter/kubernetes/configresolver.go\<close>, \<open>metrics_configresolver.go\<close>),
    \<open>Registry\<close> (\<open>port/collectorregistry.go\<close>, \<open>adapter/kubernetes/collectorregistry.go\<close>, \<open>adapter/noop\<close>): the two
    ports as records of operations, and their implementations.
  \<^item> \<open>Collector_Service\<close> (\<open>service/collector_service.go\<close>): the three RPC handlers over any pair of ports.
    \<open>Interceptor\<close> (\<open>interceptor/metrics_interceptor.go\<close>): the handlers as \<open>main\<close> mounts them.
    \<open>Retry_Bound\<close> counts the patches of the registry's retry loops.
  \<^item> \<open>Metrics_Defs\<close> (\<open>metrics/metrics.go\<close>, \<open>register.go\<close>), \<open>Resource_Collector\<close> (\<open>metrics/resource_collector.go\<close>):
    the metrics, their registration and the scrape. \<open>Metric_Log\<close>: the log of all metric calls.
  \<^item> \<open>Server\<close> (\<open>server/server.go\<close>): \<open>Start\<close> as a step relation of two goroutines and a channel.
  \<^item> \<open>Operator_Main\<close> (\<open>cmd/main.go\<close>, \<open>groupversion_info.go\<close>): flags, options and the start-up sequence
    from \<open>init\<close> on, with the calls that panic or die.
  \<^item> \<open>Go_Heap\<close>, \<open>Deep_Copy\<close> (\<open>zz_generated.deepcopy.go\<close>), \<open>Tenant_Slices\<close> (the tenant updates of
    \<open>collectorregistry.go\<close>): slices that share backing arrays, pointers and label maps,
    those of the object metadata included, and what is done to them in place.
  \<^item> \<open>Cache_Lag\<close> (RPCs served from a cache that lags behind), \<open>Stale_Controllers\<close> (reconciles that read from
    one), \<open>Fleet_System\<close>, \<open>Lifecycle\<close>, \<open>Fault_Scenarios\<close>: the composed operator.

  \<^bold>\<open>State.\<close> An operation is a function of the state monad over an abstract type \<open>'s\<close>, the world outside the
  process; the program itself keeps no state between calls. What a property says of the state it
  says through \<open>view\<close>, which gives the resources as maps from namespace and name and the log of metric
  calls. Errors are the values of \<open>go_error\<close>; a result and an error are a sum.

  \<^bold>\<open>Interfaces.\<close> \<open>resource_store\<close>, \<open>kube_world\<close> and \<open>kube_clock\<close> state the contract of the API server and the
  clock; \<open>config_resolver\<close> and \<open>collector_registry\<close> that of the two ports, which the Kubernetes
  implementations meet in every \<open>kube_world\<close> (as sublocales) and which the metrics decorator preserves;
  \<open>collector_service\<close> is the service over any such ports; \<open>merge_patching\<close> adds how a merge patch is
  applied, and \<open>optimistic_locking\<close> that an update of a stale object is refused, on which what is shown
  of reads through a stale cache rests; \<open>indexing_manager\<close> is the manager of
  controller-runtime; \<open>metric_log\<close> is a world whose only metric calls are those the program makes,
  whatever its clients answer; \<open>heap_region\<close>, \<open>heap_cell\<close>, \<open>deep_copier\<close> and \<open>slice_copier\<close> are the memory
  and the contract of a deep copy, and \<open>value_copies\<close> what the library's own copies promise. All are interpreted, on the
  in-memory server, the port implementations, the heap regions and the generated copies.

  \<^bold>\<open>What is shown.\<close>

  \<^item> Counters: in every state that interleaved reconciles, RPCs, scrapes and user edits can reach, each
    counter is the number of bindings bound to its resource, bound references exist and bound
    bindings carry their finalizer (\<open>Fleet_System\<close>), except where a user has interfered. A run carries a
    record (\<open>blame\<close>) of the resources that were removed while bound and of the namespaces in which
    somebody changed what is the operator's; users may do anything, and what the record does not
    name is exact. The RPCs and the reconciles of PipelineConfigs and CollectorGroups may read from stale
    caches there; a reconcile of a binding is one step that reads what is stored, since a write of
    it that is refused halfway does break the counters (\<open>Fault_Scenarios\<close>). Where the counters are exact,
    no deletion removes a resource in use, and none deadlocks (\<open>Binding_Properties\<close>,
    \<open>Stale_Controllers\<close>, \<open>Lifecycle\<close>).
  \<^item> Controllers: the effect of a reconcile on each of its paths, eviction by age, publication of the
    digest, progress to Active.
  \<^item> Service: the answer is that of the chain tenant, group, default, also on the state a stale cache
    shows; nothing but tenant entries is written; errors are mapped as documented.
  \<^item> Registry: a registration is an update of the map from tenants to entries, in the binding of the
    tenant or else of the group; unregistering undoes the registration of a new tenant by a new
    collector; the retry loops patch at most three times.
  \<^item> Memory: generated copies share nothing with their originals, metadata included, and the in-place updates of the
    registry compute the list updates of the model while the base of the patch keeps its value.
  \<^item> Metrics: every call passes the labels its metric declares, also when the API fails; a scrape counts the stored resources.
  \<^item> Start-up and shutdown: the first failing step ends the process, the indexes exist before
    anything is served, the serving goroutine is never leaked.
  \<^item> Faults: where the code does not keep its promise (a rejected status write, a foreign finalizer, an
    emptied configuration, a configuration created again while bound, a registration on a stale
    cache), the deviation is proved.

  \<^bold>\<open>Bounds.\<close> No definition uses fuel. The retry loops recurse on the attempts left, at most
  \<open>maxPatchRetries\<close>; the eviction loop has a measure; the digest recurses on its blocks. Counters are
  64-bit words that wrap, and the counter properties assume that the cluster holds fewer than
  \<open>2 ^ 63\<close> bindings, so that a counter read as a signed number is not negative.

  \<^bold>\<open>Not modelled.\<close> Controller-runtime, the API server, Connect, \<open>net/http\<close>, Prometheus and the parsing of
  flags are not part of the sources; they are parameters with their documented behaviour. Logging has
  no effect on the state. The work queue and leader election of the manager are replaced by
  arbitrary interleaving. The end-to-end test helpers run \<open>kubectl\<close>; charts, manifests and build files
  hold no code of the program.
\<close>

end
